theory Spec2Isabelle
  imports Complex_Main "HOL-Library.Word"
begin

section \<open>Numbers, vectors and typed arrays\<close>

text \<open>
  The source computes with JavaScript numbers. The embedding uses exact real arithmetic
  for every finite value (rounding to binary64 and to the 32-bit storage of
  \<^verbatim>\<open>Float32Array\<close> is not modelled). The special values that the source does
  produce are kept: \<^verbatim>\<open>Infinity\<close> is the default \<^verbatim>\<open>maxDistance\<close> and the
  initial \<^verbatim>\<open>closestT\<close>, and a read outside an array gives \<^verbatim>\<open>undefined\<close>,
  which arithmetic turns into \<^verbatim>\<open>NaN\<close>. Every comparison with \<^verbatim>\<open>NaN\<close> is false.
\<close>

type_synonym vec2 = "real \<times> real"
type_synonym vec3 = "real \<times> real \<times> real"

datatype jsnum = NaN | NInf | Fin real | PInf

fun numLess :: "jsnum \<Rightarrow> jsnum \<Rightarrow> bool" where
  "numLess (Fin a) (Fin b) = (a < b)"
| "numLess NInf (Fin b) = True"
| "numLess NInf PInf = True"
| "numLess (Fin a) PInf = True"
| "numLess _ _ = False"

fun numLessEq :: "jsnum \<Rightarrow> jsnum \<Rightarrow> bool" where
  "numLessEq (Fin a) (Fin b) = (a \<le> b)"
| "numLessEq NInf (Fin b) = True"
| "numLessEq NInf PInf = True"
| "numLessEq (Fin a) PInf = True"
| "numLessEq NInf NInf = True"
| "numLessEq PInf PInf = True"
| "numLessEq _ _ = False"

text \<open>\<^verbatim>\<open>Math.min\<close> and \<^verbatim>\<open>Math.max\<close>: \<^verbatim>\<open>NaN\<close> as soon as one argument is.\<close>

fun mathMin :: "jsnum \<Rightarrow> jsnum \<Rightarrow> jsnum" where
  "mathMin NaN b = NaN"
| "mathMin a NaN = NaN"
| "mathMin a b = (if numLess b a then b else a)"

fun mathMax :: "jsnum \<Rightarrow> jsnum \<Rightarrow> jsnum" where
  "mathMax NaN b = NaN"
| "mathMax a NaN = NaN"
| "mathMax a b = (if numLess a b then b else a)"

text \<open>A finite number times a number, and a finite number plus a number.\<close>

fun numTimes :: "real \<Rightarrow> jsnum \<Rightarrow> jsnum" where
  "numTimes d (Fin m) = Fin (d * m)"
| "numTimes d PInf = (if 0 < d then PInf else if d < 0 then NInf else NaN)"
| "numTimes d NInf = (if 0 < d then NInf else if d < 0 then PInf else NaN)"
| "numTimes d NaN = NaN"

fun numPlus :: "real \<Rightarrow> jsnum \<Rightarrow> jsnum" where
  "numPlus a (Fin b) = Fin (a + b)"
| "numPlus a b = b"

text \<open>
  Reading a typed array: \<^verbatim>\<open>undefined\<close> outside the array (\<open>None\<close>). An index that
  is itself \<^verbatim>\<open>undefined\<close> makes the index expression \<^verbatim>\<open>NaN\<close>, and the read
  \<^verbatim>\<open>undefined\<close> again.
\<close>

definition readAt :: "'a list \<Rightarrow> int \<Rightarrow> 'a option" where
  "readAt xs i = (if 0 \<le> i \<and> i < int (length xs) then Some (xs ! nat i) else None)"

definition readNum :: "real list \<Rightarrow> int \<Rightarrow> jsnum" where
  "readNum xs i = (case readAt xs i of None \<Rightarrow> NaN | Some x \<Rightarrow> Fin x)"

definition readNumArray :: "jsnum list \<Rightarrow> int \<Rightarrow> jsnum" where
  "readNumArray xs i = (case readAt xs i of None \<Rightarrow> NaN | Some x \<Rightarrow> x)"

text \<open>\<^verbatim>\<open>positions[vi * 3 + k]\<close> for a vertex index \<open>vi\<close> read from the index array.\<close>

definition positionOf :: "real list \<Rightarrow> int option \<Rightarrow> int \<Rightarrow> jsnum" where
  "positionOf positions vi k =
     (case vi of None \<Rightarrow> NaN | Some i \<Rightarrow> readNum positions (i * 3 + k))"

definition vertexOf :: "real list \<Rightarrow> int option \<Rightarrow> jsnum \<times> jsnum \<times> jsnum" where
  "vertexOf positions vi =
     (positionOf positions vi 0, positionOf positions vi 1, positionOf positions vi 2)"

fun finite3 :: "jsnum \<times> jsnum \<times> jsnum \<Rightarrow> vec3 option" where
  "finite3 (Fin x, Fin y, Fin z) = Some (x, y, z)"
| "finite3 _ = None"

text \<open>The loop \<^verbatim>\<open>for (let t = 0; t < triCount; t++)\<close> over a count that need not be whole.\<close>

definition loopRange :: "real \<Rightarrow> nat list" where
  "loopRange c = [0 ..< nat \<lceil>c\<rceil>]"

section \<open>The mesh and the cached arrays of MeshPaintable\<close>

text \<open>
  The host's mesh: every attribute accessor has one entry for each vertex, so the mesh is
  a list of vertices, each with its position and texture coordinate, and two flags that
  say which of the two attributes the mesh has. \<open>indexData\<close> is absent or an
  \<^verbatim>\<open>Int32Array\<close>.
\<close>

record mesh =
  hasPosition :: bool
  hasTextureCoordinate :: bool
  vertexData :: "(vec3 \<times> vec2) list"
  indexData :: "int list option"

text \<open>
  The fields of \<^verbatim>\<open>MeshPaintable\<close> that the ray query and the brush read;
  \<open>canvasWidth\<close> and \<open>canvasHeight\<close> are the size of the canvas that
  \<^verbatim>\<open>getCanvasSize\<close> reports. The per-triangle areas and their prefix sums are built
  by the source too; no query reads them and they are left out.
\<close>

record paintable =
  planarFallback :: bool
  canvasWidth :: nat
  canvasHeight :: nat
  positionsFlat :: "real list option"
  uvsFlat :: "real list option"
  triIndices :: "int list option"
  triMin :: "jsnum list option"
  triMax :: "jsnum list option"
  triCount :: real

definition flatten3 :: "vec3 list \<Rightarrow> real list" where
  "flatten3 ps = concat (map (\<lambda>(x, y, z). [x, y, z]) ps)"

definition flatten2 :: "vec2 list \<Rightarrow> real list" where
  "flatten2 ps = concat (map (\<lambda>(x, y). [x, y]) ps)"

text \<open>
  One round of the bounding-box loop of \<^verbatim>\<open>_buildMeshCaches\<close>. A write outside a typed
  array is ignored, as list update is.
\<close>

definition boxStep :: "real list \<Rightarrow> int list \<Rightarrow> nat \<Rightarrow> jsnum list \<times> jsnum list \<Rightarrow> jsnum list \<times> jsnum list" where
  "boxStep positions tris t acc =
     (let i0 = readAt tris (int (t * 3 + 0));
          i1 = readAt tris (int (t * 3 + 1));
          i2 = readAt tris (int (t * 3 + 2))
      in case (vertexOf positions i0, vertexOf positions i1, vertexOf positions i2) of
           ((x0, y0, z0), (x1, y1, z1), (x2, y2, z2)) \<Rightarrow>
             ((fst acc)[t * 3 + 0 := mathMin (mathMin x0 x1) x2,
                        t * 3 + 1 := mathMin (mathMin y0 y1) y2,
                        t * 3 + 2 := mathMin (mathMin z0 z1) z2],
              (snd acc)[t * 3 + 0 := mathMax (mathMax x0 x1) x2,
                        t * 3 + 1 := mathMax (mathMax y0 y1) y2,
                        t * 3 + 2 := mathMax (mathMax z0 z1) z2]))"

definition buildMeshCaches :: "mesh \<Rightarrow> paintable \<Rightarrow> paintable" where
  "buildMeshCaches m p =
     (if \<not> hasPosition m then p
      else
        let vertexCount = length (vertexData m);
            positions = flatten3 (map fst (vertexData m));
            uvs = (if hasTextureCoordinate m then Some (flatten2 (map snd (vertexData m))) else None);
            (count, tris) =
               (case indexData m of
                  Some indices \<Rightarrow>
                    if length indices > 0 then (real (length indices) / 3, indices)
                    else (real vertexCount / 3, map int [0 ..< vertexCount])
                | None \<Rightarrow> (real vertexCount / 3, map int [0 ..< vertexCount]));
            (mins, maxs) =
               fold (boxStep positions tris) (loopRange count)
                 (replicate (length tris) (Fin 0), replicate (length tris) (Fin 0))
        in p\<lparr>positionsFlat := Some positions, uvsFlat := uvs, triIndices := Some tris,
              triMin := Some mins, triMax := Some maxs, triCount := count\<rparr>)"

section \<open>Ray against triangle\<close>

definition EPS :: real where
  "EPS = 1 / 10 ^ 8"

definition rayTriangleIntersectMollerTrumbore ::
  "vec3 \<Rightarrow> vec3 \<Rightarrow> vec3 \<Rightarrow> vec3 \<Rightarrow> vec3 \<Rightarrow> (real \<times> real \<times> real) option" where
  "rayTriangleIntersectMollerTrumbore orig dir p0 p1 p2 =
     (case (orig, dir, p0, p1, p2) of
        ((ox, oy, oz), (dx, dy, dz), (p0x, p0y, p0z), (p1x, p1y, p1z), (p2x, p2y, p2z)) \<Rightarrow>
     let edge1x = p1x - p0x; edge1y = p1y - p0y; edge1z = p1z - p0z;
         edge2x = p2x - p0x; edge2y = p2y - p0y; edge2z = p2z - p0z;
         px = dy * edge2z - dz * edge2y;
         py = dz * edge2x - dx * edge2z;
         pz = dx * edge2y - dy * edge2x;
         det = edge1x * px + edge1y * py + edge1z * pz
     in if det > - EPS \<and> det < EPS then None
        else
          let invDet = 1 / det;
              tx = ox - p0x; ty = oy - p0y; tz = oz - p0z;
              u = (tx * px + ty * py + tz * pz) * invDet
          in if u < 0 \<or> u > 1 then None
             else
               let qx = ty * edge1z - tz * edge1y;
                   qy = tz * edge1x - tx * edge1z;
                   qz = tx * edge1y - ty * edge1x;
                   v = (dx * qx + dy * qy + dz * qz) * invDet
               in if v < 0 \<or> u + v > 1 then None
                  else
                    let t = (edge2x * qx + edge2y * qy + edge2z * qz) * invDet
                    in if t \<le> EPS then None else Some (t, u, v))"

section \<open>getUVFromLocalRay\<close>

record uvResult =
  uv :: vec2
  triIndex :: nat
  localHit :: vec3

record scanState =
  closestT :: jsnum
  bestTri :: "nat option"
  bestU :: real
  bestV :: real
  bestLocalHit :: "vec3 option"

definition scanInit :: scanState where
  "scanInit = \<lparr>closestT = PInf, bestTri = None, bestU = 0, bestV = 0, bestLocalHit = None\<rparr>"

text \<open>The ray's own box: \<^verbatim>\<open>localEnd\<close>, then the six bounds, as (min, max) of each axis.\<close>

definition rayBox :: "vec3 \<Rightarrow> vec3 \<Rightarrow> jsnum \<Rightarrow> (jsnum \<times> jsnum) \<times> (jsnum \<times> jsnum) \<times> (jsnum \<times> jsnum)" where
  "rayBox localOrigin localDir maxDistance =
     (case (localOrigin, localDir) of ((ox, oy, oz), (dx, dy, dz)) \<Rightarrow>
        let ex = numPlus ox (numTimes dx maxDistance);
            ey = numPlus oy (numTimes dy maxDistance);
            ez = numPlus oz (numTimes dz maxDistance)
        in ((mathMin (Fin ox) ex, mathMax (Fin ox) ex),
            (mathMin (Fin oy) ey, mathMax (Fin oy) ey),
            (mathMin (Fin oz) ez, mathMax (Fin oz) ez)))"

text \<open>The test that makes the loop \<^verbatim>\<open>continue\<close>.\<close>

definition boxRejects :: "jsnum list \<Rightarrow> jsnum list \<Rightarrow> (jsnum \<times> jsnum) \<times> (jsnum \<times> jsnum) \<times> (jsnum \<times> jsnum) \<Rightarrow> nat \<Rightarrow> bool" where
  "boxRejects mins maxs box t =
     (case box of ((rayMinX, rayMaxX), (rayMinY, rayMaxY), (rayMinZ, rayMaxZ)) \<Rightarrow>
        let minX = readNumArray mins (int (t * 3 + 0));
            minY = readNumArray mins (int (t * 3 + 1));
            minZ = readNumArray mins (int (t * 3 + 2));
            maxX = readNumArray maxs (int (t * 3 + 0));
            maxY = readNumArray maxs (int (t * 3 + 1));
            maxZ = readNumArray maxs (int (t * 3 + 2))
        in numLess maxX rayMinX \<or> numLess rayMaxX minX \<or>
           numLess maxY rayMinY \<or> numLess rayMaxY minY \<or>
           numLess maxZ rayMinZ \<or> numLess rayMaxZ minZ)"

text \<open>
  The exact test of one triangle and the update of the best hit. A vertex with a
  coordinate read outside the position array is \<^verbatim>\<open>NaN\<close> there; the determinant and
  with it \<open>t\<close> are then \<^verbatim>\<open>NaN\<close>, no early return of the intersection function fires
  and \<^verbatim>\<open>hit.t > 1e-6\<close> is false: the triangle is passed over.
\<close>

definition exactStep :: "real list \<Rightarrow> int list \<Rightarrow> vec3 \<Rightarrow> vec3 \<Rightarrow> jsnum \<Rightarrow> nat \<Rightarrow> scanState \<Rightarrow> scanState" where
  "exactStep positions tris localOrigin localDir maxDistance t st =
     (let vi0 = readAt tris (int (t * 3 + 0));
          vi1 = readAt tris (int (t * 3 + 1));
          vi2 = readAt tris (int (t * 3 + 2))
      in case (finite3 (vertexOf positions vi0), finite3 (vertexOf positions vi1),
               finite3 (vertexOf positions vi2)) of
           (Some p0, Some p1, Some p2) \<Rightarrow>
             (case rayTriangleIntersectMollerTrumbore localOrigin localDir p0 p1 p2 of
                None \<Rightarrow> st
              | Some (ht, hu, hv) \<Rightarrow>
                  if ht > 1 / 10 ^ 6 \<and> numLess (Fin ht) (closestT st) \<and> numLessEq (Fin ht) maxDistance
                  then (case (localOrigin, localDir) of ((ox, oy, oz), (dx, dy, dz)) \<Rightarrow>
                          \<lparr>closestT = Fin ht, bestTri = Some t, bestU = hu, bestV = hv,
                           bestLocalHit = Some (ox + dx * ht, oy + dy * ht, oz + dz * ht)\<rparr>)
                  else st)
         | _ \<Rightarrow> st)"

definition scanStep ::
  "real list \<Rightarrow> int list \<Rightarrow> jsnum list \<Rightarrow> jsnum list \<Rightarrow> vec3 \<Rightarrow> vec3 \<Rightarrow> jsnum \<Rightarrow> nat \<Rightarrow> scanState \<Rightarrow> scanState" where
  "scanStep positions tris mins maxs localOrigin localDir maxDistance t st =
     (if boxRejects mins maxs (rayBox localOrigin localDir maxDistance) t then st
      else exactStep positions tris localOrigin localDir maxDistance t st)"

text \<open>
  The planar fallback's loop over the position array, three entries at a time. The
  bounds start at \<^verbatim>\<open>Infinity\<close> and \<^verbatim>\<open>-Infinity\<close>. A last group with no third entry
  has \<^verbatim>\<open>z\<close> undefined, and its two comparisons are false.
\<close>

fun planarBounds :: "real list \<Rightarrow> jsnum \<times> jsnum \<times> jsnum \<times> jsnum \<Rightarrow> jsnum \<times> jsnum \<times> jsnum \<times> jsnum" where
  "planarBounds (x # y # z # rest) (minX, minZ, maxX, maxZ) =
     planarBounds rest
       (if numLess (Fin x) minX then Fin x else minX,
        if numLess (Fin z) minZ then Fin z else minZ,
        if numLess maxX (Fin x) then Fin x else maxX,
        if numLess maxZ (Fin z) then Fin z else maxZ)"
| "planarBounds (x # rest) (minX, minZ, maxX, maxZ) =
     (if numLess (Fin x) minX then Fin x else minX, minZ,
      if numLess maxX (Fin x) then Fin x else maxX, maxZ)"
| "planarBounds [] acc = acc"

definition clamp01 :: "real \<Rightarrow> real" where
  "clamp01 x = min (max x 0) 1"

text \<open>
  The two resolutions of a hit. In the first, the six reads of \<^verbatim>\<open>_uvsFlat\<close> are in
  range whenever the cache was built by \<open>buildMeshCaches\<close> (lemma
  \<open>fetched_vertex_has_uv\<close> below); for an array that is too short the source returns a \<^verbatim>\<open>NaN\<close> coordinate,
  which the result type of the embedding does not have, and the embedding answers
  \<open>None\<close>. The same holds for the bounds of the planar fallback, which are finite
  after a hit (lemma \<open>planarBounds_finite\<close>).
\<close>

definition resolveFromUVs :: "real list \<Rightarrow> int list \<Rightarrow> nat \<Rightarrow> real \<Rightarrow> real \<Rightarrow> vec3 \<Rightarrow> uvResult option" where
  "resolveFromUVs uvs tris best bU bV hitPoint =
     (let vi0 = readAt tris (int (best * 3 + 0));
          vi1 = readAt tris (int (best * 3 + 1));
          vi2 = readAt tris (int (best * 3 + 2));
          rd = (\<lambda>vi k. case vi of None \<Rightarrow> None | Some i \<Rightarrow> readAt uvs (i * 2 + k))
      in case (rd vi0 0, rd vi0 1, rd vi1 0, rd vi1 1, rd vi2 0, rd vi2 1) of
           (Some u0, Some v0, Some u1, Some v1, Some u2, Some v2) \<Rightarrow>
             let w0 = 1 - bU - bV; w1 = bU; w2 = bV;
                 finalU = w0 * u0 + w1 * u1 + w2 * u2;
                 finalV = w0 * v0 + w1 * v1 + w2 * v2
             in Some \<lparr>uv = (clamp01 finalU, clamp01 finalV), triIndex = best, localHit = hitPoint\<rparr>
         | _ \<Rightarrow> None)"

definition resolvePlanar :: "real list \<Rightarrow> nat \<Rightarrow> vec3 \<Rightarrow> uvResult option" where
  "resolvePlanar positions best hitPoint =
     (case planarBounds positions (PInf, PInf, NInf, NInf) of
        (Fin minX, Fin minZ, Fin maxX, Fin maxZ) \<Rightarrow>
          let denomX = (if maxX - minX = 0 then 1 else maxX - minX);
              denomZ = (if maxZ - minZ = 0 then 1 else maxZ - minZ);
              u = (fst hitPoint - minX) / denomX;
              v = (snd (snd hitPoint) - minZ) / denomZ
          in Some \<lparr>uv = (clamp01 u, clamp01 v), triIndex = best, localHit = hitPoint\<rparr>
      | _ \<Rightarrow> None)"

definition resolveHit :: "paintable \<Rightarrow> real list \<Rightarrow> int list \<Rightarrow> scanState \<Rightarrow> uvResult option" where
  "resolveHit g positions tris st =
     (case (bestTri st, bestLocalHit st) of
        (Some best, Some hitPoint) \<Rightarrow>
          (case uvsFlat g of
             Some uvs \<Rightarrow> resolveFromUVs uvs tris best (bestU st) (bestV st) hitPoint
           | None \<Rightarrow> if planarFallback g then resolvePlanar positions best hitPoint else None)
      | _ \<Rightarrow> None)"

definition getUVFromLocalRay :: "paintable \<Rightarrow> vec3 \<Rightarrow> vec3 \<Rightarrow> jsnum \<Rightarrow> uvResult option" where
  "getUVFromLocalRay g localOrigin localDir maxDistance =
     (case (positionsFlat g, triIndices g, triMin g, triMax g) of
        (Some positions, Some tris, Some mins, Some maxs) \<Rightarrow>
          resolveHit g positions tris
            (fold (scanStep positions tris mins maxs localOrigin localDir maxDistance)
               (loopRange (triCount g)) scanInit)
      | _ \<Rightarrow> None)"

text \<open>
  The reference the pruned scan is compared with: the exact test on every triangle, no
  bounding box consulted.
\<close>

definition getUVFromLocalRayBruteForce :: "paintable \<Rightarrow> vec3 \<Rightarrow> vec3 \<Rightarrow> jsnum \<Rightarrow> uvResult option" where
  "getUVFromLocalRayBruteForce g localOrigin localDir maxDistance =
     (case (positionsFlat g, triIndices g, triMin g, triMax g) of
        (Some positions, Some tris, Some mins, Some maxs) \<Rightarrow>
          resolveHit g positions tris
            (fold (exactStep positions tris localOrigin localDir maxDistance)
               (loopRange (triCount g)) scanInit)
      | _ \<Rightarrow> None)"


text \<open>The component before \<^verbatim>\<open>start\<close> has built anything: every cached array is null.\<close>

definition newPaintable :: "bool \<Rightarrow> nat \<Rightarrow> nat \<Rightarrow> paintable" where
  "newPaintable fallback w h =
     \<lparr>planarFallback = fallback, canvasWidth = w, canvasHeight = h,
      positionsFlat = None, uvsFlat = None, triIndices = None, triMin = None, triMax = None,
      triCount = 0\<rparr>"

section \<open>The determinant method, term by term\<close>

text \<open>
  The four quantities of the intersection test as functions of the ray and the triangle,
  and the test the specification words with them.
\<close>

definition mtDet :: "vec3 \<Rightarrow> vec3 \<Rightarrow> vec3 \<Rightarrow> vec3 \<Rightarrow> real" where
  "mtDet dir p0 p1 p2 =
     (case (dir, p0, p1, p2) of ((dx, dy, dz), (p0x, p0y, p0z), (p1x, p1y, p1z), (p2x, p2y, p2z)) \<Rightarrow>
        (p1x - p0x) * (dy * (p2z - p0z) - dz * (p2y - p0y)) +
        (p1y - p0y) * (dz * (p2x - p0x) - dx * (p2z - p0z)) +
        (p1z - p0z) * (dx * (p2y - p0y) - dy * (p2x - p0x)))"

definition mtU :: "vec3 \<Rightarrow> vec3 \<Rightarrow> vec3 \<Rightarrow> vec3 \<Rightarrow> vec3 \<Rightarrow> real" where
  "mtU orig dir p0 p1 p2 =
     (case (orig, dir, p0, p1, p2) of
        ((ox, oy, oz), (dx, dy, dz), (p0x, p0y, p0z), (p1x, p1y, p1z), (p2x, p2y, p2z)) \<Rightarrow>
        ((ox - p0x) * (dy * (p2z - p0z) - dz * (p2y - p0y)) +
         (oy - p0y) * (dz * (p2x - p0x) - dx * (p2z - p0z)) +
         (oz - p0z) * (dx * (p2y - p0y) - dy * (p2x - p0x))) * (1 / mtDet dir p0 p1 p2))"

definition mtV :: "vec3 \<Rightarrow> vec3 \<Rightarrow> vec3 \<Rightarrow> vec3 \<Rightarrow> vec3 \<Rightarrow> real" where
  "mtV orig dir p0 p1 p2 =
     (case (orig, dir, p0, p1, p2) of
        ((ox, oy, oz), (dx, dy, dz), (p0x, p0y, p0z), (p1x, p1y, p1z), (p2x, p2y, p2z)) \<Rightarrow>
        (dx * ((oy - p0y) * (p1z - p0z) - (oz - p0z) * (p1y - p0y)) +
         dy * ((oz - p0z) * (p1x - p0x) - (ox - p0x) * (p1z - p0z)) +
         dz * ((ox - p0x) * (p1y - p0y) - (oy - p0y) * (p1x - p0x))) * (1 / mtDet dir p0 p1 p2))"

definition mtT :: "vec3 \<Rightarrow> vec3 \<Rightarrow> vec3 \<Rightarrow> vec3 \<Rightarrow> vec3 \<Rightarrow> real" where
  "mtT orig dir p0 p1 p2 =
     (case (orig, dir, p0, p1, p2) of
        ((ox, oy, oz), (dx, dy, dz), (p0x, p0y, p0z), (p1x, p1y, p1z), (p2x, p2y, p2z)) \<Rightarrow>
        ((p2x - p0x) * ((oy - p0y) * (p1z - p0z) - (oz - p0z) * (p1y - p0y)) +
         (p2y - p0y) * ((oz - p0z) * (p1x - p0x) - (ox - p0x) * (p1z - p0z)) +
         (p2z - p0z) * ((ox - p0x) * (p1y - p0y) - (oy - p0y) * (p1x - p0x))) * (1 / mtDet dir p0 p1 p2))"

definition validIntersection :: "vec3 \<Rightarrow> vec3 \<Rightarrow> jsnum \<Rightarrow> vec3 \<Rightarrow> vec3 \<Rightarrow> vec3 \<Rightarrow> bool" where
  "validIntersection orig dir maxDist p0 p1 p2 =
     (\<bar>mtDet dir p0 p1 p2\<bar> \<ge> 1 / 10 ^ 8 \<and>
      0 \<le> mtU orig dir p0 p1 p2 \<and> mtU orig dir p0 p1 p2 \<le> 1 \<and>
      0 \<le> mtV orig dir p0 p1 p2 \<and> mtU orig dir p0 p1 p2 + mtV orig dir p0 p1 p2 \<le> 1 \<and>
      mtT orig dir p0 p1 p2 > 1 / 10 ^ 6 \<and> numLessEq (Fin (mtT orig dir p0 p1 p2)) maxDist)"

text \<open>
  Triangle \<open>t\<close> of a snapshot: the three vertices that the scan fetches in round \<open>t\<close>,
  when the loop reaches \<open>t\<close> and each coordinate is a number.
\<close>

definition triangleOf :: "paintable \<Rightarrow> nat \<Rightarrow> (vec3 \<times> vec3 \<times> vec3) option" where
  "triangleOf g t =
     (case (positionsFlat g, triIndices g) of
        (Some positions, Some tris) \<Rightarrow>
          if real t < triCount g then
            (case (finite3 (vertexOf positions (readAt tris (int (t * 3 + 0)))),
                   finite3 (vertexOf positions (readAt tris (int (t * 3 + 1)))),
                   finite3 (vertexOf positions (readAt tris (int (t * 3 + 2))))) of
               (Some p0, Some p1, Some p2) \<Rightarrow> Some (p0, p1, p2)
             | _ \<Rightarrow> None)
          else None
      | _ \<Rightarrow> None)"

definition validHit :: "paintable \<Rightarrow> vec3 \<Rightarrow> vec3 \<Rightarrow> jsnum \<Rightarrow> nat \<Rightarrow> bool" where
  "validHit g orig dir maxDist t =
     (case triangleOf g t of
        None \<Rightarrow> False
      | Some (p0, p1, p2) \<Rightarrow> validIntersection orig dir maxDist p0 p1 p2)"

text \<open>The point of the ray at parameter \<open>t\<close>.\<close>

definition rayPoint :: "vec3 \<Rightarrow> vec3 \<Rightarrow> real \<Rightarrow> vec3" where
  "rayPoint orig dir t =
     (case (orig, dir) of ((ox, oy, oz), (dx, dy, dz)) \<Rightarrow> (ox + dx * t, oy + dy * t, oz + dz * t))"

definition hitT :: "paintable \<Rightarrow> vec3 \<Rightarrow> vec3 \<Rightarrow> nat \<Rightarrow> real" where
  "hitT g orig dir t =
     (case triangleOf g t of None \<Rightarrow> 0 | Some (p0, p1, p2) \<Rightarrow> mtT orig dir p0 p1 p2)"

definition hitU :: "paintable \<Rightarrow> vec3 \<Rightarrow> vec3 \<Rightarrow> nat \<Rightarrow> real" where
  "hitU g orig dir t =
     (case triangleOf g t of None \<Rightarrow> 0 | Some (p0, p1, p2) \<Rightarrow> mtU orig dir p0 p1 p2)"

definition hitV :: "paintable \<Rightarrow> vec3 \<Rightarrow> vec3 \<Rightarrow> nat \<Rightarrow> real" where
  "hitV g orig dir t =
     (case triangleOf g t of None \<Rightarrow> 0 | Some (p0, p1, p2) \<Rightarrow> mtV orig dir p0 p1 p2)"


text \<open>The texture coordinates of the three vertices of triangle \<open>t\<close>.\<close>

definition uvOfVertex :: "real list \<Rightarrow> int option \<Rightarrow> vec2 option" where
  "uvOfVertex uvs vi =
     (case vi of
        None \<Rightarrow> None
      | Some i \<Rightarrow>
          (case (readAt uvs (i * 2 + 0), readAt uvs (i * 2 + 1)) of
             (Some a, Some b) \<Rightarrow> Some (a, b)
           | _ \<Rightarrow> None))"

definition triangleUVs :: "paintable \<Rightarrow> nat \<Rightarrow> (vec2 \<times> vec2 \<times> vec2) option" where
  "triangleUVs g t =
     (case (uvsFlat g, triIndices g) of
        (Some uvs, Some tris) \<Rightarrow>
          (case (uvOfVertex uvs (readAt tris (int (t * 3 + 0))),
                 uvOfVertex uvs (readAt tris (int (t * 3 + 1))),
                 uvOfVertex uvs (readAt tris (int (t * 3 + 2)))) of
             (Some a, Some b, Some c) \<Rightarrow> Some (a, b, c)
           | _ \<Rightarrow> None)
      | _ \<Rightarrow> None)"

definition weighted :: "real \<Rightarrow> real \<Rightarrow> real \<Rightarrow> vec2 \<Rightarrow> vec2 \<Rightarrow> vec2 \<Rightarrow> vec2" where
  "weighted w0 w1 w2 a b c =
     (w0 * fst a + w1 * fst b + w2 * fst c, w0 * snd a + w1 * snd b + w2 * snd c)"

definition inConvexHull :: "vec2 \<Rightarrow> vec2 \<Rightarrow> vec2 \<Rightarrow> vec2 \<Rightarrow> bool" where
  "inConvexHull q a b c =
     (\<exists>w0 w1 w2. 0 \<le> w0 \<and> 0 \<le> w1 \<and> 0 \<le> w2 \<and> w0 + w1 + w2 = 1 \<and> q = weighted w0 w1 w2 a b c)"

text \<open>The extents of a mesh along X and Z, for the planar fallback.\<close>

definition meshXs :: "mesh \<Rightarrow> real list" where
  "meshXs m = map (\<lambda>v. fst (fst v)) (vertexData m)"

definition meshZs :: "mesh \<Rightarrow> real list" where
  "meshZs m = map (\<lambda>v. snd (snd (fst v))) (vertexData m)"

definition planarUV :: "mesh \<Rightarrow> vec3 \<Rightarrow> vec2" where
  "planarUV m hitPoint =
     (let minX = Min (set (meshXs m)); maxX = Max (set (meshXs m));
          minZ = Min (set (meshZs m)); maxZ = Max (set (meshZs m));
          denomX = (if maxX - minX = 0 then 1 else maxX - minX);
          denomZ = (if maxZ - minZ = 0 then 1 else maxZ - minZ)
      in (clamp01 ((fst hitPoint - minX) / denomX), clamp01 ((snd (snd hitPoint) - minZ) / denomZ)))"

section \<open>Fixtures\<close>

text \<open>
  The two-triangle unit quad in the local X/Z plane, with and without texture
  coordinates, and the quad of side two used for the planar fallback.
\<close>

definition quadMesh :: mesh where
  "quadMesh =
     \<lparr>hasPosition = True, hasTextureCoordinate = True,
      vertexData = [((- 1 / 2, 0, - 1 / 2), (0, 0)), ((1 / 2, 0, - 1 / 2), (1, 0)),
                    ((1 / 2, 0, 1 / 2), (1, 1)), ((- 1 / 2, 0, 1 / 2), (0, 1))],
      indexData = Some [0, 1, 2, 0, 2, 3]\<rparr>"

definition wideQuadMesh :: mesh where
  "wideQuadMesh =
     \<lparr>hasPosition = True, hasTextureCoordinate = False,
      vertexData = [((- 1, 0, - 1), (0, 0)), ((1, 0, - 1), (0, 0)),
                    ((1, 0, 1), (0, 0)), ((- 1, 0, 1), (0, 0))],
      indexData = Some [0, 1, 2, 0, 2, 3]\<rparr>"

section \<open>The colour picker of MeshBrush\<close>

text \<open>
  Names are strings of bytes here and of UTF-16 code units in the source. The pattern
  looks for \<open>#\<close> and hexadecimal digits only, which are single ASCII characters in
  both.
\<close>

definition isHexDigit :: "char \<Rightarrow> bool" where
  "isHexDigit c = (c \<in> set ''0123456789abcdefABCDEF'')"

definition hexDigitValue :: "char \<Rightarrow> nat" where
  "hexDigitValue c =
     (let n = (of_char c :: nat)
      in if 48 \<le> n \<and> n \<le> 57 then n - 48
         else if 97 \<le> n \<and> n \<le> 102 then n - 87
         else n - 55)"

text \<open>
  \<^verbatim>\<open>name.match(/#([0-9a-fA-F]{6}|[0-9a-fA-F]{3})/)\<close>: the leftmost position where the
  pattern matches, six digits tried before three; the result is \<^verbatim>\<open>m[0]\<close>.
\<close>

fun matchHexToken :: "string \<Rightarrow> string option" where
  "matchHexToken [] = None"
| "matchHexToken (c # cs) =
     (if c = CHR ''#'' \<and> 6 \<le> length cs \<and> list_all isHexDigit (take 6 cs) then Some (c # take 6 cs)
      else if c = CHR ''#'' \<and> 3 \<le> length cs \<and> list_all isHexDigit (take 3 cs) then Some (c # take 3 cs)
      else matchHexToken cs)"

text \<open>\<^verbatim>\<open>hex.replace('#', '')\<close> removes the first \<open>#\<close>.\<close>

fun removeFirstHash :: "string \<Rightarrow> string" where
  "removeFirstHash [] = []"
| "removeFirstHash (c # cs) = (if c = CHR ''#'' then cs else c # removeFirstHash cs)"

text \<open>
  \<^verbatim>\<open>parseInt(s, 16)\<close>: leading white space (the ASCII part of it), a sign, a prefix
  \<^verbatim>\<open>0x\<close>, then the longest run of hexadecimal digits; \<^verbatim>\<open>NaN\<close> (\<open>None\<close>) when the
  run is empty.
\<close>

definition isWhiteSpace :: "char \<Rightarrow> bool" where
  "isWhiteSpace c = ((of_char c :: nat) \<in> {9, 10, 11, 12, 13, 32})"

definition parseInt16 :: "string \<Rightarrow> int option" where
  "parseInt16 s =
     (let s1 = dropWhile isWhiteSpace s;
          sgn = (if take 1 s1 = ''-'' then - 1 else 1);
          s2 = (if take 1 s1 = ''-'' \<or> take 1 s1 = ''+'' then drop 1 s1 else s1);
          s3 = (if take 2 s2 = ''0x'' \<or> take 2 s2 = ''0X'' then drop 2 s2 else s2);
          ds = takeWhile isHexDigit s3
      in if ds = [] then None
         else Some (sgn * int (foldl (\<lambda>a c. 16 * a + hexDigitValue c) 0 ds)))"

definition hexToRgbNormalized :: "string \<Rightarrow> (real \<times> real \<times> real) option" where
  "hexToRgbNormalized hex =
     (let h = removeFirstHash hex;
          h6 = (if length h = 3 then Some (concat (map (\<lambda>c. [c, c]) h))
                else if length h \<noteq> 6 then None else Some h)
      in case h6 of
           None \<Rightarrow> None
         | Some hh \<Rightarrow>
             (case (parseInt16 (take 2 hh), parseInt16 (take 2 (drop 2 hh)), parseInt16 (take 2 (drop 4 hh))) of
                (Some r, Some g, Some b) \<Rightarrow> Some (real_of_int r / 255, real_of_int g / 255, real_of_int b / 255)
              | _ \<Rightarrow> None))"

text \<open>\<^verbatim>\<open>toLowerCase\<close> on the ASCII letters; a token holds no other letters.\<close>

definition toLowerCase :: "string \<Rightarrow> string" where
  "toLowerCase s =
     map (\<lambda>c. if 65 \<le> (of_char c :: nat) \<and> (of_char c :: nat) \<le> 90 then char_of ((of_char c :: nat) + 32) else c) s"

section \<open>MeshBrush\<close>

type_synonym rgba = "real \<times> real \<times> real \<times> real"

text \<open>
  The three continuity maps are keyed by the object id, a number. The triangle stored
  for an object is what \<^verbatim>\<open>_getTriangleVertexIndices\<close> returned: three reads of the
  paintable's index array, each \<^verbatim>\<open>undefined\<close> (\<open>None\<close>) when outside it.
\<close>

type_synonym triVerts = "int option \<times> int option \<times> int option"

record brush =
  brushRadiusPx :: real
  brushColor :: rgba
  paintOnProximity :: bool
  brushWorldRadius :: real
  maxDistance :: real
  lastUVPerObject :: "int \<rightharpoonup> vec2"
  lastTriPerObject :: "int \<rightharpoonup> triVerts"
  contactLostPerObject :: "int \<rightharpoonup> bool"

text \<open>
  What the host hands to one \<^verbatim>\<open>update\<close>: the brush tip's position and forward
  direction and the result of the physics ray cast. Of the hit list the source uses the
  first location and the first object only. An object has a name (or none), an
  \<^verbatim>\<open>objectId\<close> (\<open>None\<close> when it is not a number), possibly a
  \<^verbatim>\<open>MeshPaintable\<close> component, and its world-to-local transform.
\<close>

record hitObject =
  name :: "string option"
  objectId :: "int option"
  meshPaintable :: "paintable option"
  transformPointInverseWorld :: "vec3 \<Rightarrow> vec3"

record rayHit =
  hitCount :: nat
  hitLocation :: vec3
  hitObj :: "hitObject option"

record frame =
  worldOrigin :: vec3
  worldDir :: vec3
  rayCast :: "rayHit option"

text \<open>
  What one \<^verbatim>\<open>update\<close> does to the outside: the calls of \<^verbatim>\<open>paintAtUV\<close>, each a
  dab with its coordinate, radius and colour, and the call of the hook, with the brush
  colour at the time of the call. (\<^verbatim>\<open>paintAtUV\<close> draws when the paintable's canvas was
  created, which is the case whenever its caches exist.)
\<close>

datatype effect = PaintAtUV real real real rgba | OnPickedColor string rgba

definition tryPickColorFromName :: "brush \<Rightarrow> string option \<Rightarrow> string option \<times> brush" where
  "tryPickColorFromName b nm =
     (case nm of
        None \<Rightarrow> (None, b)
      | Some n \<Rightarrow>
          if n = [] then (None, b)
          else (case matchHexToken n of
                  None \<Rightarrow> (None, b)
                | Some hex \<Rightarrow>
                    (case hexToRgbNormalized hex of
                       None \<Rightarrow> (None, b)
                     | Some (r, g, bl) \<Rightarrow> (Some (toLowerCase hex), b\<lparr>brushColor := (r, g, bl, 1)\<rparr>))))"

text \<open>
  \<^verbatim>\<open>_stableObjectId\<close>: the object id when it is a number, else a 32-bit hash of the
  name: \<^verbatim>\<open>h = (h << 5) - h + code; h |= 0\<close>, then \<^verbatim>\<open>Math.abs(h) || 1\<close>.
\<close>

definition nameHash :: "string \<Rightarrow> 32 word" where
  "nameHash s = foldl (\<lambda>h c. push_bit 5 h - h + of_nat (of_char c)) 0 s"

definition stableObjectId :: "hitObject \<Rightarrow> int" where
  "stableObjectId obj =
     (case objectId obj of
        Some i \<Rightarrow> i
      | None \<Rightarrow>
          let nm = (case name obj of None \<Rightarrow> ''anonymous_obj'' | Some n \<Rightarrow> n);
              h = sint (nameHash nm)
          in if \<bar>h\<bar> = 0 then 1 else \<bar>h\<bar>)"

text \<open>\<^verbatim>\<open>for (const key of this._lastUVPerObject.keys()) this._contactLostPerObject.set(key, true)\<close>\<close>

definition markAllLost :: "brush \<Rightarrow> brush" where
  "markAllLost b =
     b\<lparr>contactLostPerObject :=
          (\<lambda>k. if lastUVPerObject b k \<noteq> None then Some True else contactLostPerObject b k)\<rparr>"

text \<open>\<^verbatim>\<open>const id = hitObj.objectId ?? null; if (id !== null) this._contactLostPerObject.set(id, true)\<close>\<close>

definition markLost :: "int option \<Rightarrow> brush \<Rightarrow> brush" where
  "markLost maybeId b =
     (case maybeId of
        None \<Rightarrow> b
      | Some i \<Rightarrow> b\<lparr>contactLostPerObject := (contactLostPerObject b)(i \<mapsto> True)\<rparr>)"

definition clearContinuity :: "int \<Rightarrow> brush \<Rightarrow> brush" where
  "clearContinuity i b =
     b\<lparr>lastUVPerObject := (lastUVPerObject b)(i := None),
       lastTriPerObject := (lastTriPerObject b)(i := None),
       contactLostPerObject := (contactLostPerObject b)(i \<mapsto> True)\<rparr>"

definition getTriangleVertexIndices :: "paintable \<Rightarrow> nat \<Rightarrow> triVerts option" where
  "getTriangleVertexIndices p ti =
     (case triIndices p of
        None \<Rightarrow> None
      | Some tris \<Rightarrow>
          let base = ti * 3
          in Some (readAt tris (int (base + 0)), readAt tris (int (base + 1)), readAt tris (int (base + 2))))"

definition hypot2 :: "real \<Rightarrow> real \<Rightarrow> real" where
  "hypot2 a b = sqrt (a * a + b * b)"

definition hypot3 :: "real \<Rightarrow> real \<Rightarrow> real \<Rightarrow> real" where
  "hypot3 a b c = sqrt (a * a + b * b + c * c)"

text \<open>The adjacency test: one of the nine comparisons with \<^verbatim>\<open>===\<close> holds.\<close>

definition sharesVertex :: "triVerts \<Rightarrow> triVerts \<Rightarrow> bool" where
  "sharesVertex cur las =
     (case (cur, las) of ((c0, c1, c2), (l0, l1, l2)) \<Rightarrow>
        c0 = l0 \<or> c0 = l1 \<or> c0 = l2 \<or> c1 = l0 \<or> c1 = l1 \<or> c1 = l2 \<or> c2 = l0 \<or> c2 = l1 \<or> c2 = l2)"

definition strokeSteps :: "brush \<Rightarrow> paintable \<Rightarrow> vec2 \<Rightarrow> vec2 \<Rightarrow> int" where
  "strokeSteps b p lastUV uvNow =
     (let dxuv = fst uvNow * real (canvasWidth p) - fst lastUV * real (canvasWidth p);
          dyuv = snd uvNow * real (canvasHeight p) - snd lastUV * real (canvasHeight p);
          distuv = hypot2 dxuv dyuv;
          stepSize = max 1 (real_of_int \<lfloor>brushRadiusPx b * (1 / 2)\<rfloor>)
      in max 1 \<lceil>distuv / stepSize\<rceil>)"

text \<open>The loop \<^verbatim>\<open>for (let s = 0; s <= steps; s++)\<close> and its dabs.\<close>

definition interpolatedDabs :: "brush \<Rightarrow> int \<Rightarrow> vec2 \<Rightarrow> vec2 \<Rightarrow> effect list" where
  "interpolatedDabs b steps lastUV uvNow =
     map (\<lambda>s. let t = (if steps = 0 then 0 else real s / real_of_int steps);
                   iu = fst lastUV * (1 - t) + fst uvNow * t;
                   iv = snd lastUV * (1 - t) + snd uvNow * t
               in PaintAtUV iu iv (brushRadiusPx b) (brushColor b))
       [0 ..< nat (steps + 1)]"

text \<open>The part of \<^verbatim>\<open>update\<close> after the proximity test has passed.\<close>

definition paintStroke :: "brush \<Rightarrow> paintable \<Rightarrow> int \<Rightarrow> uvResult \<Rightarrow> brush \<times> effect list" where
  "paintStroke b0 p objId res =
     (let b = (if contactLostPerObject b0 objId = Some True
               then b0\<lparr>lastUVPerObject := (lastUVPerObject b0)(objId := None),
                       lastTriPerObject := (lastTriPerObject b0)(objId := None),
                       contactLostPerObject := (contactLostPerObject b0)(objId \<mapsto> False)\<rparr>
               else b0);
          lastUV = lastUVPerObject b objId;
          lastTri = lastTriPerObject b objId;
          doInterpolate =
            (case (lastUV, lastTri) of
               (Some lu, Some lt) \<Rightarrow>
                 (case getTriangleVertexIndices p (triIndex res) of
                    None \<Rightarrow> False
                  | Some cur \<Rightarrow> sharesVertex cur lt)
             | _ \<Rightarrow> False);
          dabs =
            (case lastUV of
               Some lu \<Rightarrow>
                 if doInterpolate then interpolatedDabs b (strokeSteps b p lu (uv res)) lu (uv res)
                 else [PaintAtUV (fst (uv res)) (snd (uv res)) (brushRadiusPx b) (brushColor b)]
             | None \<Rightarrow> [PaintAtUV (fst (uv res)) (snd (uv res)) (brushRadiusPx b) (brushColor b)]);
          b1 = b\<lparr>lastUVPerObject := (lastUVPerObject b)(objId \<mapsto> uv res)\<rparr>;
          b2 = (case getTriangleVertexIndices p (triIndex res) of
                  None \<Rightarrow> b1
                | Some cur \<Rightarrow> b1\<lparr>lastTriPerObject := (lastTriPerObject b1)(objId \<mapsto> cur)\<rparr>)
      in (b2\<lparr>contactLostPerObject := (contactLostPerObject b2)(objId \<mapsto> False)\<rparr>, dabs))"

text \<open>The ray in the hit object's local frame, as \<^verbatim>\<open>update\<close> computes it.\<close>

definition localRay :: "brush \<Rightarrow> frame \<Rightarrow> hitObject \<Rightarrow> vec3 \<times> vec3" where
  "localRay b f obj =
     (case (worldOrigin f, worldDir f) of ((wox, woy, woz), (wdx, wdy, wdz)) \<Rightarrow>
        let worldEnd = (wox + wdx * maxDistance b, woy + wdy * maxDistance b, woz + wdz * maxDistance b);
            localOrigin = transformPointInverseWorld obj (worldOrigin f);
            localEnd = transformPointInverseWorld obj worldEnd
        in case (localOrigin, localEnd) of ((lox, loy, loz), (enx, eny, enz)) \<Rightarrow>
             let ddx = enx - lox; ddy = eny - loy; ddz = enz - loz;
                 len = (if hypot3 ddx ddy ddz = 0 then 1 else hypot3 ddx ddy ddz)
             in (localOrigin, (ddx / len, ddy / len, ddz / len)))"

definition worldDist :: "frame \<Rightarrow> rayHit \<Rightarrow> real" where
  "worldDist f rh =
     (case (worldOrigin f, hitLocation rh) of ((wox, woy, woz), (hx, hy, hz)) \<Rightarrow>
        hypot3 (wox - hx) (woy - hy) (woz - hz))"

definition update :: "brush \<Rightarrow> frame \<Rightarrow> brush \<times> effect list" where
  "update b f =
     (case rayCast f of
        None \<Rightarrow> (markAllLost b, [])
      | Some rh \<Rightarrow>
          if hitCount rh = 0 then (markAllLost b, [])
          else
            (case hitObj rh of
               None \<Rightarrow> (markAllLost b, [])
             | Some obj \<Rightarrow>
                 (case tryPickColorFromName b (name obj) of
                    (Some picked, b1) \<Rightarrow>
                      (clearContinuity (stableObjectId obj) b1, [OnPickedColor picked (brushColor b1)])
                  | (None, b1) \<Rightarrow>
                      (case meshPaintable obj of
                         None \<Rightarrow> (markLost (objectId obj) b1, [])
                       | Some p \<Rightarrow>
                           (case getUVFromLocalRay p (fst (localRay b1 f obj)) (snd (localRay b1 f obj))
                                   (Fin (maxDistance b1)) of
                              None \<Rightarrow> (markLost (objectId obj) b1, [])
                            | Some uvRes \<Rightarrow>
                                let withinRange =
                                      (if \<not> paintOnProximity b1 then False
                                       else worldDist f rh \<le> brushWorldRadius b1)
                                in if \<not> withinRange then (clearContinuity (stableObjectId obj) b1, [])
                                   else paintStroke b1 p (stableObjectId obj) uvRes)))))"

text \<open>The dabs among the effects of a frame.\<close>

fun isDab :: "effect \<Rightarrow> bool" where
  "isDab (PaintAtUV u v r c) = True"
| "isDab (OnPickedColor hex c) = False"

definition dabsOf :: "effect list \<Rightarrow> effect list" where
  "dabsOf es = filter isDab es"

section \<open>The words of the specification about the brush\<close>

text \<open>
  The colour token that starts at the head of a string: \<open>#\<close> and six hexadecimal
  digits, or else \<open>#\<close> and three.
\<close>

definition tokenAt :: "string \<Rightarrow> string option" where
  "tokenAt s =
     (case s of
        [] \<Rightarrow> None
      | c # cs \<Rightarrow>
          if c = CHR ''#'' \<and> 6 \<le> length cs \<and> list_all isHexDigit (take 6 cs) then Some (c # take 6 cs)
          else if c = CHR ''#'' \<and> 3 \<le> length cs \<and> list_all isHexDigit (take 3 cs) then Some (c # take 3 cs)
          else None)"

definition hasHexToken :: "string option \<Rightarrow> bool" where
  "hasHexToken nm = (case nm of None \<Rightarrow> False | Some n \<Rightarrow> matchHexToken n \<noteq> None)"

text \<open>The digits of a token with a three-digit token doubled, and the triple they stand for.\<close>

definition expandHex :: "string \<Rightarrow> string" where
  "expandHex ds = (if length ds = 3 then concat (map (\<lambda>c. [c, c]) ds) else ds)"

definition hexPair :: "string \<Rightarrow> nat \<Rightarrow> real" where
  "hexPair ds i = real (16 * hexDigitValue (ds ! i) + hexDigitValue (ds ! (i + 1))) / 255"

definition hexTokenRgb :: "string \<Rightarrow> real \<times> real \<times> real" where
  "hexTokenRgb tok =
     (let ds = expandHex (tl tok) in (hexPair ds 0, hexPair ds 2, hexPair ds 4))"

text \<open>
  A frame with a hit on a paintable surface: the ray cast reports a hit on an object
  that has a paintable, and the paintable resolves the local ray to a hit.
\<close>

definition paintableHit :: "brush \<Rightarrow> frame \<Rightarrow> rayHit \<Rightarrow> hitObject \<Rightarrow> paintable \<Rightarrow> uvResult \<Rightarrow> bool" where
  "paintableHit b f rh obj p res =
     (rayCast f = Some rh \<and> hitCount rh \<noteq> 0 \<and> hitObj rh = Some obj \<and> meshPaintable obj = Some p \<and>
      getUVFromLocalRay p (fst (localRay b f obj)) (snd (localRay b f obj)) (Fin (maxDistance b)) = Some res)"

text \<open>A frame with no ray hit: no result, a result with no hit, or a hit list with no object.\<close>

definition noRayHit :: "frame \<Rightarrow> bool" where
  "noRayHit f =
     (case rayCast f of None \<Rightarrow> True | Some rh \<Rightarrow> hitCount rh = 0 \<or> hitObj rh = None)"

definition withinProximity :: "brush \<Rightarrow> frame \<Rightarrow> rayHit \<Rightarrow> bool" where
  "withinProximity b f rh = (paintOnProximity b \<and> worldDist f rh \<le> brushWorldRadius b)"

text \<open>The identities the brush tracks: the keys of the map of last texture coordinates.\<close>

definition tracked :: "brush \<Rightarrow> int set" where
  "tracked b = dom (lastUVPerObject b)"

text \<open>The dab of step \<open>s\<close> out of \<open>steps\<close> on the straight line from \<open>lastUV\<close> to \<open>uvNow\<close>.\<close>

definition lerpDab :: "brush \<Rightarrow> vec2 \<Rightarrow> vec2 \<Rightarrow> int \<Rightarrow> nat \<Rightarrow> effect" where
  "lerpDab b lastUV uvNow steps s =
     PaintAtUV (fst lastUV + (fst uvNow - fst lastUV) * (real s / real_of_int steps))
               (snd lastUV + (snd uvNow - snd lastUV) * (real s / real_of_int steps))
               (brushRadiusPx b) (brushColor b)"

text \<open>The distance in pixels between two texture coordinates on a raster.\<close>

definition pixelDistance :: "paintable \<Rightarrow> vec2 \<Rightarrow> vec2 \<Rightarrow> real" where
  "pixelDistance p a c =
     sqrt (((fst c - fst a) * real (canvasWidth p))\<^sup>2 + ((snd c - snd a) * real (canvasHeight p))\<^sup>2)"

section \<open>Fixtures for the brush\<close>

text \<open>
  A brush with the default properties, except a radius of two pixels; an object at the
  origin of the world, not rotated, that carries the unit quad with a raster of sixteen
  by sixteen; and the frame in which the brush tip is at \<open>tip\<close> and looks down on the
  point \<open>spot\<close> of the object.
\<close>

definition newBrush :: brush where
  "newBrush =
     \<lparr>brushRadiusPx = 2, brushColor = (0, 0, 0, 1), paintOnProximity = True,
      brushWorldRadius = 1 / 20, maxDistance = 10,
      lastUVPerObject = Map.empty, lastTriPerObject = Map.empty, contactLostPerObject = Map.empty\<rparr>"

definition quadObject :: "string \<Rightarrow> hitObject" where
  "quadObject nm =
     \<lparr>name = Some nm, objectId = Some 7,
      meshPaintable = Some (buildMeshCaches quadMesh (newPaintable True 16 16)),
      transformPointInverseWorld = (\<lambda>v. v)\<rparr>"

definition plainObject :: "string \<Rightarrow> hitObject" where
  "plainObject nm =
     \<lparr>name = Some nm, objectId = Some 9, meshPaintable = None,
      transformPointInverseWorld = (\<lambda>v. v)\<rparr>"

definition hitOn :: "hitObject \<Rightarrow> vec3 \<Rightarrow> rayHit" where
  "hitOn obj spot = \<lparr>hitCount = 1, hitLocation = spot, hitObj = Some obj\<rparr>"

definition frameOn :: "hitObject \<Rightarrow> vec3 \<Rightarrow> vec3 \<Rightarrow> frame" where
  "frameOn obj tip spot =
     \<lparr>worldOrigin = tip, worldDir = (0, - 1, 0), rayCast = Some (hitOn obj spot)\<rparr>"

definition emptyFrame :: frame where
  "emptyFrame = \<lparr>worldOrigin = (0, 0, 0), worldDir = (0, - 1, 0), rayCast = None\<rparr>"

text \<open>The brush in the middle of a stroke on object 7, last seen on triangle \<open>tri\<close> at \<open>(1/2, 1/2)\<close>.\<close>

definition midStroke :: "triVerts \<Rightarrow> brush" where
  "midStroke tri =
     newBrush\<lparr>lastUVPerObject := [7 \<mapsto> (1 / 2, 1 / 2)], lastTriPerObject := [7 \<mapsto> tri],
              contactLostPerObject := [7 \<mapsto> False]\<rparr>"

section \<open>Lemmas: arrays and loops\<close>

lemma length_flatten3: "length (flatten3 ps) = 3 * length ps"
  by (induction ps) (auto simp: flatten3_def)

lemma length_flatten2: "length (flatten2 ps) = 2 * length ps"
  by (induction ps) (auto simp: flatten2_def)

lemma flatten3_Cons: "flatten3 ((x, y, z) # ps) = x # y # z # flatten3 ps"
  by (simp add: flatten3_def)

lemma flatten2_Cons: "flatten2 ((x, y) # ps) = x # y # flatten2 ps"
  by (simp add: flatten2_def)

lemma flatten3_nth:
  "i < length ps \<Longrightarrow>
     flatten3 ps ! (i * 3) = fst (ps ! i) \<and>
     flatten3 ps ! (i * 3 + 1) = fst (snd (ps ! i)) \<and>
     flatten3 ps ! (i * 3 + 2) = snd (snd (ps ! i))"
proof (induction ps arbitrary: i)
  case Nil
  then show ?case by simp
next
  case (Cons p ps)
  obtain x y z where p: "p = (x, y, z)" by (cases p) auto
  show ?case
  proof (cases i)
    case 0
    then show ?thesis by (simp add: p flatten3_Cons)
  next
    case (Suc j)
    with Cons.prems have "j < length ps" by simp
    from Cons.IH [OF this] show ?thesis
      by (simp add: p flatten3_Cons Suc)
  qed
qed

lemma flatten2_nth:
  "i < length ps \<Longrightarrow>
     flatten2 ps ! (i * 2) = fst (ps ! i) \<and> flatten2 ps ! (i * 2 + 1) = snd (ps ! i)"
proof (induction ps arbitrary: i)
  case Nil
  then show ?case by simp
next
  case (Cons p ps)
  obtain x y where p: "p = (x, y)" by (cases p) auto
  show ?case
  proof (cases i)
    case 0
    then show ?thesis by (simp add: p flatten2_Cons)
  next
    case (Suc j)
    with Cons.prems have "j < length ps" by simp
    from Cons.IH [OF this] show ?thesis
      by (simp add: p flatten2_Cons Suc)
  qed
qed

lemma vertexOf_flatten3_in:
  assumes "0 \<le> i" and "i < int (length ps)"
  shows "vertexOf (flatten3 ps) (Some i) =
           (Fin (fst (ps ! nat i)), Fin (fst (snd (ps ! nat i))), Fin (snd (snd (ps ! nat i))))"
proof -
  have n: "nat i < length ps" using assms by linarith
  have a: "nat (i * 3) = nat i * 3" "nat (i * 3 + 1) = nat i * 3 + 1" "nat (i * 3 + 2) = nat i * 3 + 2"
    using assms(1) by (simp_all add: nat_mult_distrib nat_add_distrib)
  show ?thesis
    using assms flatten3_nth [OF n]
    by (simp add: vertexOf_def positionOf_def readNum_def readAt_def length_flatten3 a)
qed

lemma vertexOf_flatten3_out:
  assumes "\<not> (0 \<le> i \<and> i < int (length ps))"
  shows "vertexOf (flatten3 ps) (Some i) = (NaN, NaN, NaN)"
  using assms
  by (auto simp: vertexOf_def positionOf_def readNum_def readAt_def length_flatten3)

lemma finite3_vertexOf_flatten3:
  "finite3 (vertexOf (flatten3 ps) vi) =
     (case vi of None \<Rightarrow> None
      | Some i \<Rightarrow> if 0 \<le> i \<and> i < int (length ps) then Some (ps ! nat i) else None)"
proof (cases vi)
  case None
  then show ?thesis by (simp add: vertexOf_def positionOf_def)
next
  case (Some i)
  show ?thesis
  proof (cases "0 \<le> i \<and> i < int (length ps)")
    case True
    then show ?thesis using vertexOf_flatten3_in [of i ps] Some by simp
  next
    case False
    then show ?thesis using vertexOf_flatten3_out [of i ps] Some by simp
  qed
qed

lemma finite3_Some_iff:
  "finite3 q = Some (x, y, z) \<longleftrightarrow> q = (Fin x, Fin y, Fin z)"
  by (cases q rule: finite3.cases) auto

lemma loopRange_iff: "t \<in> set (loopRange c) \<longleftrightarrow> real t < c"
proof -
  have "t < nat \<lceil>c\<rceil> \<longleftrightarrow> int t < \<lceil>c\<rceil>" by linarith
  also have "\<dots> \<longleftrightarrow> real t < c" by (simp add: less_ceiling_iff)
  finally show ?thesis by (simp add: loopRange_def)
qed

section \<open>Lemmas: the intersection test\<close>

lemma mt_unfold:
  "rayTriangleIntersectMollerTrumbore orig dir p0 p1 p2 =
     (if mtDet dir p0 p1 p2 > - EPS \<and> mtDet dir p0 p1 p2 < EPS then None
      else if mtU orig dir p0 p1 p2 < 0 \<or> mtU orig dir p0 p1 p2 > 1 then None
      else if mtV orig dir p0 p1 p2 < 0 \<or> mtU orig dir p0 p1 p2 + mtV orig dir p0 p1 p2 > 1 then None
      else if mtT orig dir p0 p1 p2 \<le> EPS then None
      else Some (mtT orig dir p0 p1 p2, mtU orig dir p0 p1 p2, mtV orig dir p0 p1 p2))"
proof -
  obtain ox oy oz where o: "orig = (ox, oy, oz)" by (cases orig) auto
  obtain dx dy dz where d: "dir = (dx, dy, dz)" by (cases dir) auto
  obtain ax ay az where a: "p0 = (ax, ay, az)" by (cases p0) auto
  obtain bx "by" bz where b: "p1 = (bx, by, bz)" by (cases p1) auto
  obtain cx cy cz where c: "p2 = (cx, cy, cz)" by (cases p2) auto
  show ?thesis
    unfolding o d a b c rayTriangleIntersectMollerTrumbore_def mtDet_def mtU_def mtV_def mtT_def
      Let_def prod.case
    by (rule refl)
qed

lemma mt_Some_iff:
  "rayTriangleIntersectMollerTrumbore orig dir p0 p1 p2 = Some (t, u, v) \<longleftrightarrow>
     \<bar>mtDet dir p0 p1 p2\<bar> \<ge> EPS \<and> u = mtU orig dir p0 p1 p2 \<and> v = mtV orig dir p0 p1 p2 \<and>
     t = mtT orig dir p0 p1 p2 \<and> 0 \<le> u \<and> u \<le> 1 \<and> 0 \<le> v \<and> u + v \<le> 1 \<and> t > EPS"
proof -
  have e: "0 < EPS" by (simp add: EPS_def)
  show ?thesis
    unfolding mt_unfold using e by (auto simp: abs_le_iff not_less not_le)
qed

text \<open>The exact test followed by the two bounds on \<open>t\<close> is the specification's test.\<close>

lemma mt_valid_iff:
  "(\<exists>ht hu hv. rayTriangleIntersectMollerTrumbore orig dir p0 p1 p2 = Some (ht, hu, hv) \<and>
       ht > 1 / 10 ^ 6 \<and> numLessEq (Fin ht) md) \<longleftrightarrow> validIntersection orig dir md p0 p1 p2"
proof -
  have e: "EPS < 1 / 10 ^ 6" by (simp add: EPS_def)
  show ?thesis
    unfolding mt_Some_iff validIntersection_def using e by (auto simp: EPS_def)
qed

lemma frac_comb:
  fixes D :: real
  assumes "D \<noteq> 0" and "D * p + dd * NT = (D - NU - NV) * a + NU * b + NV * c"
  shows "p + dd * (NT * (1 / D)) = (1 - NU * (1 / D) - NV * (1 / D)) * a + NU * (1 / D) * b + NV * (1 / D) * c"
proof -
  have "D * (p + dd * (NT * (1 / D))) = D * p + dd * NT"
    using assms(1) by (simp add: algebra_simps)
  also have "\<dots> = (D - NU - NV) * a + NU * b + NV * c" by (rule assms(2))
  also have "\<dots> = D * ((1 - NU * (1 / D) - NV * (1 / D)) * a + NU * (1 / D) * b + NV * (1 / D) * c)"
    using assms(1) by (simp add: algebra_simps)
  finally show ?thesis using assms(1) by simp
qed

text \<open>With a determinant other than zero, the point on the ray at \<open>t\<close> is the point of the
  triangle's plane with barycentric coordinates \<open>(1 - u - v, u, v)\<close>.\<close>

lemma mt_point:
  fixes ox oy oz dx dy dz ax ay az bx "by" bz cx cy cz :: real
  defines "u \<equiv> mtU (ox, oy, oz) (dx, dy, dz) (ax, ay, az) (bx, by, bz) (cx, cy, cz)"
      and "v \<equiv> mtV (ox, oy, oz) (dx, dy, dz) (ax, ay, az) (bx, by, bz) (cx, cy, cz)"
      and "t \<equiv> mtT (ox, oy, oz) (dx, dy, dz) (ax, ay, az) (bx, by, bz) (cx, cy, cz)"
  assumes "mtDet (dx, dy, dz) (ax, ay, az) (bx, by, bz) (cx, cy, cz) \<noteq> 0"
  shows "ox + dx * t = (1 - u - v) * ax + u * bx + v * cx"
    and "oy + dy * t = (1 - u - v) * ay + u * by + v * cy"
    and "oz + dz * t = (1 - u - v) * az + u * bz + v * cz"
proof -
  show "ox + dx * t = (1 - u - v) * ax + u * bx + v * cx"
    unfolding u_def v_def t_def mtU_def mtV_def mtT_def prod.case
    by (rule frac_comb [OF assms(4)]) (simp add: mtDet_def algebra_simps)
  show "oy + dy * t = (1 - u - v) * ay + u * by + v * cy"
    unfolding u_def v_def t_def mtU_def mtV_def mtT_def prod.case
    by (rule frac_comb [OF assms(4)]) (simp add: mtDet_def algebra_simps)
  show "oz + dz * t = (1 - u - v) * az + u * bz + v * cz"
    unfolding u_def v_def t_def mtU_def mtV_def mtT_def prod.case
    by (rule frac_comb [OF assms(4)]) (simp add: mtDet_def algebra_simps)
qed

lemma convex3_bounds:
  fixes a b c w0 w1 w2 :: real
  assumes "0 \<le> w0" "0 \<le> w1" "0 \<le> w2" "w0 + w1 + w2 = 1"
  shows "min (min a b) c \<le> w0 * a + w1 * b + w2 * c"
    and "w0 * a + w1 * b + w2 * c \<le> max (max a b) c"
proof -
  let ?m = "min (min a b) c" and ?M = "max (max a b) c"
  have "w0 * ?m \<le> w0 * a" "w1 * ?m \<le> w1 * b" "w2 * ?m \<le> w2 * c"
    using assms by (auto intro!: mult_left_mono)
  then have "(w0 + w1 + w2) * ?m \<le> w0 * a + w1 * b + w2 * c"
    by (simp add: algebra_simps)
  then show "?m \<le> w0 * a + w1 * b + w2 * c" using assms(4) by simp
  have "w0 * a \<le> w0 * ?M" "w1 * b \<le> w1 * ?M" "w2 * c \<le> w2 * ?M"
    using assms by (auto intro!: mult_left_mono)
  then have "w0 * a + w1 * b + w2 * c \<le> (w0 + w1 + w2) * ?M"
    by (simp add: algebra_simps)
  then show "w0 * a + w1 * b + w2 * c \<le> ?M" using assms(4) by simp
qed

lemma mathMin_Fin: "mathMin (mathMin (Fin a) (Fin b)) (Fin c) = Fin (min (min a b) c)"
  by (auto simp: min_def)

lemma mathMax_Fin: "mathMax (mathMax (Fin a) (Fin b)) (Fin c) = Fin (max (max a b) c)"
  by (auto simp: max_def)

lemma numLess_mono_left: "numLess (Fin M) r \<Longrightarrow> x \<le> M \<Longrightarrow> numLess (Fin x) r"
  by (cases r) auto

lemma numLess_mono_right: "numLess r (Fin m) \<Longrightarrow> m \<le> x \<Longrightarrow> numLess r (Fin x)"
  by (cases r) auto

lemma mathMin2_Fin: "mathMin (Fin a) (Fin b) = Fin (min a b)"
  by (auto simp: min_def)

lemma mathMax2_Fin: "mathMax (Fin a) (Fin b) = Fin (max a b)"
  by (auto simp: max_def)

lemma between_scaled:
  fixes p dd ht m :: real
  assumes "0 \<le> ht" and "ht \<le> m"
  shows "min p (p + dd * m) \<le> p + dd * ht" and "p + dd * ht \<le> max p (p + dd * m)"
proof -
  show "min p (p + dd * m) \<le> p + dd * ht"
  proof (cases "0 \<le> dd")
    case True
    then have "0 \<le> dd * ht" using assms(1) by (rule mult_nonneg_nonneg)
    then have "p \<le> p + dd * ht" by linarith
    then show ?thesis by (rule min.coboundedI1)
  next
    case False
    then have "dd \<le> 0" by simp
    with assms(2) have "dd * m \<le> dd * ht" by (rule mult_left_mono_neg)
    then have "p + dd * m \<le> p + dd * ht" by linarith
    then show ?thesis by (rule min.coboundedI2)
  qed
  show "p + dd * ht \<le> max p (p + dd * m)"
  proof (cases "0 \<le> dd")
    case True
    with assms(2) have "dd * ht \<le> dd * m" by (rule mult_left_mono)
    then have "p + dd * ht \<le> p + dd * m" by linarith
    then show ?thesis by (rule max.coboundedI2)
  next
    case False
    then have "dd \<le> 0" by simp
    then have "dd * ht \<le> 0" using assms(1) by (rule mult_nonpos_nonneg)
    then have "p + dd * ht \<le> p" by linarith
    then show ?thesis by (rule max.coboundedI1)
  qed
qed

text \<open>A point of the ray between its origin and its end is inside the ray's box, on each axis.\<close>

lemma ray_axis_inside:
  assumes "0 \<le> ht" and "numLessEq (Fin ht) md"
  shows "\<not> numLess (Fin (p + dd * ht)) (mathMin (Fin p) (numPlus p (numTimes dd md)))"
    and "\<not> numLess (mathMax (Fin p) (numPlus p (numTimes dd md))) (Fin (p + dd * ht))"
proof -
  have pos: "0 < dd \<Longrightarrow> p \<le> p + dd * ht"
  proof -
    assume "0 < dd"
    then have "0 \<le> dd * ht" using assms(1) by simp
    then show ?thesis by linarith
  qed
  have neg: "dd < 0 \<Longrightarrow> p + dd * ht \<le> p"
  proof -
    assume "dd < 0"
    then have "dd \<le> 0" by simp
    then have "dd * ht \<le> 0" using assms(1) by (rule mult_nonpos_nonneg)
    then show ?thesis by linarith
  qed
  show "\<not> numLess (Fin (p + dd * ht)) (mathMin (Fin p) (numPlus p (numTimes dd md)))"
  proof (cases md)
    case (Fin m)
    then have le: "ht \<le> m" using assms(2) by simp
    have eq: "mathMin (Fin p) (numPlus p (numTimes dd md)) = Fin (min p (p + dd * m))"
      unfolding Fin numTimes.simps numPlus.simps by (rule mathMin2_Fin)
    show ?thesis unfolding eq numLess.simps not_less
      by (rule between_scaled(1) [OF assms(1) le])
  next
    case PInf
    consider "0 < dd" | "dd < 0" | "dd = 0" by linarith
    then show ?thesis
    proof cases
      case 1
      then show ?thesis using pos by (simp add: PInf not_less)
    next
      case 2
      then show ?thesis by (simp add: PInf)
    next
      case 3
      then show ?thesis by (simp add: PInf)
    qed
  qed (use assms(2) in auto)
  show "\<not> numLess (mathMax (Fin p) (numPlus p (numTimes dd md))) (Fin (p + dd * ht))"
  proof (cases md)
    case (Fin m)
    then have le: "ht \<le> m" using assms(2) by simp
    have eq: "mathMax (Fin p) (numPlus p (numTimes dd md)) = Fin (max p (p + dd * m))"
      unfolding Fin numTimes.simps numPlus.simps by (rule mathMax2_Fin)
    show ?thesis unfolding eq numLess.simps not_less
      by (rule between_scaled(2) [OF assms(1) le])
  next
    case PInf
    consider "0 < dd" | "dd < 0" | "dd = 0" by linarith
    then show ?thesis
    proof cases
      case 1
      then show ?thesis by (simp add: PInf)
    next
      case 2
      then show ?thesis using neg by (simp add: PInf not_less)
    next
      case 3
      then show ?thesis by (simp add: PInf)
    qed
  qed (use assms(2) in auto)
qed

section \<open>Lemmas: the bounding boxes\<close>

lemma boxStep_length:
  "length (fst (boxStep ps tris t acc)) = length (fst acc) \<and>
   length (snd (boxStep ps tris t acc)) = length (snd acc)"
  by (simp add: boxStep_def Let_def split: prod.splits)

lemma fold_boxStep_length:
  "length (fst (fold (boxStep ps tris) ts acc)) = length (fst acc) \<and>
   length (snd (fold (boxStep ps tris) ts acc)) = length (snd acc)"
  by (induction ts arbitrary: acc) (simp_all add: boxStep_length)

lemma boxStep_other:
  assumes "j div 3 \<noteq> t"
  shows "fst (boxStep ps tris t acc) ! j = fst acc ! j"
    and "snd (boxStep ps tris t acc) ! j = snd acc ! j"
proof -
  have "j \<noteq> t * 3 + 0" "j \<noteq> t * 3 + 1" "j \<noteq> t * 3 + 2"
    using assms by auto
  then show "fst (boxStep ps tris t acc) ! j = fst acc ! j"
    and "snd (boxStep ps tris t acc) ! j = snd acc ! j"
    by (simp_all add: boxStep_def Let_def split: prod.splits)
qed

text \<open>What round \<open>t\<close> writes at its three places of the two arrays.\<close>

lemma boxStep_own:
  assumes "t * 3 + 2 < length (fst acc)" and "t * 3 + 2 < length (snd acc)"
    and "vertexOf ps (readAt tris (int (t * 3 + 0))) = (x0, y0, z0)"
    and "vertexOf ps (readAt tris (int (t * 3 + 1))) = (x1, y1, z1)"
    and "vertexOf ps (readAt tris (int (t * 3 + 2))) = (x2, y2, z2)"
  shows "fst (boxStep ps tris t acc) ! (t * 3 + 0) = mathMin (mathMin x0 x1) x2 \<and>
         fst (boxStep ps tris t acc) ! (t * 3 + 1) = mathMin (mathMin y0 y1) y2 \<and>
         fst (boxStep ps tris t acc) ! (t * 3 + 2) = mathMin (mathMin z0 z1) z2 \<and>
         snd (boxStep ps tris t acc) ! (t * 3 + 0) = mathMax (mathMax x0 x1) x2 \<and>
         snd (boxStep ps tris t acc) ! (t * 3 + 1) = mathMax (mathMax y0 y1) y2 \<and>
         snd (boxStep ps tris t acc) ! (t * 3 + 2) = mathMax (mathMax z0 z1) z2"
  using assms by (simp add: boxStep_def Let_def)

lemma fold_boxStep_nth:
  assumes "t < n" and "t * 3 + 2 < length (fst acc)" and "t * 3 + 2 < length (snd acc)"
    and "vertexOf ps (readAt tris (int (t * 3 + 0))) = (x0, y0, z0)"
    and "vertexOf ps (readAt tris (int (t * 3 + 1))) = (x1, y1, z1)"
    and "vertexOf ps (readAt tris (int (t * 3 + 2))) = (x2, y2, z2)"
  shows "fst (fold (boxStep ps tris) [0 ..< n] acc) ! (t * 3 + 0) = mathMin (mathMin x0 x1) x2 \<and>
         fst (fold (boxStep ps tris) [0 ..< n] acc) ! (t * 3 + 1) = mathMin (mathMin y0 y1) y2 \<and>
         fst (fold (boxStep ps tris) [0 ..< n] acc) ! (t * 3 + 2) = mathMin (mathMin z0 z1) z2 \<and>
         snd (fold (boxStep ps tris) [0 ..< n] acc) ! (t * 3 + 0) = mathMax (mathMax x0 x1) x2 \<and>
         snd (fold (boxStep ps tris) [0 ..< n] acc) ! (t * 3 + 1) = mathMax (mathMax y0 y1) y2 \<and>
         snd (fold (boxStep ps tris) [0 ..< n] acc) ! (t * 3 + 2) = mathMax (mathMax z0 z1) z2"
  using assms(1)
proof (induction n)
  case 0
  then show ?case by simp
next
  case (Suc n)
  let ?F = "fold (boxStep ps tris) [0 ..< n] acc"
  have len: "t * 3 + 2 < length (fst ?F)" "t * 3 + 2 < length (snd ?F)"
    using assms(2,3) by (simp_all add: fold_boxStep_length)
  have unf: "fold (boxStep ps tris) [0 ..< Suc n] acc = boxStep ps tris n ?F"
    by simp
  show ?case
  proof (cases "t = n")
    case True
    from boxStep_own [OF len assms(4,5,6)] show ?thesis
      unfolding unf by (simp only: True)
  next
    case False
    then have "t < n" using Suc.prems by simp
    note ih = Suc.IH [OF this]
    have d: "(t * 3 + 0) div 3 \<noteq> n" "(t * 3 + 1) div 3 \<noteq> n" "(t * 3 + 2) div 3 \<noteq> n"
      using False by simp_all
    show ?thesis unfolding unf
      using ih boxStep_other(1) [OF d(1), of ps tris ?F] boxStep_other(1) [OF d(2), of ps tris ?F]
        boxStep_other(1) [OF d(3), of ps tris ?F]
        boxStep_other(2) [OF d(1), of ps tris ?F] boxStep_other(2) [OF d(2), of ps tris ?F]
        boxStep_other(2) [OF d(3), of ps tris ?F]
      by simp
  qed
qed

lemma axis_not_rejected:
  assumes "lo \<le> h" and "h \<le> hi" and "\<not> numLess (Fin h) rmin" and "\<not> numLess rmax (Fin h)"
  shows "\<not> numLess (Fin hi) rmin \<and> \<not> numLess rmax (Fin lo)"
  using assms numLess_mono_left [of hi rmin h] numLess_mono_right [of rmax lo h] by blast

lemma readNumArray_in:
  "j < length xs \<Longrightarrow> readNumArray xs (int j) = xs ! j"
  by (simp add: readNumArray_def readAt_def)

lemma finite3_vertexOf_readAt:
  assumes "finite3 (vertexOf ps (readAt tris (int j))) = Some q"
  shows "j < length tris"
proof (rule ccontr)
  assume "\<not> j < length tris"
  then have "readAt tris (int j) = None" by (simp add: readAt_def)
  then show False using assms by (simp add: vertexOf_def positionOf_def)
qed

text \<open>
  The pruning is sound: a triangle whose exact test succeeds at a parameter within the
  ray's reach is never rejected by the box test, when the boxes are those the cache
  builder computes.
\<close>

lemma prune_sound:
  assumes v0: "finite3 (vertexOf ps (readAt tris (int (t * 3 + 0)))) = Some (ax, ay, az)"
    and v1: "finite3 (vertexOf ps (readAt tris (int (t * 3 + 1)))) = Some (bx, by, bz)"
    and v2: "finite3 (vertexOf ps (readAt tris (int (t * 3 + 2)))) = Some (cx, cy, cz)"
    and hit: "rayTriangleIntersectMollerTrumbore (ox, oy, oz) (dx, dy, dz) (ax, ay, az) (bx, by, bz) (cx, cy, cz)
                = Some (ht, hu, hv)"
    and le: "numLessEq (Fin ht) md"
    and boxes: "(mins, maxs) = fold (boxStep ps tris) (loopRange (real (length tris) / 3))
                  (replicate (length tris) (Fin 0), replicate (length tris) (Fin 0))"
  shows "\<not> boxRejects mins maxs (rayBox (ox, oy, oz) (dx, dy, dz) md) t"
proof -
  let ?acc = "(replicate (length tris) (Fin 0), replicate (length tris) (Fin 0) :: jsnum list)"
  have j2: "t * 3 + 2 < length tris" by (rule finite3_vertexOf_readAt [OF v2])
  then have "real t < real (length tris) / 3" by simp
  then have tn: "t < nat \<lceil>real (length tris) / 3\<rceil>"
    using loopRange_iff [of t "real (length tris) / 3"] by (simp add: loopRange_def)
  have w0: "vertexOf ps (readAt tris (int (t * 3 + 0))) = (Fin ax, Fin ay, Fin az)"
    using v0 by (simp add: finite3_Some_iff)
  have w1: "vertexOf ps (readAt tris (int (t * 3 + 1))) = (Fin bx, Fin by, Fin bz)"
    using v1 by (simp add: finite3_Some_iff)
  have w2: "vertexOf ps (readAt tris (int (t * 3 + 2))) = (Fin cx, Fin cy, Fin cz)"
    using v2 by (simp add: finite3_Some_iff)
  have la: "t * 3 + 2 < length (fst ?acc)" "t * 3 + 2 < length (snd ?acc)"
    using j2 by simp_all
  have mm: "mins = fst (fold (boxStep ps tris) [0 ..< nat \<lceil>real (length tris) / 3\<rceil>] ?acc)"
       "maxs = snd (fold (boxStep ps tris) [0 ..< nat \<lceil>real (length tris) / 3\<rceil>] ?acc)"
    using boxes [symmetric] by (simp_all add: loopRange_def)
  note nth = fold_boxStep_nth [OF tn la w0 w1 w2, folded mm, unfolded mathMin_Fin mathMax_Fin]
  have lens: "length mins = length tris" "length maxs = length tris"
    unfolding mm using fold_boxStep_length [of ps tris _ ?acc] by simp_all
  have in0: "t * 3 + 0 < length mins" "t * 3 + 1 < length mins" "t * 3 + 2 < length mins"
    using j2 lens by simp_all
  have in1: "t * 3 + 0 < length maxs" "t * 3 + 1 < length maxs" "t * 3 + 2 < length maxs"
    using j2 lens by simp_all
  have rd: "readNumArray mins (int (t * 3 + 0)) = Fin (min (min ax bx) cx)"
           "readNumArray mins (int (t * 3 + 1)) = Fin (min (min ay by) cy)"
           "readNumArray mins (int (t * 3 + 2)) = Fin (min (min az bz) cz)"
           "readNumArray maxs (int (t * 3 + 0)) = Fin (max (max ax bx) cx)"
           "readNumArray maxs (int (t * 3 + 1)) = Fin (max (max ay by) cy)"
           "readNumArray maxs (int (t * 3 + 2)) = Fin (max (max az bz) cz)"
    unfolding readNumArray_in [OF in0(1)] readNumArray_in [OF in0(2)] readNumArray_in [OF in0(3)]
      readNumArray_in [OF in1(1)] readNumArray_in [OF in1(2)] readNumArray_in [OF in1(3)]
    using nth by blast+
  have e: "0 < EPS" by (simp add: EPS_def)
  from hit have h: "\<bar>mtDet (dx, dy, dz) (ax, ay, az) (bx, by, bz) (cx, cy, cz)\<bar> \<ge> EPS"
      "hu = mtU (ox, oy, oz) (dx, dy, dz) (ax, ay, az) (bx, by, bz) (cx, cy, cz)"
      "hv = mtV (ox, oy, oz) (dx, dy, dz) (ax, ay, az) (bx, by, bz) (cx, cy, cz)"
      "ht = mtT (ox, oy, oz) (dx, dy, dz) (ax, ay, az) (bx, by, bz) (cx, cy, cz)"
      "0 \<le> hu" "0 \<le> hv" "hu + hv \<le> 1" "ht > EPS"
    unfolding mt_Some_iff by simp_all
  have det: "mtDet (dx, dy, dz) (ax, ay, az) (bx, by, bz) (cx, cy, cz) \<noteq> 0"
    using h(1) e by auto
  have pt: "ox + dx * ht = (1 - hu - hv) * ax + hu * bx + hv * cx"
           "oy + dy * ht = (1 - hu - hv) * ay + hu * by + hv * cy"
           "oz + dz * ht = (1 - hu - hv) * az + hu * bz + hv * cz"
    unfolding h(2,3,4) by (rule mt_point [OF det])+
  have w: "0 \<le> 1 - hu - hv" "(1 - hu - hv) + hu + hv = 1" using h(7) by simp_all
  have bx_: "min (min ax bx) cx \<le> ox + dx * ht" "ox + dx * ht \<le> max (max ax bx) cx"
    unfolding pt by (rule convex3_bounds [OF w(1) h(5) h(6) w(2)])+
  have by_: "min (min ay by) cy \<le> oy + dy * ht" "oy + dy * ht \<le> max (max ay by) cy"
    unfolding pt by (rule convex3_bounds [OF w(1) h(5) h(6) w(2)])+
  have bz_: "min (min az bz) cz \<le> oz + dz * ht" "oz + dz * ht \<le> max (max az bz) cz"
    unfolding pt by (rule convex3_bounds [OF w(1) h(5) h(6) w(2)])+
  have t0: "0 \<le> ht" using h(8) e by simp
  note ax_x = axis_not_rejected [OF bx_ ray_axis_inside [OF t0 le, of ox dx]]
  note ax_y = axis_not_rejected [OF by_ ray_axis_inside [OF t0 le, of oy dy]]
  note ax_z = axis_not_rejected [OF bz_ ray_axis_inside [OF t0 le, of oz dz]]
  show ?thesis
    unfolding boxRejects_def rayBox_def Let_def prod.case rd
    using ax_x ax_y ax_z by blast
qed

section \<open>Lemmas: the scan\<close>

lemma exactStep_changes:
  assumes "exactStep ps tris (ox, oy, oz) (dx, dy, dz) md t st \<noteq> st"
  shows "\<exists>p0 p1 p2 ht hu hv.
           finite3 (vertexOf ps (readAt tris (int (t * 3 + 0)))) = Some p0 \<and>
           finite3 (vertexOf ps (readAt tris (int (t * 3 + 1)))) = Some p1 \<and>
           finite3 (vertexOf ps (readAt tris (int (t * 3 + 2)))) = Some p2 \<and>
           rayTriangleIntersectMollerTrumbore (ox, oy, oz) (dx, dy, dz) p0 p1 p2 = Some (ht, hu, hv) \<and>
           numLessEq (Fin ht) md"
  using assms
  by (auto simp: exactStep_def Let_def split: option.splits if_splits)

lemma scanStep_eq_exactStep:
  assumes boxes: "(mins, maxs) = fold (boxStep ps tris) (loopRange (real (length tris) / 3))
                  (replicate (length tris) (Fin 0), replicate (length tris) (Fin 0))"
  shows "scanStep ps tris mins maxs orig dir md t st = exactStep ps tris orig dir md t st"
proof (cases "boxRejects mins maxs (rayBox orig dir md) t")
  case False
  then show ?thesis by (simp add: scanStep_def)
next
  case True
  obtain ox oy oz where o: "orig = (ox, oy, oz)" by (cases orig) auto
  obtain dx dy dz where d: "dir = (dx, dy, dz)" by (cases dir) auto
  have "exactStep ps tris orig dir md t st = st"
  proof (rule ccontr)
    assume "exactStep ps tris orig dir md t st \<noteq> st"
    from exactStep_changes [OF this [unfolded o d]]
    obtain p0 p1 p2 ht hu hv where
      v: "finite3 (vertexOf ps (readAt tris (int (t * 3 + 0)))) = Some p0"
         "finite3 (vertexOf ps (readAt tris (int (t * 3 + 1)))) = Some p1"
         "finite3 (vertexOf ps (readAt tris (int (t * 3 + 2)))) = Some p2"
      and hit: "rayTriangleIntersectMollerTrumbore (ox, oy, oz) (dx, dy, dz) p0 p1 p2 = Some (ht, hu, hv)"
      and le: "numLessEq (Fin ht) md"
      by blast
    obtain ax ay az where a: "p0 = (ax, ay, az)" by (cases p0) auto
    obtain bx "by" bz where b: "p1 = (bx, by, bz)" by (cases p1) auto
    obtain cx cy cz where c: "p2 = (cx, cy, cz)" by (cases p2) auto
    from prune_sound [OF v(1) [unfolded a] v(2) [unfolded b] v(3) [unfolded c] hit [unfolded a b c] le boxes]
    show False using True by (simp add: o d)
  qed
  then show ?thesis using True by (simp add: scanStep_def)
qed

text \<open>One round of the exact scan, in the words of the specification.\<close>

lemma exactStep_validHit:
  assumes "positionsFlat g = Some ps" and "triIndices g = Some tris" and "real t < triCount g"
  shows "exactStep ps tris orig dir md t st =
           (if validHit g orig dir md t \<and> numLess (Fin (hitT g orig dir t)) (closestT st)
            then \<lparr>closestT = Fin (hitT g orig dir t), bestTri = Some t,
                  bestU = hitU g orig dir t, bestV = hitV g orig dir t,
                  bestLocalHit = Some (rayPoint orig dir (hitT g orig dir t))\<rparr>
            else st)"
proof -
  obtain ox oy oz where o: "orig = (ox, oy, oz)" by (cases orig) auto
  obtain dx dy dz where d: "dir = (dx, dy, dz)" by (cases dir) auto
  show ?thesis
  proof (cases "triangleOf g t")
    case None
    then have "exactStep ps tris orig dir md t st = st"
      using assms by (auto simp: triangleOf_def exactStep_def Let_def split: option.splits)
    then show ?thesis using None by (simp add: validHit_def)
  next
    case (Some tri)
    obtain p0 p1 p2 where tri: "tri = (p0, p1, p2)" by (cases tri) auto
    have v: "finite3 (vertexOf ps (readAt tris (int (t * 3 + 0)))) = Some p0"
         "finite3 (vertexOf ps (readAt tris (int (t * 3 + 1)))) = Some p1"
         "finite3 (vertexOf ps (readAt tris (int (t * 3 + 2)))) = Some p2"
      using Some assms unfolding tri triangleOf_def by (auto split: option.splits if_splits)
    have e: "EPS < 1 / 10 ^ 6" by (simp add: EPS_def)
    show ?thesis
    proof (cases "validIntersection orig dir md p0 p1 p2")
      case True
      then have "rayTriangleIntersectMollerTrumbore orig dir p0 p1 p2 =
                   Some (mtT orig dir p0 p1 p2, mtU orig dir p0 p1 p2, mtV orig dir p0 p1 p2)"
        unfolding mt_Some_iff validIntersection_def using e by (auto simp: EPS_def)
      then show ?thesis using True v Some
        unfolding tri validIntersection_def
        by (simp add: exactStep_def validHit_def hitT_def hitU_def hitV_def rayPoint_def o d validIntersection_def)
    next
      case False
      have "exactStep ps tris orig dir md t st = st"
      proof (cases "rayTriangleIntersectMollerTrumbore orig dir p0 p1 p2")
        case None
        then show ?thesis using v by (simp add: exactStep_def)
      next
        case (Some h)
        obtain ht hu hv where h: "h = (ht, hu, hv)" by (cases h) auto
        have "\<not> (ht > 1 / 10 ^ 6 \<and> numLessEq (Fin ht) md)"
          using False Some mt_valid_iff [of orig dir p0 p1 p2 md] unfolding h by blast
        then show ?thesis using v Some unfolding h by (auto simp: exactStep_def)
      qed
      then show ?thesis using False Some by (simp add: validHit_def tri)
    qed
  qed
qed

text \<open>
  The state of the exact scan after the first \<open>n\<close> triangles: nothing found and no valid
  triangle among them, or the best triangle is valid and no valid triangle among them is
  closer.
\<close>

lemma fold_exact_inv:
  assumes ps: "positionsFlat g = Some ps" and tris: "triIndices g = Some tris"
    and rng: "\<forall>t<n. real t < triCount g"
  shows "(bestTri (fold (exactStep ps tris orig dir md) [0 ..< n] scanInit) = None \<and>
          bestLocalHit (fold (exactStep ps tris orig dir md) [0 ..< n] scanInit) = None \<and>
          closestT (fold (exactStep ps tris orig dir md) [0 ..< n] scanInit) = PInf \<and>
          (\<forall>t<n. \<not> validHit g orig dir md t)) \<or>
         (\<exists>b<n. fold (exactStep ps tris orig dir md) [0 ..< n] scanInit =
                   \<lparr>closestT = Fin (hitT g orig dir b), bestTri = Some b,
                    bestU = hitU g orig dir b, bestV = hitV g orig dir b,
                    bestLocalHit = Some (rayPoint orig dir (hitT g orig dir b))\<rparr> \<and>
                 validHit g orig dir md b \<and>
                 (\<forall>t<n. validHit g orig dir md t \<longrightarrow> hitT g orig dir b \<le> hitT g orig dir t))"
  using rng
proof (induction n)
  case 0
  then show ?case by (simp add: scanInit_def)
next
  case (Suc n)
  let ?st = "fold (exactStep ps tris orig dir md) [0 ..< n] scanInit"
  have unf: "fold (exactStep ps tris orig dir md) [0 ..< Suc n] scanInit =
               exactStep ps tris orig dir md n ?st" by simp
  have n: "real n < triCount g" using Suc.prems by simp
  have "\<forall>t<n. real t < triCount g" using Suc.prems by simp
  note ih = Suc.IH [OF this]
  note step = exactStep_validHit [OF ps tris n, of orig dir md ?st]
  show ?case
  proof (cases "validHit g orig dir md n")
    case False
    then have same: "exactStep ps tris orig dir md n ?st = ?st" using step by simp
    from ih show ?thesis
    proof
      assume a: "bestTri ?st = None \<and> bestLocalHit ?st = None \<and> closestT ?st = PInf \<and>
                 (\<forall>t<n. \<not> validHit g orig dir md t)"
      then have "\<forall>t<Suc n. \<not> validHit g orig dir md t" using False by (simp add: less_Suc_eq)
      then show ?thesis unfolding unf same using a by blast
    next
      assume "\<exists>b<n. ?st = \<lparr>closestT = Fin (hitT g orig dir b), bestTri = Some b,
                    bestU = hitU g orig dir b, bestV = hitV g orig dir b,
                    bestLocalHit = Some (rayPoint orig dir (hitT g orig dir b))\<rparr> \<and>
                 validHit g orig dir md b \<and>
                 (\<forall>t<n. validHit g orig dir md t \<longrightarrow> hitT g orig dir b \<le> hitT g orig dir t)"
      then obtain b where b: "b < n"
          "?st = \<lparr>closestT = Fin (hitT g orig dir b), bestTri = Some b,
                    bestU = hitU g orig dir b, bestV = hitV g orig dir b,
                    bestLocalHit = Some (rayPoint orig dir (hitT g orig dir b))\<rparr>"
          "validHit g orig dir md b"
          "\<forall>t<n. validHit g orig dir md t \<longrightarrow> hitT g orig dir b \<le> hitT g orig dir t"
        by blast
      have "\<forall>t<Suc n. validHit g orig dir md t \<longrightarrow> hitT g orig dir b \<le> hitT g orig dir t"
        using b(4) False by (simp add: less_Suc_eq)
      moreover have "b < Suc n" using b(1) by simp
      ultimately show ?thesis unfolding unf same using b(2,3) by blast
    qed
  next
    case True
    from ih show ?thesis
    proof
      assume a: "bestTri ?st = None \<and> bestLocalHit ?st = None \<and> closestT ?st = PInf \<and>
                 (\<forall>t<n. \<not> validHit g orig dir md t)"
      then have new: "exactStep ps tris orig dir md n ?st =
                   \<lparr>closestT = Fin (hitT g orig dir n), bestTri = Some n,
                    bestU = hitU g orig dir n, bestV = hitV g orig dir n,
                    bestLocalHit = Some (rayPoint orig dir (hitT g orig dir n))\<rparr>"
        using step True by simp
      have "\<forall>t<Suc n. validHit g orig dir md t \<longrightarrow> hitT g orig dir n \<le> hitT g orig dir t"
        using a by (simp add: less_Suc_eq)
      then show ?thesis unfolding unf using new True by blast
    next
      assume "\<exists>b<n. ?st = \<lparr>closestT = Fin (hitT g orig dir b), bestTri = Some b,
                    bestU = hitU g orig dir b, bestV = hitV g orig dir b,
                    bestLocalHit = Some (rayPoint orig dir (hitT g orig dir b))\<rparr> \<and>
                 validHit g orig dir md b \<and>
                 (\<forall>t<n. validHit g orig dir md t \<longrightarrow> hitT g orig dir b \<le> hitT g orig dir t)"
      then obtain b where b: "b < n"
          "?st = \<lparr>closestT = Fin (hitT g orig dir b), bestTri = Some b,
                    bestU = hitU g orig dir b, bestV = hitV g orig dir b,
                    bestLocalHit = Some (rayPoint orig dir (hitT g orig dir b))\<rparr>"
          "validHit g orig dir md b"
          "\<forall>t<n. validHit g orig dir md t \<longrightarrow> hitT g orig dir b \<le> hitT g orig dir t"
        by blast
      have cl: "closestT ?st = Fin (hitT g orig dir b)" by (simp add: b(2))
      show ?thesis
      proof (cases "hitT g orig dir n < hitT g orig dir b")
        case closer: True
        then have new: "exactStep ps tris orig dir md n ?st =
                   \<lparr>closestT = Fin (hitT g orig dir n), bestTri = Some n,
                    bestU = hitU g orig dir n, bestV = hitV g orig dir n,
                    bestLocalHit = Some (rayPoint orig dir (hitT g orig dir n))\<rparr>"
          using step True cl by simp
        have "\<forall>t<Suc n. validHit g orig dir md t \<longrightarrow> hitT g orig dir n \<le> hitT g orig dir t"
          using b(4) closer by (auto simp: less_Suc_eq)
        then show ?thesis unfolding unf using new True by blast
      next
        case False
        then have same: "exactStep ps tris orig dir md n ?st = ?st" using step cl by simp
        have "\<forall>t<Suc n. validHit g orig dir md t \<longrightarrow> hitT g orig dir b \<le> hitT g orig dir t"
          using b(4) False by (auto simp: less_Suc_eq)
        moreover have "b < Suc n" using b(1) by simp
        ultimately show ?thesis unfolding unf same using b(2,3) by blast
      qed
    qed
  qed
qed

section \<open>Lemmas: the cache builder\<close>

lemma build_without_position:
  "\<not> hasPosition m \<Longrightarrow> buildMeshCaches m p = p"
  by (simp add: buildMeshCaches_def)

lemma build_cache:
  assumes "hasPosition m"
  shows "\<exists>tris mins maxs.
           buildMeshCaches m p =
             p\<lparr>positionsFlat := Some (flatten3 (map fst (vertexData m))),
               uvsFlat := (if hasTextureCoordinate m then Some (flatten2 (map snd (vertexData m))) else None),
               triIndices := Some tris, triMin := Some mins, triMax := Some maxs,
               triCount := real (length tris) / 3\<rparr> \<and>
           (mins, maxs) = fold (boxStep (flatten3 (map fst (vertexData m))) tris)
                            (loopRange (real (length tris) / 3))
                            (replicate (length tris) (Fin 0), replicate (length tris) (Fin 0))"
proof -
  let ?ps = "flatten3 (map fst (vertexData m))"
  let ?seq = "map int [0 ..< length (vertexData m)]"
  define tris where "tris = (case indexData m of
      Some indices \<Rightarrow> if length indices > 0 then indices else ?seq | None \<Rightarrow> ?seq)"
  have ct: "(case indexData m of
                  Some indices \<Rightarrow>
                    if length indices > 0 then (real (length indices) / 3, indices)
                    else (real (length (vertexData m)) / 3, ?seq)
                | None \<Rightarrow> (real (length (vertexData m)) / 3, ?seq)) = (real (length tris) / 3, tris)"
    by (auto simp: tris_def split: option.splits)
  obtain mins maxs where mm: "(mins, maxs) = fold (boxStep ?ps tris) (loopRange (real (length tris) / 3))
                            (replicate (length tris) (Fin 0), replicate (length tris) (Fin 0))"
    by (metis surj_pair)
  have "buildMeshCaches m p =
             p\<lparr>positionsFlat := Some ?ps,
               uvsFlat := (if hasTextureCoordinate m then Some (flatten2 (map snd (vertexData m))) else None),
               triIndices := Some tris, triMin := Some mins, triMax := Some maxs,
               triCount := real (length tris) / 3\<rparr>"
    unfolding buildMeshCaches_def Let_def ct using assms mm [symmetric] by simp
  then show ?thesis using mm by blast
qed

text \<open>The pruned scan and the exact scan leave the same state, whatever the reach of the ray.\<close>

lemma built_scan_eq:
  assumes g: "g = buildMeshCaches m (newPaintable fb w h)"
  shows "getUVFromLocalRay g orig dir md = getUVFromLocalRayBruteForce g orig dir md"
proof (cases "hasPosition m")
  case False
  then show ?thesis
    by (simp add: g build_without_position newPaintable_def getUVFromLocalRay_def
        getUVFromLocalRayBruteForce_def)
next
  case True
  from build_cache [OF True, of "newPaintable fb w h"] obtain tris mins maxs where
    b: "g = (newPaintable fb w h)\<lparr>positionsFlat := Some (flatten3 (map fst (vertexData m))),
               uvsFlat := (if hasTextureCoordinate m then Some (flatten2 (map snd (vertexData m))) else None),
               triIndices := Some tris, triMin := Some mins, triMax := Some maxs,
               triCount := real (length tris) / 3\<rparr>"
    and mm: "(mins, maxs) = fold (boxStep (flatten3 (map fst (vertexData m))) tris)
                            (loopRange (real (length tris) / 3))
                            (replicate (length tris) (Fin 0), replicate (length tris) (Fin 0))"
    unfolding g by blast
  have f: "positionsFlat g = Some (flatten3 (map fst (vertexData m)))" "triIndices g = Some tris"
      "triMin g = Some mins" "triMax g = Some maxs"
    by (simp_all add: b)
  have "fold (scanStep (flatten3 (map fst (vertexData m))) tris mins maxs orig dir md) (loopRange (triCount g)) scanInit
        = fold (exactStep (flatten3 (map fst (vertexData m))) tris orig dir md) (loopRange (triCount g)) scanInit"
    by (rule fold_cong) (auto simp: fun_eq_iff scanStep_eq_exactStep [OF mm])
  then show ?thesis
    by (simp add: getUVFromLocalRay_def getUVFromLocalRayBruteForce_def f)
qed



section \<open>Lemmas: resolving a hit\<close>

lemma readAt_flatten2:
  assumes "0 \<le> i" and "i < int (length l)"
  shows "readAt (flatten2 l) (i * 2 + 0) = Some (fst (l ! nat i))"
    and "readAt (flatten2 l) (i * 2 + 1) = Some (snd (l ! nat i))"
proof -
  have n: "nat i < length l" using assms by linarith
  have a: "nat (i * 2) = nat i * 2" "nat (i * 2 + 1) = nat i * 2 + 1"
    using assms(1) by (simp_all add: nat_mult_distrib nat_add_distrib)
  show "readAt (flatten2 l) (i * 2 + 0) = Some (fst (l ! nat i))"
    and "readAt (flatten2 l) (i * 2 + 1) = Some (snd (l ! nat i))"
    using assms flatten2_nth [OF n] by (simp_all add: readAt_def length_flatten2 a)
qed

lemma uvOfVertex_flatten2:
  assumes "0 \<le> i" and "i < int (length l)"
  shows "uvOfVertex (flatten2 l) (Some i) = Some (l ! nat i)"
  unfolding uvOfVertex_def option.case readAt_flatten2 [OF assms] by simp

text \<open>A vertex that the scan could fetch has its two texture coordinates in the array.\<close>

lemma fetched_vertex_has_uv:
  assumes "finite3 (vertexOf (flatten3 (map fst vd)) vi) = Some q"
  shows "\<exists>i. vi = Some i \<and> 0 \<le> i \<and> i < int (length vd) \<and>
             uvOfVertex (flatten2 (map snd vd)) vi = Some (snd (vd ! nat i))"
proof -
  from assms obtain i where i: "vi = Some i" "0 \<le> i" "i < int (length vd)"
    unfolding finite3_vertexOf_flatten3 by (auto split: option.splits if_splits)
  have "uvOfVertex (flatten2 (map snd vd)) (Some i) = Some (map snd vd ! nat i)"
    by (rule uvOfVertex_flatten2) (use i in simp_all)
  moreover have "nat i < length vd" using i by linarith
  ultimately show ?thesis using i by simp
qed

lemma resolveFromUVs_eq:
  assumes "uvOfVertex uvs (readAt tris (int (b * 3 + 0))) = Some uv0"
    and "uvOfVertex uvs (readAt tris (int (b * 3 + 1))) = Some uv1"
    and "uvOfVertex uvs (readAt tris (int (b * 3 + 2))) = Some uv2"
  shows "resolveFromUVs uvs tris b bu bv hp =
           Some \<lparr>uv = (clamp01 (fst (weighted (1 - bu - bv) bu bv uv0 uv1 uv2)),
                        clamp01 (snd (weighted (1 - bu - bv) bu bv uv0 uv1 uv2))),
                  triIndex = b, localHit = hp\<rparr>"
  using assms
  by (auto simp: resolveFromUVs_def uvOfVertex_def weighted_def Let_def split: option.splits)

lemma planarBounds_finite_acc:
  "planarBounds (flatten3 ps) (Fin a, Fin b, Fin c, Fin d) =
     (Fin (fold min (map fst ps) a), Fin (fold min (map (\<lambda>p. snd (snd p)) ps) b),
      Fin (fold max (map fst ps) c), Fin (fold max (map (\<lambda>p. snd (snd p)) ps) d))"
proof (induction ps arbitrary: a b c d)
  case Nil
  then show ?case by (simp add: flatten3_def)
next
  case (Cons p ps)
  obtain x y z where p: "p = (x, y, z)" by (cases p) auto
  have m: "(if x < a then Fin x else Fin a) = Fin (min x a)"
       "(if z < b then Fin z else Fin b) = Fin (min z b)"
       "(if c < x then Fin x else Fin c) = Fin (max x c)"
       "(if d < z then Fin z else Fin d) = Fin (max z d)"
    by (auto simp: min_def max_def)
  show ?case
    unfolding p flatten3_Cons planarBounds.simps numLess.simps if_distrib [of Fin, symmetric]
    by (simp add: Cons.IH m min_def max_def)
qed

text \<open>After a hit the position array is not empty, and the fallback's bounds are the mesh's extents.\<close>

lemma planarBounds_finite:
  assumes "ps \<noteq> []"
  shows "planarBounds (flatten3 ps) (PInf, PInf, NInf, NInf) =
           (Fin (Min (set (map fst ps))), Fin (Min (set (map (\<lambda>p. snd (snd p)) ps))),
            Fin (Max (set (map fst ps))), Fin (Max (set (map (\<lambda>p. snd (snd p)) ps))))"
proof -
  obtain p rest where ps: "ps = p # rest" using assms by (cases ps) auto
  obtain x y z where p: "p = (x, y, z)" by (cases p) auto
  have "planarBounds (flatten3 ps) (PInf, PInf, NInf, NInf) =
          planarBounds (flatten3 rest) (Fin x, Fin z, Fin x, Fin z)"
    by (simp add: ps p flatten3_Cons)
  also have "\<dots> = (Fin (fold min (map fst rest) x), Fin (fold min (map (\<lambda>p. snd (snd p)) rest) z),
      Fin (fold max (map fst rest) x), Fin (fold max (map (\<lambda>p. snd (snd p)) rest) z))"
    by (rule planarBounds_finite_acc)
  also have "\<dots> = (Fin (Min (set (map fst ps))), Fin (Min (set (map (\<lambda>p. snd (snd p)) ps))),
            Fin (Max (set (map fst ps))), Fin (Max (set (map (\<lambda>p. snd (snd p)) ps))))"
    by (simp add: ps p Min.set_eq_fold [symmetric] Max.set_eq_fold [symmetric] del: set_simps)
  finally show ?thesis .
qed

lemma resolvePlanar_eq:
  assumes "vertexData m \<noteq> []"
  shows "resolvePlanar (flatten3 (map fst (vertexData m))) b hp =
           Some \<lparr>uv = planarUV m hp, triIndex = b, localHit = hp\<rparr>"
proof -
  have ne: "map fst (vertexData m) \<noteq> []" using assms by simp
  have xs: "map fst (map fst (vertexData m)) = meshXs m"
       "map (\<lambda>p. snd (snd p)) (map fst (vertexData m)) = meshZs m"
    by (simp_all add: meshXs_def meshZs_def)
  show ?thesis
    unfolding resolvePlanar_def planarBounds_finite [OF ne] xs
    by (simp add: planarUV_def Let_def)
qed

section \<open>Lemmas: the query on a built cache\<close>

lemma fetched_vertex_uv_ex:
  assumes "finite3 (vertexOf (flatten3 (map fst vd)) vi) = Some q"
  shows "\<exists>u. uvOfVertex (flatten2 (map snd vd)) vi = Some u"
  using fetched_vertex_has_uv [OF assms] by blast

lemma validHit_range: "validHit g orig dir md t \<Longrightarrow> real t < triCount g"
  by (auto simp: validHit_def triangleOf_def split: option.splits if_splits)

lemma exact_scan_state:
  assumes ps: "positionsFlat g = Some ps" and tris: "triIndices g = Some tris"
  shows "((\<forall>t. \<not> validHit g orig dir md t) \<and>
          bestTri (fold (exactStep ps tris orig dir md) (loopRange (triCount g)) scanInit) = None) \<or>
         (\<exists>b. fold (exactStep ps tris orig dir md) (loopRange (triCount g)) scanInit =
                   \<lparr>closestT = Fin (hitT g orig dir b), bestTri = Some b,
                    bestU = hitU g orig dir b, bestV = hitV g orig dir b,
                    bestLocalHit = Some (rayPoint orig dir (hitT g orig dir b))\<rparr> \<and>
              validHit g orig dir md b \<and>
              (\<forall>t. validHit g orig dir md t \<longrightarrow> hitT g orig dir b \<le> hitT g orig dir t))"
proof -
  let ?n = "nat \<lceil>triCount g\<rceil>"
  have in_range: "\<And>t. validHit g orig dir md t \<Longrightarrow> t < ?n"
    using validHit_range [of g orig dir md] loopRange_iff [of _ "triCount g"]
    by (simp add: loopRange_def)
  have rng: "\<forall>t<?n. real t < triCount g"
    using loopRange_iff [of _ "triCount g"] by (simp add: loopRange_def)
  from fold_exact_inv [OF ps tris rng, of orig dir md] show ?thesis
    unfolding loopRange_def using in_range by blast
qed

text \<open>What the query returns on a cache built from a mesh: nothing without a valid triangle.\<close>

lemma built_query_none:
  assumes g: "g = buildMeshCaches m (newPaintable fb w h)"
    and none: "\<forall>t. \<not> validHit g orig dir md t"
  shows "getUVFromLocalRay g orig dir md = None"
proof (cases "hasPosition m")
  case False
  then show ?thesis
    by (simp add: g build_without_position newPaintable_def getUVFromLocalRay_def)
next
  case True
  from build_cache [OF True, of "newPaintable fb w h"] obtain tris mins maxs where
    b: "g = (newPaintable fb w h)\<lparr>positionsFlat := Some (flatten3 (map fst (vertexData m))),
               uvsFlat := (if hasTextureCoordinate m then Some (flatten2 (map snd (vertexData m))) else None),
               triIndices := Some tris, triMin := Some mins, triMax := Some maxs,
               triCount := real (length tris) / 3\<rparr>"
    unfolding g by blast
  let ?ps = "flatten3 (map fst (vertexData m))"
  have f: "positionsFlat g = Some ?ps" "triIndices g = Some tris"
      "triMin g = Some mins" "triMax g = Some maxs"
    by (simp_all add: b)
  from exact_scan_state [OF f(1,2), of orig dir md] none
  have "bestTri (fold (exactStep ?ps tris orig dir md) (loopRange (triCount g)) scanInit) = None"
    by blast
  then have "getUVFromLocalRayBruteForce g orig dir md = None"
    by (simp add: getUVFromLocalRayBruteForce_def f resolveHit_def)
  then show ?thesis using built_scan_eq [OF g] by simp
qed

text \<open>With a valid triangle: the closest one, resolved through the texture coordinates or the
  planar fallback, or given up when the mesh has neither.\<close>

lemma built_query_hit:
  assumes g: "g = buildMeshCaches m (newPaintable fb w h)"
    and some: "validHit g orig dir md t0"
  shows "\<exists>b. validHit g orig dir md b \<and>
             (\<forall>t. validHit g orig dir md t \<longrightarrow> hitT g orig dir b \<le> hitT g orig dir t) \<and>
             (if hasTextureCoordinate m then
                (\<exists>uv0 uv1 uv2. triangleUVs g b = Some (uv0, uv1, uv2) \<and>
                   getUVFromLocalRay g orig dir md =
                     Some \<lparr>uv = (clamp01 (fst (weighted (1 - hitU g orig dir b - hitV g orig dir b)
                                               (hitU g orig dir b) (hitV g orig dir b) uv0 uv1 uv2)),
                                  clamp01 (snd (weighted (1 - hitU g orig dir b - hitV g orig dir b)
                                               (hitU g orig dir b) (hitV g orig dir b) uv0 uv1 uv2))),
                            triIndex = b, localHit = rayPoint orig dir (hitT g orig dir b)\<rparr>)
              else if fb then
                getUVFromLocalRay g orig dir md =
                  Some \<lparr>uv = planarUV m (rayPoint orig dir (hitT g orig dir b)),
                         triIndex = b, localHit = rayPoint orig dir (hitT g orig dir b)\<rparr>
              else getUVFromLocalRay g orig dir md = None)"
proof -
  have hp: "hasPosition m"
  proof (rule ccontr)
    assume "\<not> hasPosition m"
    then show False using some
      by (simp add: g build_without_position newPaintable_def validHit_def triangleOf_def)
  qed
  from build_cache [OF hp, of "newPaintable fb w h"] obtain tris mins maxs where
    b: "g = (newPaintable fb w h)\<lparr>positionsFlat := Some (flatten3 (map fst (vertexData m))),
               uvsFlat := (if hasTextureCoordinate m then Some (flatten2 (map snd (vertexData m))) else None),
               triIndices := Some tris, triMin := Some mins, triMax := Some maxs,
               triCount := real (length tris) / 3\<rparr>"
    unfolding g by blast
  let ?ps = "flatten3 (map fst (vertexData m))"
  let ?uvs = "flatten2 (map snd (vertexData m))"
  have f: "positionsFlat g = Some ?ps" "triIndices g = Some tris"
      "triMin g = Some mins" "triMax g = Some maxs"
      "uvsFlat g = (if hasTextureCoordinate m then Some ?uvs else None)"
      "planarFallback g = fb"
    by (simp_all add: b newPaintable_def)
  from exact_scan_state [OF f(1,2), of orig dir md] some obtain bt where
    st: "fold (exactStep ?ps tris orig dir md) (loopRange (triCount g)) scanInit =
                   \<lparr>closestT = Fin (hitT g orig dir bt), bestTri = Some bt,
                    bestU = hitU g orig dir bt, bestV = hitV g orig dir bt,
                    bestLocalHit = Some (rayPoint orig dir (hitT g orig dir bt))\<rparr>"
    and v: "validHit g orig dir md bt"
    and mn: "\<forall>t. validHit g orig dir md t \<longrightarrow> hitT g orig dir bt \<le> hitT g orig dir t"
    by blast
  have q: "getUVFromLocalRay g orig dir md =
             resolveHit g ?ps tris \<lparr>closestT = Fin (hitT g orig dir bt), bestTri = Some bt,
                    bestU = hitU g orig dir bt, bestV = hitV g orig dir bt,
                    bestLocalHit = Some (rayPoint orig dir (hitT g orig dir bt))\<rparr>"
    unfolding built_scan_eq [OF g] by (simp add: getUVFromLocalRayBruteForce_def f st)
  from v obtain p0 p1 p2 where tri: "triangleOf g bt = Some (p0, p1, p2)"
    by (auto simp: validHit_def split: option.splits)
  have vs: "finite3 (vertexOf ?ps (readAt tris (int (bt * 3 + 0)))) = Some p0"
         "finite3 (vertexOf ?ps (readAt tris (int (bt * 3 + 1)))) = Some p1"
         "finite3 (vertexOf ?ps (readAt tris (int (bt * 3 + 2)))) = Some p2"
    using tri unfolding triangleOf_def f by (auto split: option.splits if_splits)
  show ?thesis
  proof (cases "hasTextureCoordinate m")
    case True
    from fetched_vertex_uv_ex [OF vs(1)] fetched_vertex_uv_ex [OF vs(2)] fetched_vertex_uv_ex [OF vs(3)]
    obtain uv0 uv1 uv2 where
      u: "uvOfVertex ?uvs (readAt tris (int (bt * 3 + 0))) = Some uv0"
         "uvOfVertex ?uvs (readAt tris (int (bt * 3 + 1))) = Some uv1"
         "uvOfVertex ?uvs (readAt tris (int (bt * 3 + 2))) = Some uv2"
      by blast
    have tu: "triangleUVs g bt = Some (uv0, uv1, uv2)"
      unfolding triangleUVs_def f using True u by simp
    have "getUVFromLocalRay g orig dir md =
            resolveFromUVs ?uvs tris bt (hitU g orig dir bt) (hitV g orig dir bt)
              (rayPoint orig dir (hitT g orig dir bt))"
      unfolding q using True by (simp add: resolveHit_def f)
    then have res: "getUVFromLocalRay g orig dir md =
                     Some \<lparr>uv = (clamp01 (fst (weighted (1 - hitU g orig dir bt - hitV g orig dir bt)
                                               (hitU g orig dir bt) (hitV g orig dir bt) uv0 uv1 uv2)),
                                  clamp01 (snd (weighted (1 - hitU g orig dir bt - hitV g orig dir bt)
                                               (hitU g orig dir bt) (hitV g orig dir bt) uv0 uv1 uv2))),
                            triIndex = bt, localHit = rayPoint orig dir (hitT g orig dir bt)\<rparr>"
      unfolding resolveFromUVs_eq [OF u] .
    have "\<exists>uv0 uv1 uv2. triangleUVs g bt = Some (uv0, uv1, uv2) \<and>
                   getUVFromLocalRay g orig dir md =
                     Some \<lparr>uv = (clamp01 (fst (weighted (1 - hitU g orig dir bt - hitV g orig dir bt)
                                               (hitU g orig dir bt) (hitV g orig dir bt) uv0 uv1 uv2)),
                                  clamp01 (snd (weighted (1 - hitU g orig dir bt - hitV g orig dir bt)
                                               (hitU g orig dir bt) (hitV g orig dir bt) uv0 uv1 uv2))),
                            triIndex = bt, localHit = rayPoint orig dir (hitT g orig dir bt)\<rparr>"
      using tu res by blast
    then show ?thesis
      by (intro exI [of _ bt] conjI v mn) (simp only: True if_True)
  next
    case False
    have ne: "vertexData m \<noteq> []"
    proof
      assume "vertexData m = []"
      then show False using vs(1) unfolding finite3_vertexOf_flatten3
        by (auto split: option.splits if_splits)
    qed
    have "getUVFromLocalRay g orig dir md =
            (if fb then resolvePlanar ?ps bt (rayPoint orig dir (hitT g orig dir bt)) else None)"
      unfolding q using False by (simp add: resolveHit_def f)
    then have res: "getUVFromLocalRay g orig dir md =
            (if fb then Some \<lparr>uv = planarUV m (rayPoint orig dir (hitT g orig dir bt)),
                         triIndex = bt, localHit = rayPoint orig dir (hitT g orig dir bt)\<rparr> else None)"
      unfolding resolvePlanar_eq [OF ne] .
    then show ?thesis
      by (intro exI [of _ bt] conjI v mn) (simp add: False)
  qed
qed

lemma clamp01_range: "0 \<le> clamp01 x \<and> clamp01 x \<le> 1"
  by (simp add: clamp01_def)

lemma query_uv_in_unit_square:
  assumes "getUVFromLocalRay p orig dir md = Some r"
  shows "0 \<le> fst (uv r) \<and> fst (uv r) \<le> 1 \<and> 0 \<le> snd (uv r) \<and> snd (uv r) \<le> 1"
proof -
  from assms obtain ps tris st where r: "resolveHit p ps tris st = Some r"
    by (auto simp: getUVFromLocalRay_def split: option.splits)
  then consider uvs b bu bv hp where "resolveFromUVs uvs tris b bu bv hp = Some r"
    | b hp where "resolvePlanar ps b hp = Some r"
    by (auto simp: resolveHit_def split: option.splits if_splits)
  then show ?thesis
  proof cases
    case 1
    then obtain x y where "uv r = (clamp01 x, clamp01 y)"
      by (auto simp: resolveFromUVs_def Let_def split: option.splits)
    then show ?thesis using clamp01_range by simp
  next
    case 2
    then obtain x y where "uv r = (clamp01 x, clamp01 y)"
      by (auto simp: resolvePlanar_def Let_def split: prod.splits jsnum.splits)
    then show ?thesis using clamp01_range by simp
  qed
qed

lemma weighted_inConvexHull:
  assumes "0 \<le> w0" "0 \<le> w1" "0 \<le> w2" "w0 + w1 + w2 = 1"
  shows "inConvexHull (weighted w0 w1 w2 a b c) a b c"
  unfolding inConvexHull_def using assms by blast

lemma validHit_barycentric:
  assumes "validHit g orig dir md t"
  shows "0 \<le> hitU g orig dir t \<and> 0 \<le> hitV g orig dir t \<and> hitU g orig dir t + hitV g orig dir t \<le> 1"
  using assms
  by (auto simp: validHit_def hitU_def hitV_def validIntersection_def split: option.splits)

section \<open>The claims about the ray query\<close>

text \<open>
  C1, as amended. For every mesh, every configuration of the paintable and every local
  ray (any origin, any direction, any \<open>maxDistance\<close>, finite or infinite), on the cache
  built from the mesh: provided the mesh carries texture coordinates or the planar
  fallback is enabled, if at least one triangle has a valid intersection (determinant of
  absolute value at least \<open>1e-8\<close>, \<open>0 \<le> u \<le> 1\<close>, \<open>0 \<le> v\<close>, \<open>u + v \<le> 1\<close>,
  \<open>t > 1e-6\<close>, \<open>t \<le> maxDistance\<close>), \<open>getUVFromLocalRay\<close> returns a hit on a
  triangle that is valid and whose \<open>t\<close> is the least among all valid triangles; if no
  triangle qualifies it returns none; and when the mesh has no texture coordinates and
  the fallback is disabled it returns none whatever the ray hits.
\<close>

theorem closest_valid_hit_returned:
  "let g = buildMeshCaches m (newPaintable fb w h) in
     ((hasTextureCoordinate m \<or> fb) \<and> (\<exists>t. validHit g orig dir md t) \<longrightarrow>
        (\<exists>r. getUVFromLocalRay g orig dir md = Some r \<and> validHit g orig dir md (triIndex r) \<and>
             (\<forall>t. validHit g orig dir md t \<longrightarrow> hitT g orig dir (triIndex r) \<le> hitT g orig dir t))) \<and>
     ((\<forall>t. \<not> validHit g orig dir md t) \<longrightarrow> getUVFromLocalRay g orig dir md = None) \<and>
     (\<not> hasTextureCoordinate m \<and> \<not> fb \<longrightarrow> getUVFromLocalRay g orig dir md = None)"
proof -
  define g where "g = buildMeshCaches m (newPaintable fb w h)"
  have none: "(\<forall>t. \<not> validHit g orig dir md t) \<longrightarrow> getUVFromLocalRay g orig dir md = None"
    using built_query_none [OF g_def] by blast
  have some: "(hasTextureCoordinate m \<or> fb) \<and> (\<exists>t. validHit g orig dir md t) \<longrightarrow>
        (\<exists>r. getUVFromLocalRay g orig dir md = Some r \<and> validHit g orig dir md (triIndex r) \<and>
             (\<forall>t. validHit g orig dir md t \<longrightarrow> hitT g orig dir (triIndex r) \<le> hitT g orig dir t))"
  proof
    assume a: "(hasTextureCoordinate m \<or> fb) \<and> (\<exists>t. validHit g orig dir md t)"
    then obtain t0 where "validHit g orig dir md t0" by blast
    from built_query_hit [OF g_def this] obtain b where
      v: "validHit g orig dir md b"
      and mn: "\<forall>t. validHit g orig dir md t \<longrightarrow> hitT g orig dir b \<le> hitT g orig dir t"
      and res: "if hasTextureCoordinate m then
                (\<exists>uv0 uv1 uv2. triangleUVs g b = Some (uv0, uv1, uv2) \<and>
                   getUVFromLocalRay g orig dir md =
                     Some \<lparr>uv = (clamp01 (fst (weighted (1 - hitU g orig dir b - hitV g orig dir b)
                                               (hitU g orig dir b) (hitV g orig dir b) uv0 uv1 uv2)),
                                  clamp01 (snd (weighted (1 - hitU g orig dir b - hitV g orig dir b)
                                               (hitU g orig dir b) (hitV g orig dir b) uv0 uv1 uv2))),
                            triIndex = b, localHit = rayPoint orig dir (hitT g orig dir b)\<rparr>)
              else if fb then
                getUVFromLocalRay g orig dir md =
                  Some \<lparr>uv = planarUV m (rayPoint orig dir (hitT g orig dir b)),
                         triIndex = b, localHit = rayPoint orig dir (hitT g orig dir b)\<rparr>
              else getUVFromLocalRay g orig dir md = None"
      by blast
    from res a obtain r where "getUVFromLocalRay g orig dir md = Some r" "triIndex r = b"
      by (auto split: if_splits)
    then show "\<exists>r. getUVFromLocalRay g orig dir md = Some r \<and> validHit g orig dir md (triIndex r) \<and>
             (\<forall>t. validHit g orig dir md t \<longrightarrow> hitT g orig dir (triIndex r) \<le> hitT g orig dir t)"
      using v mn by auto
  qed
  have off: "\<not> hasTextureCoordinate m \<and> \<not> fb \<longrightarrow> getUVFromLocalRay g orig dir md = None"
  proof (cases "\<exists>t. validHit g orig dir md t")
    case True
    then obtain t0 where "validHit g orig dir md t0" by blast
    from built_query_hit [OF g_def this] show ?thesis by auto
  next
    case False
    then show ?thesis using none by blast
  qed
  show ?thesis unfolding Let_def g_def [symmetric] using some none off by blast
qed

theorem closest_valid_hit_returned_witness:
  "validHit (buildMeshCaches quadMesh (newPaintable True 1024 1024)) (0, 1, 0) (0, - 1, 0) PInf 0 \<and>
   (\<exists>r. getUVFromLocalRay (buildMeshCaches quadMesh (newPaintable True 1024 1024)) (0, 1, 0) (0, - 1, 0) PInf = Some r \<and>
        validHit (buildMeshCaches quadMesh (newPaintable True 1024 1024)) (0, 1, 0) (0, - 1, 0) PInf (triIndex r) \<and>
        hitT (buildMeshCaches quadMesh (newPaintable True 1024 1024)) (0, 1, 0) (0, - 1, 0) (triIndex r)
          \<le> hitT (buildMeshCaches quadMesh (newPaintable True 1024 1024)) (0, 1, 0) (0, - 1, 0) 1) \<and>
   \<not> validHit (buildMeshCaches quadMesh (newPaintable True 1024 1024)) (5, 1, 0) (0, - 1, 0) PInf 0 \<and>
   \<not> validHit (buildMeshCaches quadMesh (newPaintable True 1024 1024)) (5, 1, 0) (0, - 1, 0) PInf 1 \<and>
   getUVFromLocalRay (buildMeshCaches quadMesh (newPaintable True 1024 1024)) (5, 1, 0) (0, - 1, 0) PInf = None"
proof -
  let ?g = "buildMeshCaches quadMesh (newPaintable True 1024 1024)"
  have v0: "validHit ?g (0, 1, 0) (0, - 1, 0) PInf 0" by code_simp
  have v1: "validHit ?g (0, 1, 0) (0, - 1, 0) PInf 1" by code_simp
  have tc: "hasTextureCoordinate quadMesh" by (simp add: quadMesh_def)
  have n0: "\<not> validHit ?g (5, 1, 0) (0, - 1, 0) PInf 0" by code_simp
  have n1: "\<not> validHit ?g (5, 1, 0) (0, - 1, 0) PInf 1" by code_simp
  have "triCount ?g = 2" by code_simp
  then have "\<And>t. validHit ?g (5, 1, 0) (0, - 1, 0) PInf t \<Longrightarrow> t = 0 \<or> t = 1"
    using validHit_range [of ?g "(5, 1, 0)" "(0, - 1, 0)" PInf] by force
  then have nn: "\<forall>t. \<not> validHit ?g (5, 1, 0) (0, - 1, 0) PInf t" using n0 n1 by blast
  show ?thesis
    using closest_valid_hit_returned [of quadMesh True 1024 1024 "(0, 1, 0)" "(0, - 1, 0)" PInf]
      closest_valid_hit_returned [of quadMesh True 1024 1024 "(5, 1, 0)" "(0, - 1, 0)" PInf]
      v0 v1 tc n0 n1 nn
    unfolding Let_def by blast
qed

theorem hit_without_uvs_and_fallback_counterexample:
  "validHit (buildMeshCaches wideQuadMesh (newPaintable False 1024 1024)) (0, 1, 0) (0, - 1, 0) PInf 0 \<and>
   getUVFromLocalRay (buildMeshCaches wideQuadMesh (newPaintable False 1024 1024)) (0, 1, 0) (0, - 1, 0) PInf = None"
  by code_simp



text \<open>
  C5. On the cache built from a mesh that carries texture coordinates, whenever
  \<open>getUVFromLocalRay\<close> returns a hit, the hit triangle has a valid intersection with
  barycentric \<open>(u, v)\<close>, its three vertices have texture coordinates \<open>uv0\<close>, \<open>uv1\<close>,
  \<open>uv2\<close>, and the returned coordinate is the clamp to \<open>[0,1]\<close>, on each axis, of
  \<open>q = (1 - u - v) uv0 + u uv1 + v uv2\<close>; \<open>q\<close> lies in the convex hull of the three
  (its weights are not negative and add up to one). And the coordinate that
  \<open>getUVFromLocalRay\<close> returns, with or without texture coordinates on the mesh, lies
  in \<open>[0,1] \<times> [0,1]\<close>.
\<close>

theorem uv_is_clamped_barycentric_blend:
  "(let g = buildMeshCaches m (newPaintable fb w h) in
      hasTextureCoordinate m \<and> getUVFromLocalRay g orig dir md = Some r \<longrightarrow>
        validHit g orig dir md (triIndex r) \<and>
        (\<exists>uv0 uv1 uv2. triangleUVs g (triIndex r) = Some (uv0, uv1, uv2) \<and>
           (let u = hitU g orig dir (triIndex r); v = hitV g orig dir (triIndex r);
                q = weighted (1 - u - v) u v uv0 uv1 uv2
            in uv r = (clamp01 (fst q), clamp01 (snd q)) \<and> inConvexHull q uv0 uv1 uv2))) \<and>
   (getUVFromLocalRay (buildMeshCaches m (newPaintable fb w h)) orig dir md = Some r \<longrightarrow>
      0 \<le> fst (uv r) \<and> fst (uv r) \<le> 1 \<and> 0 \<le> snd (uv r) \<and> snd (uv r) \<le> 1)"
proof -
  define g where "g = buildMeshCaches m (newPaintable fb w h)"
  have a: "hasTextureCoordinate m \<and> getUVFromLocalRay g orig dir md = Some r \<longrightarrow>
        validHit g orig dir md (triIndex r) \<and>
        (\<exists>uv0 uv1 uv2. triangleUVs g (triIndex r) = Some (uv0, uv1, uv2) \<and>
           (let u = hitU g orig dir (triIndex r); v = hitV g orig dir (triIndex r);
                q = weighted (1 - u - v) u v uv0 uv1 uv2
            in uv r = (clamp01 (fst q), clamp01 (snd q)) \<and> inConvexHull q uv0 uv1 uv2))"
  proof
    assume h: "hasTextureCoordinate m \<and> getUVFromLocalRay g orig dir md = Some r"
    have "\<exists>t0. validHit g orig dir md t0"
    proof (rule ccontr)
      assume "\<not> (\<exists>t0. validHit g orig dir md t0)"
      then have "getUVFromLocalRay g orig dir md = None"
        using built_query_none [OF g_def] by blast
      then show False using h by simp
    qed
    then obtain t0 where "validHit g orig dir md t0" by blast
    from built_query_hit [OF g_def this] h obtain b uv0 uv1 uv2 where
      v: "validHit g orig dir md b"
      and tu: "triangleUVs g b = Some (uv0, uv1, uv2)"
      and res: "getUVFromLocalRay g orig dir md =
                     Some \<lparr>uv = (clamp01 (fst (weighted (1 - hitU g orig dir b - hitV g orig dir b)
                                               (hitU g orig dir b) (hitV g orig dir b) uv0 uv1 uv2)),
                                  clamp01 (snd (weighted (1 - hitU g orig dir b - hitV g orig dir b)
                                               (hitU g orig dir b) (hitV g orig dir b) uv0 uv1 uv2))),
                            triIndex = b, localHit = rayPoint orig dir (hitT g orig dir b)\<rparr>"
      by (auto split: if_splits)
    from res h have r: "triIndex r = b"
        "uv r = (clamp01 (fst (weighted (1 - hitU g orig dir b - hitV g orig dir b)
                                               (hitU g orig dir b) (hitV g orig dir b) uv0 uv1 uv2)),
                 clamp01 (snd (weighted (1 - hitU g orig dir b - hitV g orig dir b)
                                               (hitU g orig dir b) (hitV g orig dir b) uv0 uv1 uv2)))"
      by auto
    from validHit_barycentric [OF v]
    have "inConvexHull (weighted (1 - hitU g orig dir b - hitV g orig dir b)
                          (hitU g orig dir b) (hitV g orig dir b) uv0 uv1 uv2) uv0 uv1 uv2"
      by (intro weighted_inConvexHull) simp_all
    then show "validHit g orig dir md (triIndex r) \<and>
        (\<exists>uv0 uv1 uv2. triangleUVs g (triIndex r) = Some (uv0, uv1, uv2) \<and>
           (let u = hitU g orig dir (triIndex r); v = hitV g orig dir (triIndex r);
                q = weighted (1 - u - v) u v uv0 uv1 uv2
            in uv r = (clamp01 (fst q), clamp01 (snd q)) \<and> inConvexHull q uv0 uv1 uv2))"
      unfolding Let_def r(1) using v tu r(2) by blast
  qed
  show ?thesis
    unfolding Let_def g_def [symmetric]
    using a [unfolded Let_def] query_uv_in_unit_square [of g orig dir md r] by blast
qed

theorem uv_is_clamped_barycentric_blend_witness:
  "hasTextureCoordinate quadMesh \<and>
   getUVFromLocalRay (buildMeshCaches quadMesh (newPaintable True 1024 1024)) (1 / 4, 1, 0) (0, - 1, 0) PInf
     = Some \<lparr>uv = (3 / 4, 1 / 2), triIndex = 0, localHit = (1 / 4, 0, 0)\<rparr> \<and>
   validHit (buildMeshCaches quadMesh (newPaintable True 1024 1024)) (1 / 4, 1, 0) (0, - 1, 0) PInf
     (triIndex \<lparr>uv = (3 / 4, 1 / 2), triIndex = 0, localHit = (1 / 4, 0, 0)\<rparr>) \<and>
   (\<exists>uv0 uv1 uv2.
      triangleUVs (buildMeshCaches quadMesh (newPaintable True 1024 1024))
        (triIndex \<lparr>uv = (3 / 4, 1 / 2), triIndex = 0, localHit = (1 / 4, 0, 0)\<rparr>) = Some (uv0, uv1, uv2) \<and>
      inConvexHull
        (weighted
           (1 - hitU (buildMeshCaches quadMesh (newPaintable True 1024 1024)) (1 / 4, 1, 0) (0, - 1, 0)
                  (triIndex \<lparr>uv = (3 / 4, 1 / 2), triIndex = 0, localHit = (1 / 4, 0, 0)\<rparr>)
              - hitV (buildMeshCaches quadMesh (newPaintable True 1024 1024)) (1 / 4, 1, 0) (0, - 1, 0)
                  (triIndex \<lparr>uv = (3 / 4, 1 / 2), triIndex = 0, localHit = (1 / 4, 0, 0)\<rparr>))
           (hitU (buildMeshCaches quadMesh (newPaintable True 1024 1024)) (1 / 4, 1, 0) (0, - 1, 0)
              (triIndex \<lparr>uv = (3 / 4, 1 / 2), triIndex = 0, localHit = (1 / 4, 0, 0)\<rparr>))
           (hitV (buildMeshCaches quadMesh (newPaintable True 1024 1024)) (1 / 4, 1, 0) (0, - 1, 0)
              (triIndex \<lparr>uv = (3 / 4, 1 / 2), triIndex = 0, localHit = (1 / 4, 0, 0)\<rparr>))
           uv0 uv1 uv2)
        uv0 uv1 uv2)"
proof -
  let ?g = "buildMeshCaches quadMesh (newPaintable True 1024 1024)"
  let ?r = "\<lparr>uv = (3 / 4, 1 / 2), triIndex = 0, localHit = (1 / 4, 0, 0)\<rparr> :: uvResult"
  have tc: "hasTextureCoordinate quadMesh" by (simp add: quadMesh_def)
  have q: "getUVFromLocalRay ?g (1 / 4, 1, 0) (0, - 1, 0) PInf = Some ?r" by code_simp
  from uv_is_clamped_barycentric_blend [of quadMesh True 1024 1024 "(1 / 4, 1, 0)" "(0, - 1, 0)" PInf ?r,
      unfolded Let_def]
  show ?thesis using tc q by blast
qed

text \<open>
  A ray that runs along the plane of a flat mesh meets no triangle: with every vertex at
  the same height and a direction that has no Y component, each determinant is zero and
  each triangle is skipped as degenerate.
\<close>

lemma mtDet_coplanar:
  "mtDet (dx, 0, dz) (ax, y0, az) (bx, y0, bz) (cx, y0, cz) = 0"
  by (simp add: mtDet_def)

lemma flat_mesh_parallel_ray:
  assumes flat: "\<forall>v \<in> set (vertexData m). fst (snd (fst v)) = y0"
  shows "getUVFromLocalRay (buildMeshCaches m (newPaintable fb w h)) orig (dx, 0, dz) md = None"
proof -
  define g where "g = buildMeshCaches m (newPaintable fb w h)"
  have "\<not> validHit g orig (dx, 0, dz) md t" for t
  proof
    assume v: "validHit g orig (dx, 0, dz) md t"
    have hp: "hasPosition m"
    proof (rule ccontr)
      assume "\<not> hasPosition m"
      then show False using v
        by (simp add: g_def build_without_position newPaintable_def validHit_def triangleOf_def)
    qed
    from build_cache [OF hp, of "newPaintable fb w h"] obtain tris mins maxs where
      b: "g = (newPaintable fb w h)\<lparr>positionsFlat := Some (flatten3 (map fst (vertexData m))),
               uvsFlat := (if hasTextureCoordinate m then Some (flatten2 (map snd (vertexData m))) else None),
               triIndices := Some tris, triMin := Some mins, triMax := Some maxs,
               triCount := real (length tris) / 3\<rparr>"
      unfolding g_def by blast
    let ?ps = "flatten3 (map fst (vertexData m))"
    have f: "positionsFlat g = Some ?ps" "triIndices g = Some tris" by (simp_all add: b)
    from v obtain p0 p1 p2 where tri: "triangleOf g t = Some (p0, p1, p2)"
      and vi: "validIntersection orig (dx, 0, dz) md p0 p1 p2"
      by (auto simp: validHit_def split: option.splits)
    have vs: "finite3 (vertexOf ?ps (readAt tris (int (t * 3 + 0)))) = Some p0"
         "finite3 (vertexOf ?ps (readAt tris (int (t * 3 + 1)))) = Some p1"
         "finite3 (vertexOf ?ps (readAt tris (int (t * 3 + 2)))) = Some p2"
      using tri unfolding triangleOf_def f by (auto split: option.splits if_splits)
    have mem: "finite3 (vertexOf ?ps vi) = Some q \<Longrightarrow> fst (snd q) = y0" for vi q
    proof -
      assume "finite3 (vertexOf ?ps vi) = Some q"
      then obtain i where i: "0 \<le> i" "i < int (length (vertexData m))" "q = map fst (vertexData m) ! nat i"
        unfolding finite3_vertexOf_flatten3 by (auto split: option.splits if_splits)
      then have n: "nat i < length (vertexData m)" by linarith
      then have "vertexData m ! nat i \<in> set (vertexData m)" by simp
      then show ?thesis using flat i(3) n by simp
    qed
    obtain ax ay az where a: "p0 = (ax, ay, az)" by (cases p0) auto
    obtain bx "by" bz where bb: "p1 = (bx, by, bz)" by (cases p1) auto
    obtain cx cy cz where c: "p2 = (cx, cy, cz)" by (cases p2) auto
    have ys: "ay = y0" "by = y0" "cy = y0"
      using mem [OF vs(1)] mem [OF vs(2)] mem [OF vs(3)] by (simp_all add: a bb c)
    have "mtDet (dx, 0, dz) p0 p1 p2 = 0" unfolding a bb c ys by (rule mtDet_coplanar)
    then show False using vi by (simp add: validIntersection_def)
  qed
  then show ?thesis using built_query_none [OF g_def] unfolding g_def by blast
qed

text \<open>
  C9, as stated, fails: the quad lies in the local X/Z plane, and the ray from
  \<open>(0, 0, 1)\<close> along \<open>(0, 0, -1)\<close> runs inside that plane. Both determinants are zero
  and \<open>getUVFromLocalRay\<close> returns none.
\<close>

theorem quad_ray_in_plane_counterexample:
  "getUVFromLocalRay (buildMeshCaches quadMesh (newPaintable True 1024 1024)) (0, 0, 1) (0, 0, - 1) PInf = None"
  by code_simp

text \<open>
  C9, as amended. For the two-triangle unit quad with indices \<open>[0,1,2,0,2,3]\<close>, vertex
  texture coordinates \<open>(0,0)\<close>, \<open>(1,0)\<close>, \<open>(1,1)\<close>, \<open>(0,1)\<close> and corners spanning local
  X and Z from \<open>-0.5\<close> to \<open>0.5\<close>, \<open>getUVFromLocalRay\<close> on the ray with local origin
  \<open>(0, 1, 0)\<close> and direction \<open>(0, -1, 0)\<close> returns a hit at the local point
  \<open>(0, 0, 0)\<close> that resolves to the texture coordinate \<open>(0.5, 0.5)\<close>, with the
  default infinite reach and with the brush's default reach of ten.
\<close>

theorem quad_ray_from_above_hits_centre:
  "getUVFromLocalRay (buildMeshCaches quadMesh (newPaintable True 1024 1024)) (0, 1, 0) (0, - 1, 0) PInf
     = Some \<lparr>uv = (1 / 2, 1 / 2), triIndex = 0, localHit = (0, 0, 0)\<rparr> \<and>
   getUVFromLocalRay (buildMeshCaches quadMesh (newPaintable True 1024 1024)) (0, 1, 0) (0, - 1, 0) (Fin 10)
     = Some \<lparr>uv = (1 / 2, 1 / 2), triIndex = 0, localHit = (0, 0, 0)\<rparr>"
  by code_simp

section \<open>Lemmas: the colour token\<close>

lemma hexDigit_facts:
  assumes "isHexDigit c"
  shows "\<not> isWhiteSpace c" and "c \<noteq> CHR ''-''" and "c \<noteq> CHR ''+''" and "c \<noteq> CHR ''x''"
    and "c \<noteq> CHR ''X''" and "c \<noteq> CHR ''#''" and "hexDigitValue c \<le> 15"
  using assms by (auto simp: isHexDigit_def isWhiteSpace_def hexDigitValue_def)

lemma parseInt16_pair:
  assumes "isHexDigit c" and "isHexDigit d"
  shows "parseInt16 [c, d] = Some (int (16 * hexDigitValue c + hexDigitValue d))"
  using assms hexDigit_facts [OF assms(1)] hexDigit_facts [OF assms(2)]
  by (simp add: parseInt16_def Let_def)

lemma matchHexToken_tokenAt:
  "matchHexToken (c # cs) = (case tokenAt (c # cs) of Some t \<Rightarrow> Some t | None \<Rightarrow> matchHexToken cs)"
  by (auto simp: tokenAt_def)


text \<open>The match is the leftmost one: a token starts at some place and none starts before it.\<close>

lemma matchHexToken_Some_iff:
  "matchHexToken n = Some tok \<longleftrightarrow>
     (\<exists>i<length n. tokenAt (drop i n) = Some tok \<and> (\<forall>j<i. tokenAt (drop j n) = None))"
proof (induction n)
  case Nil
  then show ?case by simp
next
  case (Cons c cs)
  show ?case
  proof (cases "tokenAt (c # cs)")
    case (Some t)
    have "(\<exists>i<length (c # cs). tokenAt (drop i (c # cs)) = Some tok \<and>
             (\<forall>j<i. tokenAt (drop j (c # cs)) = None)) \<longleftrightarrow> t = tok"
    proof
      assume "\<exists>i<length (c # cs). tokenAt (drop i (c # cs)) = Some tok \<and>
             (\<forall>j<i. tokenAt (drop j (c # cs)) = None)"
      then obtain i where i: "tokenAt (drop i (c # cs)) = Some tok"
        "\<forall>j<i. tokenAt (drop j (c # cs)) = None" by blast
      have "i = 0"
      proof (rule ccontr)
        assume "i \<noteq> 0"
        then have "tokenAt (drop 0 (c # cs)) = None" using i(2) by blast
        then show False using Some by simp
      qed
      then show "t = tok" using i(1) Some by simp
    next
      assume "t = tok"
      then have "tokenAt (drop 0 (c # cs)) = Some tok" using Some by simp
      then show "\<exists>i<length (c # cs). tokenAt (drop i (c # cs)) = Some tok \<and>
             (\<forall>j<i. tokenAt (drop j (c # cs)) = None)"
        by (intro exI [of _ 0]) simp
    qed
    then show ?thesis unfolding matchHexToken_tokenAt Some by simp
  next
    case None
    have "(\<exists>i<length (c # cs). tokenAt (drop i (c # cs)) = Some tok \<and>
             (\<forall>j<i. tokenAt (drop j (c # cs)) = None)) \<longleftrightarrow>
          (\<exists>i<length cs. tokenAt (drop i cs) = Some tok \<and> (\<forall>j<i. tokenAt (drop j cs) = None))"
    proof
      assume "\<exists>i<length (c # cs). tokenAt (drop i (c # cs)) = Some tok \<and>
             (\<forall>j<i. tokenAt (drop j (c # cs)) = None)"
      then obtain i where i: "i < length (c # cs)" "tokenAt (drop i (c # cs)) = Some tok"
        "\<forall>j<i. tokenAt (drop j (c # cs)) = None" by blast
      then obtain k where k: "i = Suc k" using None by (cases i) auto
      have "\<forall>j<k. tokenAt (drop j cs) = None"
      proof (intro allI impI)
        fix j assume "j < k"
        then have "Suc j < i" using k by simp
        then have "tokenAt (drop (Suc j) (c # cs)) = None" using i(3) by blast
        then show "tokenAt (drop j cs) = None" by simp
      qed
      then show "\<exists>i<length cs. tokenAt (drop i cs) = Some tok \<and> (\<forall>j<i. tokenAt (drop j cs) = None)"
        using i(1,2) k by auto
    next
      assume "\<exists>i<length cs. tokenAt (drop i cs) = Some tok \<and> (\<forall>j<i. tokenAt (drop j cs) = None)"
      then obtain i where i: "i < length cs" "tokenAt (drop i cs) = Some tok"
        "\<forall>j<i. tokenAt (drop j cs) = None" by blast
      have "\<forall>j<Suc i. tokenAt (drop j (c # cs)) = None"
      proof (intro allI impI)
        fix j assume j: "j < Suc i"
        show "tokenAt (drop j (c # cs)) = None"
        proof (cases j)
          case 0
          then show ?thesis using None by simp
        next
          case (Suc l)
          then show ?thesis using i(3) j by simp
        qed
      qed
      then show "\<exists>i<length (c # cs). tokenAt (drop i (c # cs)) = Some tok \<and>
             (\<forall>j<i. tokenAt (drop j (c # cs)) = None)"
        using i(1,2) by (intro exI [of _ "Suc i"]) simp
    qed
    then show ?thesis unfolding matchHexToken_tokenAt None using Cons.IH by simp
  qed
qed


text \<open>A token is \<open>#\<close> and three or six hexadecimal digits, read off the head of the string.\<close>

lemma tokenAt_shape:
  assumes "tokenAt s = Some tok"
  shows "\<exists>ds. tok = CHR ''#'' # ds \<and> (length ds = 3 \<or> length ds = 6) \<and> list_all isHexDigit ds \<and>
              take (length tok) s = tok"
  using assms
  by (cases s) (auto simp: tokenAt_def min_def split: if_splits)

lemma matchHexToken_shape:
  assumes "matchHexToken n = Some tok"
  shows "\<exists>ds. tok = CHR ''#'' # ds \<and> (length ds = 3 \<or> length ds = 6) \<and> list_all isHexDigit ds"
  using assms tokenAt_shape unfolding matchHexToken_Some_iff by blast

lemma list3: "length ds = 3 \<Longrightarrow> \<exists>a b c. ds = [a, b, c]"
  by (auto simp: numeral_3_eq_3 length_Suc_conv)

lemma list6: "length ds = 6 \<Longrightarrow> \<exists>a b c d e f. ds = [a, b, c, d, e, f]"
proof -
  assume "length ds = 6"
  then have "length ds = Suc (Suc (Suc (Suc (Suc (Suc 0)))))" by simp
  then show ?thesis by (auto simp: length_Suc_conv)
qed

lemma hexToRgbNormalized_token:
  assumes "list_all isHexDigit ds" and "length ds = 3 \<or> length ds = 6"
  shows "hexToRgbNormalized (CHR ''#'' # ds) = Some (hexTokenRgb (CHR ''#'' # ds))"
  using assms(2)
proof
  assume "length ds = 3"
  then obtain a b c where ds: "ds = [a, b, c]" using list3 by blast
  have h: "isHexDigit a" "isHexDigit b" "isHexDigit c" using assms(1) by (simp_all add: ds)
  show ?thesis
    by (simp add: hexToRgbNormalized_def hexTokenRgb_def expandHex_def hexPair_def ds
        parseInt16_pair h Let_def)
next
  assume "length ds = 6"
  then obtain a b c d e f where ds: "ds = [a, b, c, d, e, f]" using list6 by blast
  have h: "isHexDigit a" "isHexDigit b" "isHexDigit c" "isHexDigit d" "isHexDigit e" "isHexDigit f"
    using assms(1) by (simp_all add: ds)
  show ?thesis
    by (simp add: hexToRgbNormalized_def hexTokenRgb_def expandHex_def hexPair_def ds
        parseInt16_pair h Let_def)
qed



text \<open>What \<^verbatim>\<open>_tryPickColorFromName\<close> does, for every name.\<close>

lemma tryPick_None:
  "\<not> hasHexToken nm \<Longrightarrow> tryPickColorFromName b nm = (None, b)"
  by (auto simp: hasHexToken_def tryPickColorFromName_def split: option.splits)

lemma tryPick_Some:
  assumes "matchHexToken n = Some tok"
  shows "tryPickColorFromName b (Some n) =
           (Some (toLowerCase tok),
            b\<lparr>brushColor := (fst (hexTokenRgb tok), fst (snd (hexTokenRgb tok)), snd (snd (hexTokenRgb tok)), 1)\<rparr>)"
proof -
  from matchHexToken_shape [OF assms] obtain ds where
    ds: "tok = CHR ''#'' # ds" "length ds = 3 \<or> length ds = 6" "list_all isHexDigit ds" by blast
  have ne: "n \<noteq> []" using assms by auto
  show ?thesis
    using assms ne hexToRgbNormalized_token [OF ds(3,2)]
    by (simp add: tryPickColorFromName_def ds(1) split: prod.splits)
qed


section \<open>The claim about the colour picker\<close>




section \<open>Lemmas: one update of the brush\<close>

lemma update_noRayHit:
  "noRayHit f \<Longrightarrow> update b f = (markAllLost b, [])"
  by (auto simp: noRayHit_def update_def split: option.splits)

lemma hasHexToken_pick:
  assumes "hasHexToken nm"
  shows "\<exists>n tok. nm = Some n \<and> matchHexToken n = Some tok \<and>
           tryPickColorFromName b nm =
             (Some (toLowerCase tok),
              b\<lparr>brushColor := (fst (hexTokenRgb tok), fst (snd (hexTokenRgb tok)), snd (snd (hexTokenRgb tok)), 1)\<rparr>)"
proof -
  from assms obtain n tok where n: "nm = Some n" "matchHexToken n = Some tok"
    by (auto simp: hasHexToken_def split: option.splits)
  then show ?thesis using tryPick_Some [OF n(2), of b] by blast
qed

lemma update_pick:
  assumes "rayCast f = Some rh" and "hitCount rh \<noteq> 0" and "hitObj rh = Some obj"
    and "tryPickColorFromName b (name obj) = (Some hex, b1)"
  shows "update b f = (clearContinuity (stableObjectId obj) b1, [OnPickedColor hex (brushColor b1)])"
  using assms by (simp add: update_def)

lemma update_no_paintable:
  assumes "rayCast f = Some rh" and "hitCount rh \<noteq> 0" and "hitObj rh = Some obj"
    and "\<not> hasHexToken (name obj)" and "meshPaintable obj = None"
  shows "update b f = (markLost (objectId obj) b, [])"
  using assms tryPick_None [OF assms(4), of b] by (simp add: update_def)

lemma update_no_uv:
  assumes "rayCast f = Some rh" and "hitCount rh \<noteq> 0" and "hitObj rh = Some obj"
    and "\<not> hasHexToken (name obj)" and "meshPaintable obj = Some p"
    and "getUVFromLocalRay p (fst (localRay b f obj)) (snd (localRay b f obj)) (Fin (maxDistance b)) = None"
  shows "update b f = (markLost (objectId obj) b, [])"
  using assms tryPick_None [OF assms(4), of b] by (simp add: update_def)

lemma update_out_of_range:
  assumes "paintableHit b f rh obj p res" and "\<not> hasHexToken (name obj)"
    and "\<not> withinProximity b f rh"
  shows "update b f = (clearContinuity (stableObjectId obj) b, [])"
  using assms tryPick_None [OF assms(2), of b]
  by (auto simp: update_def paintableHit_def withinProximity_def)

lemma update_paint:
  assumes "paintableHit b f rh obj p res" and "\<not> hasHexToken (name obj)"
    and "withinProximity b f rh"
  shows "update b f = paintStroke b p (stableObjectId obj) res"
  using assms tryPick_None [OF assms(2), of b]
  by (auto simp: update_def paintableHit_def withinProximity_def)

lemma dabsOf_single [simp]: "dabsOf [PaintAtUV a c r col] = [PaintAtUV a c r col]"
  by (simp add: dabsOf_def)

lemma dabsOf_hook [simp]: "dabsOf [OnPickedColor hex col] = []"
  by (simp add: dabsOf_def)

lemma dabsOf_Nil [simp]: "dabsOf [] = []"
  by (simp add: dabsOf_def)

lemma interpolatedDabs_dabs: "dabsOf (interpolatedDabs b steps lu uvn) = interpolatedDabs b steps lu uvn"
  by (simp add: dabsOf_def interpolatedDabs_def Let_def filter_map comp_def)

lemma length_interpolatedDabs: "length (interpolatedDabs b steps lu uvn) = nat (steps + 1)"
  by (simp add: interpolatedDabs_def)

lemma strokeSteps_ge1: "1 \<le> strokeSteps b p lu uvn"
  by (simp add: strokeSteps_def Let_def)

text \<open>A stroke that is painted always has a dab.\<close>

lemma paintStroke_dabs:
  "dabsOf (snd (paintStroke b p i res)) = snd (paintStroke b p i res) \<and> snd (paintStroke b p i res) \<noteq> []"
proof -
  have "\<And>b' lu. interpolatedDabs b' (strokeSteps b' p lu (uv res)) lu (uv res) \<noteq> []"
  proof -
    fix b' lu
    have "0 < length (interpolatedDabs b' (strokeSteps b' p lu (uv res)) lu (uv res))"
      unfolding length_interpolatedDabs using strokeSteps_ge1 [of b' p lu "uv res"] by simp
    then show "interpolatedDabs b' (strokeSteps b' p lu (uv res)) lu (uv res) \<noteq> []" by blast
  qed
  then show ?thesis
    by (auto simp: paintStroke_def Let_def interpolatedDabs_dabs split: option.splits)
qed

lemma hypot3_axis: "hypot3 0 a 0 = \<bar>a\<bar>"
  by (simp add: hypot3_def)

text \<open>The fixtures: the local ray and the distance of a brush that looks straight down.\<close>

lemma localRay_frameOn:
  assumes "maxDistance b = 10" and "transformPointInverseWorld obj = (\<lambda>v. v)"
  shows "localRay b (frameOn obj (x, y, z) spot) obj = ((x, y, z), (0, - 1, 0))"
  using assms by (simp add: localRay_def frameOn_def Let_def hypot3_axis)

lemma worldDist_frameOn:
  "worldDist (frameOn obj (x, y, z) (x, y', z)) (hitOn obj (x, y', z)) = \<bar>y - y'\<bar>"
  by (simp add: worldDist_def frameOn_def hitOn_def hypot3_axis)

lemma paintableHit_quadObject:
  assumes "maxDistance b = 10"
    and "getUVFromLocalRay (buildMeshCaches quadMesh (newPaintable True 16 16)) (x, y, z) (0, - 1, 0) (Fin 10) = Some res"
  shows "paintableHit b (frameOn (quadObject nm) (x, y, z) spot) (hitOn (quadObject nm) spot) (quadObject nm)
           (buildMeshCaches quadMesh (newPaintable True 16 16)) res"
proof -
  have t: "transformPointInverseWorld (quadObject nm) = (\<lambda>v. v)" by (simp add: quadObject_def)
  have f: "rayCast (frameOn (quadObject nm) (x, y, z) spot) = Some (hitOn (quadObject nm) spot)"
    by (simp add: frameOn_def)
  have h: "hitCount (hitOn (quadObject nm) spot) \<noteq> 0" "hitObj (hitOn (quadObject nm) spot) = Some (quadObject nm)"
    by (simp_all add: hitOn_def)
  have m: "meshPaintable (quadObject nm) = Some (buildMeshCaches quadMesh (newPaintable True 16 16))"
    by (simp add: quadObject_def)
  show ?thesis
    unfolding paintableHit_def localRay_frameOn [OF assms(1) t] fst_conv snd_conv assms(1)
    using f h m assms(2) by blast
qed

lemma quad16_centre:
  "getUVFromLocalRay (buildMeshCaches quadMesh (newPaintable True 16 16)) (0, 1 / 20, 0) (0, - 1, 0) (Fin 10)
     = Some \<lparr>uv = (1 / 2, 1 / 2), triIndex = 0, localHit = (0, 0, 0)\<rparr>"
  by code_simp

lemma quad16_centre_far:
  "getUVFromLocalRay (buildMeshCaches quadMesh (newPaintable True 16 16)) (0, 21 / 20, 0) (0, - 1, 0) (Fin 10)
     = Some \<lparr>uv = (1 / 2, 1 / 2), triIndex = 0, localHit = (0, 0, 0)\<rparr>"
  by code_simp

lemma quad16_right:
  "getUVFromLocalRay (buildMeshCaches quadMesh (newPaintable True 16 16)) (1 / 4, 1 / 20, 0) (0, - 1, 0) (Fin 10)
     = Some \<lparr>uv = (3 / 4, 1 / 2), triIndex = 0, localHit = (1 / 4, 0, 0)\<rparr>"
  by code_simp

lemma quad16_triangle0:
  "getTriangleVertexIndices (buildMeshCaches quadMesh (newPaintable True 16 16)) 0 = Some (Some 0, Some 1, Some 2)"
  by code_simp

lemma quad16_canvas:
  "canvasWidth (buildMeshCaches quadMesh (newPaintable True 16 16)) = 16"
  "canvasHeight (buildMeshCaches quadMesh (newPaintable True 16 16)) = 16"
  by code_simp+

lemma no_token_wall: "\<not> hasHexToken (Some ''wall'')"
  by (simp add: hasHexToken_def isHexDigit_def)

lemma token_fff: "hasHexToken (Some ''#fff'')"
  by (simp add: hasHexToken_def isHexDigit_def)

lemma clearContinuity_fields:
  "lastUVPerObject (clearContinuity i b) = (lastUVPerObject b)(i := None)"
  "lastTriPerObject (clearContinuity i b) = (lastTriPerObject b)(i := None)"
  "contactLostPerObject (clearContinuity i b) = (contactLostPerObject b)(i \<mapsto> True)"
  "brushColor (clearContinuity i b) = brushColor b"
  by (simp_all add: clearContinuity_def)

section \<open>The claims about the brush\<close>

text \<open>
  C10. In every frame whose ray cast hits an object with a hexadecimal colour token in
  its name: the brush colour becomes the picked triple with alpha one; the only effect
  of the frame is one call of the hook \<open>onPickedColor\<close>, with the returned string, made
  when the brush colour already is the picked colour; the stored last texture
  coordinate and triangle of the picked identity are deleted and its contact-lost flag
  is set; no dab is painted; and the three entries of every other identity are left as
  they were.
\<close>

theorem colour_pick_frame:
  "rayCast f = Some rh \<and> hitCount rh \<noteq> 0 \<and> hitObj rh = Some obj \<and> hasHexToken (name obj) \<longrightarrow>
     (\<exists>hex r g bl.
        tryPickColorFromName b (name obj) = (Some hex, b\<lparr>brushColor := (r, g, bl, 1)\<rparr>) \<and>
        brushColor (fst (update b f)) = (r, g, bl, 1) \<and>
        snd (update b f) = [OnPickedColor hex (r, g, bl, 1)] \<and>
        dabsOf (snd (update b f)) = [] \<and>
        lastUVPerObject (fst (update b f)) (stableObjectId obj) = None \<and>
        lastTriPerObject (fst (update b f)) (stableObjectId obj) = None \<and>
        contactLostPerObject (fst (update b f)) (stableObjectId obj) = Some True \<and>
        (\<forall>i. i \<noteq> stableObjectId obj \<longrightarrow>
           lastUVPerObject (fst (update b f)) i = lastUVPerObject b i \<and>
           lastTriPerObject (fst (update b f)) i = lastTriPerObject b i \<and>
           contactLostPerObject (fst (update b f)) i = contactLostPerObject b i))"
proof
  assume h: "rayCast f = Some rh \<and> hitCount rh \<noteq> 0 \<and> hitObj rh = Some obj \<and> hasHexToken (name obj)"
  then have tk: "hasHexToken (name obj)" by blast
  from hasHexToken_pick [OF tk, of b] obtain n tok where
    p: "tryPickColorFromName b (name obj) =
             (Some (toLowerCase tok),
              b\<lparr>brushColor := (fst (hexTokenRgb tok), fst (snd (hexTokenRgb tok)), snd (snd (hexTokenRgb tok)), 1)\<rparr>)"
    by blast
  let ?b1 = "b\<lparr>brushColor := (fst (hexTokenRgb tok), fst (snd (hexTokenRgb tok)), snd (snd (hexTokenRgb tok)), 1)\<rparr>"
  have u: "update b f = (clearContinuity (stableObjectId obj) ?b1, [OnPickedColor (toLowerCase tok) (brushColor ?b1)])"
    using h by (intro update_pick [OF _ _ _ p]) blast+
  show "\<exists>hex r g bl.
        tryPickColorFromName b (name obj) = (Some hex, b\<lparr>brushColor := (r, g, bl, 1)\<rparr>) \<and>
        brushColor (fst (update b f)) = (r, g, bl, 1) \<and>
        snd (update b f) = [OnPickedColor hex (r, g, bl, 1)] \<and>
        dabsOf (snd (update b f)) = [] \<and>
        lastUVPerObject (fst (update b f)) (stableObjectId obj) = None \<and>
        lastTriPerObject (fst (update b f)) (stableObjectId obj) = None \<and>
        contactLostPerObject (fst (update b f)) (stableObjectId obj) = Some True \<and>
        (\<forall>i. i \<noteq> stableObjectId obj \<longrightarrow>
           lastUVPerObject (fst (update b f)) i = lastUVPerObject b i \<and>
           lastTriPerObject (fst (update b f)) i = lastTriPerObject b i \<and>
           contactLostPerObject (fst (update b f)) i = contactLostPerObject b i)"
    by (intro exI [of _ "toLowerCase tok"] exI [of _ "fst (hexTokenRgb tok)"]
          exI [of _ "fst (snd (hexTokenRgb tok))"] exI [of _ "snd (snd (hexTokenRgb tok))"])
       (simp add: u p clearContinuity_fields)
qed

theorem colour_pick_frame_witness:
  "hasHexToken (name (quadObject ''#fff'')) \<and>
   brushColor (fst (update (midStroke (Some 0, Some 1, Some 2)) (frameOn (quadObject ''#fff'') (0, 1 / 20, 0) (0, 0, 0)))) = (1, 1, 1, 1) \<and>
   snd (update (midStroke (Some 0, Some 1, Some 2)) (frameOn (quadObject ''#fff'') (0, 1 / 20, 0) (0, 0, 0)))
     = [OnPickedColor ''#fff'' (1, 1, 1, 1)] \<and>
   lastUVPerObject (fst (update (midStroke (Some 0, Some 1, Some 2)) (frameOn (quadObject ''#fff'') (0, 1 / 20, 0) (0, 0, 0)))) 7 = None \<and>
   contactLostPerObject (fst (update (midStroke (Some 0, Some 1, Some 2)) (frameOn (quadObject ''#fff'') (0, 1 / 20, 0) (0, 0, 0)))) 7 = Some True"
proof -
  let ?obj = "quadObject ''#fff''"
  let ?b = "midStroke (Some 0, Some 1, Some 2)"
  let ?f = "frameOn ?obj (0, 1 / 20, 0) (0, 0, 0)"
  have tk: "hasHexToken (name ?obj)" using token_fff by (simp add: quadObject_def)
  have id: "stableObjectId ?obj = 7" by (simp add: stableObjectId_def quadObject_def)
  have pk: "tryPickColorFromName ?b (name ?obj) = (Some ''#fff'', ?b\<lparr>brushColor := (1, 1, 1, 1)\<rparr>)"
    by (simp add: quadObject_def tryPickColorFromName_def isHexDigit_def hexToRgbNormalized_def
        parseInt16_def isWhiteSpace_def hexDigitValue_def toLowerCase_def Let_def)
  have pre: "rayCast ?f = Some (hitOn ?obj (0, 0, 0)) \<and> hitCount (hitOn ?obj (0, 0, 0)) \<noteq> 0 \<and>
             hitObj (hitOn ?obj (0, 0, 0)) = Some ?obj \<and> hasHexToken (name ?obj)"
    using tk by (simp add: frameOn_def hitOn_def)
  from colour_pick_frame [of ?f "hitOn ?obj (0, 0, 0)" ?obj ?b, rule_format, OF pre]
  obtain hex r g bl where
    w: "tryPickColorFromName ?b (name ?obj) = (Some hex, ?b\<lparr>brushColor := (r, g, bl, 1)\<rparr>)"
       "brushColor (fst (update ?b ?f)) = (r, g, bl, 1)"
       "snd (update ?b ?f) = [OnPickedColor hex (r, g, bl, 1)]"
       "lastUVPerObject (fst (update ?b ?f)) (stableObjectId ?obj) = None"
       "contactLostPerObject (fst (update ?b ?f)) (stableObjectId ?obj) = Some True"
    by blast
  from w(1) pk have "hex = ''#fff''" and "brushColor (?b\<lparr>brushColor := (r, g, bl, 1)\<rparr>) = brushColor (?b\<lparr>brushColor := (1, 1, 1, 1)\<rparr>)"
    by simp_all
  then have e: "hex = ''#fff''" "(r, g, bl, 1::real) = (1, 1, 1, 1)" by simp_all
  show ?thesis using tk w(2,3,4,5) unfolding id e by (intro conjI)
qed

lemma markAllLost_fields:
  "contactLostPerObject (markAllLost b) i = (if i \<in> tracked b then Some True else contactLostPerObject b i)"
  "lastUVPerObject (markAllLost b) = lastUVPerObject b"
  "lastTriPerObject (markAllLost b) = lastTriPerObject b"
  by (auto simp: markAllLost_def tracked_def)

lemma markLost_fields:
  "contactLostPerObject (markLost mi b) i = (if mi = Some i then Some True else contactLostPerObject b i)"
  "lastUVPerObject (markLost mi b) = lastUVPerObject b"
  "lastTriPerObject (markLost mi b) = lastTriPerObject b"
  by (auto simp: markLost_def split: option.splits)

text \<open>A frame whose hit resolves to no paint location paints nothing, colour token or not.\<close>

lemma update_unresolved_no_dab:
  assumes "rayCast f = Some rh" and "hitCount rh \<noteq> 0" and "hitObj rh = Some obj"
    and "meshPaintable obj = None \<or>
         (\<exists>p. meshPaintable obj = Some p \<and>
              getUVFromLocalRay p (fst (localRay b f obj)) (snd (localRay b f obj)) (Fin (maxDistance b)) = None)"
  shows "dabsOf (snd (update b f)) = []"
proof (cases "hasHexToken (name obj)")
  case True
  from hasHexToken_pick [OF True, of b] obtain hex b1 where
    "tryPickColorFromName b (name obj) = (Some hex, b1)" by blast
  from update_pick [OF assms(1,2,3) this] show ?thesis by simp
next
  case False
  from assms(4) show ?thesis
  proof
    assume "meshPaintable obj = None"
    from update_no_paintable [OF assms(1,2,3) False this] show ?thesis by simp
  next
    assume "\<exists>p. meshPaintable obj = Some p \<and>
              getUVFromLocalRay p (fst (localRay b f obj)) (snd (localRay b f obj)) (Fin (maxDistance b)) = None"
    then obtain p where "meshPaintable obj = Some p"
      "getUVFromLocalRay p (fst (localRay b f obj)) (snd (localRay b f obj)) (Fin (maxDistance b)) = None"
      by blast
    from update_no_uv [OF assms(1,2,3) False this] show ?thesis by simp
  qed
qed

text \<open>
  C3, as amended. In every frame with no ray hit (no result of the ray cast, a result
  with no hit, or a hit list with no object), the contact-lost flag of every tracked
  identity is set and every other flag is left as it was. In every frame whose hit
  target has no paint capability, or whose paintable resolves no texture coordinate,
  and whose name holds no colour token, the flag of the hit object's own id is set,
  when it has one, and every other flag, tracked or not, is left as it was, as are the
  stored texture coordinates and triangles. In all these frames no dab is painted.
\<close>

theorem contact_lost_on_failure:
  "(noRayHit f \<longrightarrow>
      (\<forall>i. contactLostPerObject (fst (update b f)) i =
             (if i \<in> tracked b then Some True else contactLostPerObject b i)) \<and>
      dabsOf (snd (update b f)) = []) \<and>
   (rayCast f = Some rh \<and> hitCount rh \<noteq> 0 \<and> hitObj rh = Some obj \<and>
    (meshPaintable obj = None \<or>
     (\<exists>p. meshPaintable obj = Some p \<and>
          getUVFromLocalRay p (fst (localRay b f obj)) (snd (localRay b f obj)) (Fin (maxDistance b)) = None)) \<longrightarrow>
      dabsOf (snd (update b f)) = [] \<and>
      (\<not> hasHexToken (name obj) \<longrightarrow>
         (\<forall>i. contactLostPerObject (fst (update b f)) i =
                (if objectId obj = Some i then Some True else contactLostPerObject b i)) \<and>
         lastUVPerObject (fst (update b f)) = lastUVPerObject b \<and>
         lastTriPerObject (fst (update b f)) = lastTriPerObject b))"
proof (intro conjI impI)
  assume "noRayHit f"
  then have u: "update b f = (markAllLost b, [])" by (rule update_noRayHit)
  show "\<forall>i. contactLostPerObject (fst (update b f)) i =
             (if i \<in> tracked b then Some True else contactLostPerObject b i)"
    unfolding u by (simp add: markAllLost_fields)
  show "dabsOf (snd (update b f)) = []" unfolding u by simp
next
  assume h: "rayCast f = Some rh \<and> hitCount rh \<noteq> 0 \<and> hitObj rh = Some obj \<and>
    (meshPaintable obj = None \<or>
     (\<exists>p. meshPaintable obj = Some p \<and>
          getUVFromLocalRay p (fst (localRay b f obj)) (snd (localRay b f obj)) (Fin (maxDistance b)) = None))"
  then have a: "rayCast f = Some rh" "hitCount rh \<noteq> 0" "hitObj rh = Some obj"
    and c: "meshPaintable obj = None \<or>
     (\<exists>p. meshPaintable obj = Some p \<and>
          getUVFromLocalRay p (fst (localRay b f obj)) (snd (localRay b f obj)) (Fin (maxDistance b)) = None)"
    by blast+
  show "dabsOf (snd (update b f)) = []" by (rule update_unresolved_no_dab [OF a c])
  assume nt: "\<not> hasHexToken (name obj)"
  have u: "update b f = (markLost (objectId obj) b, [])"
    using c update_no_paintable [OF a nt] update_no_uv [OF a nt] by blast
  show "\<forall>i. contactLostPerObject (fst (update b f)) i =
                (if objectId obj = Some i then Some True else contactLostPerObject b i)"
    unfolding u by (simp add: markLost_fields)
  show "lastUVPerObject (fst (update b f)) = lastUVPerObject b"
    unfolding u by (simp add: markLost_fields)
  show "lastTriPerObject (fst (update b f)) = lastTriPerObject b"
    unfolding u by (simp add: markLost_fields)
qed

theorem contact_lost_on_failure_witness:
  "noRayHit emptyFrame \<and> 7 \<in> tracked (midStroke (Some 0, Some 1, Some 2)) \<and>
   contactLostPerObject (fst (update (midStroke (Some 0, Some 1, Some 2)) emptyFrame)) 7 = Some True \<and>
   dabsOf (snd (update (midStroke (Some 0, Some 1, Some 2)) emptyFrame)) = [] \<and>
   meshPaintable (plainObject ''wall'') = None \<and> \<not> hasHexToken (name (plainObject ''wall'')) \<and>
   contactLostPerObject (fst (update (midStroke (Some 0, Some 1, Some 2))
       (frameOn (plainObject ''wall'') (0, 1 / 20, 0) (0, 0, 0)))) 9 = Some True \<and>
   dabsOf (snd (update (midStroke (Some 0, Some 1, Some 2))
       (frameOn (plainObject ''wall'') (0, 1 / 20, 0) (0, 0, 0)))) = []"
proof -
  let ?b = "midStroke (Some 0, Some 1, Some 2)"
  let ?obj = "plainObject ''wall''"
  let ?f = "frameOn ?obj (0, 1 / 20, 0) (0, 0, 0)"
  have n: "noRayHit emptyFrame" by (simp add: noRayHit_def emptyFrame_def)
  have t: "7 \<in> tracked ?b" by (simp add: tracked_def midStroke_def)
  have m: "meshPaintable ?obj = None" by (simp add: plainObject_def)
  have nt: "\<not> hasHexToken (name ?obj)" using no_token_wall by (simp add: plainObject_def)
  have oid: "objectId ?obj = Some 9" by (simp add: plainObject_def)
  have pre: "rayCast ?f = Some (hitOn ?obj (0, 0, 0)) \<and> hitCount (hitOn ?obj (0, 0, 0)) \<noteq> 0 \<and>
             hitObj (hitOn ?obj (0, 0, 0)) = Some ?obj \<and>
             (meshPaintable ?obj = None \<or>
              (\<exists>p. meshPaintable ?obj = Some p \<and>
                 getUVFromLocalRay p (fst (localRay ?b ?f ?obj)) (snd (localRay ?b ?f ?obj)) (Fin (maxDistance ?b)) = None))"
    using m by (simp add: frameOn_def hitOn_def)
  note T1 = contact_lost_on_failure [of emptyFrame ?b, THEN conjunct1, rule_format, OF n]
  note T2 = contact_lost_on_failure [of ?f ?b "hitOn ?obj (0, 0, 0)" ?obj, THEN conjunct2, rule_format, OF pre]
  have a: "contactLostPerObject (fst (update ?b emptyFrame)) 7 = Some True"
    using T1 [THEN conjunct1, rule_format, of 7] t by simp
  have b: "contactLostPerObject (fst (update ?b ?f)) 9 = Some True"
    using T2 [THEN conjunct2, rule_format, OF nt, THEN conjunct1, rule_format, of 9] oid by simp
  show ?thesis
    by (intro conjI n t a T1 [THEN conjunct2] m nt b T2 [THEN conjunct1])
qed

text \<open>
  C3, as stated, fails: a hit on an object without paint capability sets the flag of
  that object only. The identity 7, tracked and in mid-stroke, keeps its flag clear.
\<close>

theorem other_identity_not_marked_counterexample:
  "7 \<in> tracked (midStroke (Some 0, Some 1, Some 2)) \<and>
   meshPaintable (plainObject ''wall'') = None \<and>
   contactLostPerObject (fst (update (midStroke (Some 0, Some 1, Some 2))
       (frameOn (plainObject ''wall'') (0, 1 / 20, 0) (0, 0, 0)))) 7 = Some False"
proof -
  let ?b = "midStroke (Some 0, Some 1, Some 2)"
  let ?obj = "plainObject ''wall''"
  let ?f = "frameOn ?obj (0, 1 / 20, 0) (0, 0, 0)"
  have t: "7 \<in> tracked ?b" by (simp add: tracked_def midStroke_def)
  have m: "meshPaintable ?obj = None" by (simp add: plainObject_def)
  have nt: "\<not> hasHexToken (name ?obj)" using no_token_wall by (simp add: plainObject_def)
  have u: "update ?b ?f = (markLost (objectId ?obj) ?b, [])"
    by (rule update_no_paintable [OF _ _ _ nt m, of ?f "hitOn ?obj (0, 0, 0)"])
       (simp_all add: frameOn_def hitOn_def)
  have "contactLostPerObject (fst (update ?b ?f)) 7 = Some False"
    unfolding u by (simp add: markLost_fields plainObject_def midStroke_def)
  then show ?thesis using t m by (intro conjI)
qed

text \<open>
  C7. In every frame with a hit on a paintable surface (the ray cast hits an object
  with a paintable, and the paintable resolves the ray): a dab is painted only when
  proximity painting is enabled and the distance from the brush tip to the hit point is
  at most the proximity radius; with the distance equal to the radius, or less, and
  proximity painting enabled, a dab is painted, unless the frame is a colour pick; and
  when proximity painting is disabled or the distance is greater than the radius, the
  stored last texture coordinate and triangle of the surface identity are cleared, its
  contact-lost flag is set, and no dab is painted.
\<close>

theorem proximity_gate:
  "paintableHit b f rh obj p res \<longrightarrow>
     (dabsOf (snd (update b f)) \<noteq> [] \<longrightarrow> paintOnProximity b \<and> worldDist f rh \<le> brushWorldRadius b) \<and>
     (paintOnProximity b \<and> worldDist f rh \<le> brushWorldRadius b \<and> \<not> hasHexToken (name obj) \<longrightarrow>
        dabsOf (snd (update b f)) \<noteq> []) \<and>
     (\<not> paintOnProximity b \<or> worldDist f rh > brushWorldRadius b \<longrightarrow>
        lastUVPerObject (fst (update b f)) (stableObjectId obj) = None \<and>
        lastTriPerObject (fst (update b f)) (stableObjectId obj) = None \<and>
        contactLostPerObject (fst (update b f)) (stableObjectId obj) = Some True \<and>
        dabsOf (snd (update b f)) = [])"
proof
  assume ph: "paintableHit b f rh obj p res"
  then have a: "rayCast f = Some rh" "hitCount rh \<noteq> 0" "hitObj rh = Some obj"
    by (simp_all add: paintableHit_def)
  have w: "withinProximity b f rh \<longleftrightarrow> paintOnProximity b \<and> worldDist f rh \<le> brushWorldRadius b"
    by (simp add: withinProximity_def)
  show "(dabsOf (snd (update b f)) \<noteq> [] \<longrightarrow> paintOnProximity b \<and> worldDist f rh \<le> brushWorldRadius b) \<and>
     (paintOnProximity b \<and> worldDist f rh \<le> brushWorldRadius b \<and> \<not> hasHexToken (name obj) \<longrightarrow>
        dabsOf (snd (update b f)) \<noteq> []) \<and>
     (\<not> paintOnProximity b \<or> worldDist f rh > brushWorldRadius b \<longrightarrow>
        lastUVPerObject (fst (update b f)) (stableObjectId obj) = None \<and>
        lastTriPerObject (fst (update b f)) (stableObjectId obj) = None \<and>
        contactLostPerObject (fst (update b f)) (stableObjectId obj) = Some True \<and>
        dabsOf (snd (update b f)) = [])"
  proof (cases "hasHexToken (name obj)")
    case True
    from hasHexToken_pick [OF True, of b] obtain hex b1 where
      "tryPickColorFromName b (name obj) = (Some hex, b1)" by blast
    from update_pick [OF a this]
    have u: "update b f = (clearContinuity (stableObjectId obj) b1, [OnPickedColor hex (brushColor b1)])" .
    show ?thesis unfolding u using True by (simp add: clearContinuity_fields)
  next
    case False
    show ?thesis
    proof (cases "withinProximity b f rh")
      case True
      from update_paint [OF ph False True]
      have u: "update b f = paintStroke b p (stableObjectId obj) res" .
      show ?thesis unfolding u using True paintStroke_dabs [of b p "stableObjectId obj" res] w
        by auto
    next
      case nw: False
      from update_out_of_range [OF ph False nw]
      have u: "update b f = (clearContinuity (stableObjectId obj) b, [])" .
      show ?thesis unfolding u using nw w by (auto simp: clearContinuity_fields)
    qed
  qed
qed

lemma midStroke_maxDistance: "maxDistance (midStroke t) = 10"
  by (simp add: midStroke_def newBrush_def)

theorem proximity_gate_witness:
  "paintableHit (midStroke (Some 0, Some 1, Some 2)) (frameOn (quadObject ''wall'') (0, 1 / 20, 0) (0, 0, 0))
      (hitOn (quadObject ''wall'') (0, 0, 0)) (quadObject ''wall'')
      (buildMeshCaches quadMesh (newPaintable True 16 16))
      \<lparr>uv = (1 / 2, 1 / 2), triIndex = 0, localHit = (0, 0, 0)\<rparr> \<and>
   paintOnProximity (midStroke (Some 0, Some 1, Some 2)) \<and>
   worldDist (frameOn (quadObject ''wall'') (0, 1 / 20, 0) (0, 0, 0)) (hitOn (quadObject ''wall'') (0, 0, 0))
     = brushWorldRadius (midStroke (Some 0, Some 1, Some 2)) \<and>
   dabsOf (snd (update (midStroke (Some 0, Some 1, Some 2)) (frameOn (quadObject ''wall'') (0, 1 / 20, 0) (0, 0, 0)))) \<noteq> [] \<and>
   paintableHit (midStroke (Some 0, Some 1, Some 2)) (frameOn (quadObject ''wall'') (0, 21 / 20, 0) (0, 0, 0))
      (hitOn (quadObject ''wall'') (0, 0, 0)) (quadObject ''wall'')
      (buildMeshCaches quadMesh (newPaintable True 16 16))
      \<lparr>uv = (1 / 2, 1 / 2), triIndex = 0, localHit = (0, 0, 0)\<rparr> \<and>
   worldDist (frameOn (quadObject ''wall'') (0, 21 / 20, 0) (0, 0, 0)) (hitOn (quadObject ''wall'') (0, 0, 0))
     = brushWorldRadius (midStroke (Some 0, Some 1, Some 2)) + 1 \<and>
   lastUVPerObject (fst (update (midStroke (Some 0, Some 1, Some 2)) (frameOn (quadObject ''wall'') (0, 21 / 20, 0) (0, 0, 0)))) 7 = None \<and>
   contactLostPerObject (fst (update (midStroke (Some 0, Some 1, Some 2)) (frameOn (quadObject ''wall'') (0, 21 / 20, 0) (0, 0, 0)))) 7 = Some True \<and>
   dabsOf (snd (update (midStroke (Some 0, Some 1, Some 2)) (frameOn (quadObject ''wall'') (0, 21 / 20, 0) (0, 0, 0)))) = []"
proof -
  let ?b = "midStroke (Some 0, Some 1, Some 2)"
  let ?obj = "quadObject ''wall''"
  let ?rh = "hitOn ?obj (0, 0, 0)"
  let ?near = "frameOn ?obj (0, 1 / 20, 0) (0, 0, 0)"
  let ?far = "frameOn ?obj (0, 21 / 20, 0) (0, 0, 0)"
  let ?p = "buildMeshCaches quadMesh (newPaintable True 16 16)"
  let ?res = "\<lparr>uv = (1 / 2, 1 / 2), triIndex = 0, localHit = (0, 0, 0)\<rparr> :: uvResult"
  have ph1: "paintableHit ?b ?near ?rh ?obj ?p ?res"
    by (rule paintableHit_quadObject [OF midStroke_maxDistance quad16_centre])
  have ph2: "paintableHit ?b ?far ?rh ?obj ?p ?res"
    by (rule paintableHit_quadObject [OF midStroke_maxDistance quad16_centre_far])
  have on: "paintOnProximity ?b" by (simp add: midStroke_def newBrush_def)
  have rad: "brushWorldRadius ?b = 1 / 20" by (simp add: midStroke_def newBrush_def)
  have d1: "worldDist ?near ?rh = brushWorldRadius ?b"
    unfolding rad worldDist_frameOn by simp
  have d2: "worldDist ?far ?rh = brushWorldRadius ?b + 1"
    unfolding rad worldDist_frameOn by simp
  have nt: "\<not> hasHexToken (name ?obj)" using no_token_wall by (simp add: quadObject_def)
  have id: "stableObjectId ?obj = 7" by (simp add: stableObjectId_def quadObject_def)
  note N = proximity_gate [of ?b ?near ?rh ?obj ?p ?res, rule_format, OF ph1]
  note F = proximity_gate [of ?b ?far ?rh ?obj ?p ?res, rule_format, OF ph2]
  have le: "paintOnProximity ?b \<and> worldDist ?near ?rh \<le> brushWorldRadius ?b \<and> \<not> hasHexToken (name ?obj)"
    using on d1 nt by simp
  have gt: "\<not> paintOnProximity ?b \<or> worldDist ?far ?rh > brushWorldRadius ?b"
    using d2 by simp
  note n2 = N [THEN conjunct2, THEN conjunct1, rule_format, OF le]
  note f3 = F [THEN conjunct2, THEN conjunct2, rule_format, OF gt, unfolded id]
  show ?thesis
    by (intro conjI ph1 on d1 n2 ph2 d2 f3 [THEN conjunct1] f3 [THEN conjunct2, THEN conjunct2, THEN conjunct1]
          f3 [THEN conjunct2, THEN conjunct2, THEN conjunct2])
qed

lemma sharesVertex_iff:
  "sharesVertex (c0, c1, c2) (l0, l1, l2) \<longleftrightarrow> {c0, c1, c2} \<inter> {l0, l1, l2} \<noteq> {}"
  unfolding sharesVertex_def prod.case by blast

lemma strokeSteps_eq:
  "strokeSteps b p lu uvn =
     max 1 \<lceil>pixelDistance p lu uvn / max 1 (real_of_int \<lfloor>brushRadiusPx b * (1 / 2)\<rfloor>)\<rceil>"
proof -
  have "hypot2 (fst uvn * real (canvasWidth p) - fst lu * real (canvasWidth p))
               (snd uvn * real (canvasHeight p) - snd lu * real (canvasHeight p))
        = pixelDistance p lu uvn"
    by (simp add: hypot2_def pixelDistance_def power2_eq_square left_diff_distrib)
  then show ?thesis by (simp add: strokeSteps_def Let_def)
qed

lemma lerp_eq:
  fixes a c t :: real
  shows "a * (1 - t) + c * t = a + (c - a) * t"
  by (simp add: algebra_simps)

lemma interpolatedDabs_lerp:
  assumes "1 \<le> steps"
  shows "interpolatedDabs b steps lu uvn = map (lerpDab b lu uvn steps) [0 ..< nat steps + 1]"
proof -
  have n: "nat (steps + 1) = nat steps + 1" using assms by simp
  have z: "(steps = 0) = False" using assms by simp
  have "\<And>s. (let t = (if steps = 0 then 0 else real s / real_of_int steps);
                 iu = fst lu * (1 - t) + fst uvn * t;
                 iv = snd lu * (1 - t) + snd uvn * t
             in PaintAtUV iu iv (brushRadiusPx b) (brushColor b)) = lerpDab b lu uvn steps s"
    unfolding Let_def lerpDab_def lerp_eq z if_False by (rule refl)
  then show ?thesis unfolding interpolatedDabs_def n by simp
qed

lemma lerpDab_ends:
  assumes "1 \<le> steps"
  shows "lerpDab b lu uvn steps 0 = PaintAtUV (fst lu) (snd lu) (brushRadiusPx b) (brushColor b)"
    and "lerpDab b lu uvn steps (nat steps) = PaintAtUV (fst uvn) (snd uvn) (brushRadiusPx b) (brushColor b)"
proof -
  show "lerpDab b lu uvn steps 0 = PaintAtUV (fst lu) (snd lu) (brushRadiusPx b) (brushColor b)"
    by (simp add: lerpDab_def)
  have nz: "real_of_int steps \<noteq> 0" using assms by simp
  have eq: "real (nat steps) = real_of_int steps" using assms by simp
  have one: "real (nat steps) / real_of_int steps = 1" unfolding eq using nz by (rule divide_self)
  show "lerpDab b lu uvn steps (nat steps) = PaintAtUV (fst uvn) (snd uvn) (brushRadiusPx b) (brushColor b)"
    unfolding lerpDab_def one by simp
qed

lemma paintStroke_continue:
  assumes "contactLostPerObject b i \<noteq> Some True" and "lastUVPerObject b i = Some lu"
    and "lastTriPerObject b i = Some lt" and "getTriangleVertexIndices p (triIndex res) = Some cur"
  shows "snd (paintStroke b p i res) =
           (if sharesVertex cur lt then interpolatedDabs b (strokeSteps b p lu (uv res)) lu (uv res)
            else [PaintAtUV (fst (uv res)) (snd (uv res)) (brushRadiusPx b) (brushColor b)])"
    and "lastUVPerObject (fst (paintStroke b p i res)) i = Some (uv res)"
    and "lastTriPerObject (fst (paintStroke b p i res)) i = Some cur"
  using assms by (simp_all add: paintStroke_def Let_def)

lemma paintableHit_triangle:
  assumes "paintableHit b f rh obj p res"
  shows "\<exists>cur. getTriangleVertexIndices p (triIndex res) = Some cur"
proof -
  from assms have "getUVFromLocalRay p (fst (localRay b f obj)) (snd (localRay b f obj)) (Fin (maxDistance b)) = Some res"
    by (simp add: paintableHit_def)
  then have "triIndices p \<noteq> None"
    by (auto simp: getUVFromLocalRay_def split: option.splits)
  then show ?thesis by (auto simp: getTriangleVertexIndices_def Let_def)
qed

text \<open>
  C2, as amended. In every frame where a hit lies within proximity (the ray cast hits an
  object with a paintable that resolves the ray, proximity painting is enabled and the
  distance is at most the radius), the name of the hit object holds no colour token,
  the contact-lost flag of the surface identity is clear, and a previous texture
  coordinate and triangle are stored: if the three vertex indices of the current
  triangle share at least one index with the three of the previous one, exactly
  \<open>steps + 1\<close> dabs are painted, the dab of step \<open>s\<close> at the point \<open>s / steps\<close> of the
  way from the previous coordinate to the current one, the first at the previous and the
  last at the current coordinate, where \<open>steps\<close> is the larger of one and the ceiling
  of the pixel distance over the larger of one and the floor of half the brush radius;
  if no index is shared, exactly one dab is painted, at the current coordinate; and in
  both cases the current coordinate and triangle are recorded as the new last. The
  triangles \<open>[0,1,2]\<close> and \<open>[2,5,6]\<close> are adjacent, \<open>[0,1,2]\<close> and \<open>[7,8,9]\<close> are not.
\<close>

theorem stroke_continuation:
  "(paintableHit b f rh obj p res \<and> withinProximity b f rh \<and> \<not> hasHexToken (name obj) \<and>
    contactLostPerObject b (stableObjectId obj) \<noteq> Some True \<and>
    lastUVPerObject b (stableObjectId obj) = Some lu \<and>
    lastTriPerObject b (stableObjectId obj) = Some lt \<longrightarrow>
      (\<exists>cur. getTriangleVertexIndices p (triIndex res) = Some cur \<and>
         (sharesVertex cur lt \<longleftrightarrow>
            (case (cur, lt) of ((c0, c1, c2), (l0, l1, l2)) \<Rightarrow> {c0, c1, c2} \<inter> {l0, l1, l2} \<noteq> {})) \<and>
         (sharesVertex cur lt \<longrightarrow>
            (let steps = max 1 \<lceil>pixelDistance p lu (uv res) / max 1 (real_of_int \<lfloor>brushRadiusPx b * (1 / 2)\<rfloor>)\<rceil>
             in snd (update b f) = map (lerpDab b lu (uv res) steps) [0 ..< nat steps + 1] \<and>
                length (snd (update b f)) = nat steps + 1 \<and>
                lerpDab b lu (uv res) steps 0 = PaintAtUV (fst lu) (snd lu) (brushRadiusPx b) (brushColor b) \<and>
                lerpDab b lu (uv res) steps (nat steps) =
                  PaintAtUV (fst (uv res)) (snd (uv res)) (brushRadiusPx b) (brushColor b))) \<and>
         (\<not> sharesVertex cur lt \<longrightarrow>
            snd (update b f) = [PaintAtUV (fst (uv res)) (snd (uv res)) (brushRadiusPx b) (brushColor b)]) \<and>
         lastUVPerObject (fst (update b f)) (stableObjectId obj) = Some (uv res) \<and>
         lastTriPerObject (fst (update b f)) (stableObjectId obj) = Some cur)) \<and>
   sharesVertex (Some 0, Some 1, Some 2) (Some 2, Some 5, Some 6) \<and>
   \<not> sharesVertex (Some 0, Some 1, Some 2) (Some 7, Some 8, Some 9)"
proof (intro conjI impI)
  show "sharesVertex (Some 0, Some 1, Some 2) (Some 2, Some 5, Some 6)"
    by (simp add: sharesVertex_def)
  show "\<not> sharesVertex (Some 0, Some 1, Some 2) (Some 7, Some 8, Some 9)"
    by (simp add: sharesVertex_def)
next
  assume h: "paintableHit b f rh obj p res \<and> withinProximity b f rh \<and> \<not> hasHexToken (name obj) \<and>
    contactLostPerObject b (stableObjectId obj) \<noteq> Some True \<and>
    lastUVPerObject b (stableObjectId obj) = Some lu \<and>
    lastTriPerObject b (stableObjectId obj) = Some lt"
  then have ph: "paintableHit b f rh obj p res" and wp: "withinProximity b f rh"
    and nt: "\<not> hasHexToken (name obj)"
    and cl: "contactLostPerObject b (stableObjectId obj) \<noteq> Some True"
    and lu: "lastUVPerObject b (stableObjectId obj) = Some lu"
    and lt: "lastTriPerObject b (stableObjectId obj) = Some lt"
    by blast+
  from paintableHit_triangle [OF ph] obtain cur where
    cur: "getTriangleVertexIndices p (triIndex res) = Some cur" by blast
  have u: "update b f = paintStroke b p (stableObjectId obj) res"
    by (rule update_paint [OF ph nt wp])
  note ps = paintStroke_continue [OF cl lu lt cur]
  let ?steps = "max 1 \<lceil>pixelDistance p lu (uv res) / max 1 (real_of_int \<lfloor>brushRadiusPx b * (1 / 2)\<rfloor>)\<rceil>"
  have s1: "1 \<le> ?steps" by simp
  have sh: "sharesVertex cur lt \<longleftrightarrow>
            (case (cur, lt) of ((c0, c1, c2), (l0, l1, l2)) \<Rightarrow> {c0, c1, c2} \<inter> {l0, l1, l2} \<noteq> {})"
    by (cases cur; cases lt) (simp add: sharesVertex_iff del: Int_insert_left Int_insert_right)
  have adj: "sharesVertex cur lt \<longrightarrow>
            (let steps = ?steps
             in snd (update b f) = map (lerpDab b lu (uv res) steps) [0 ..< nat steps + 1] \<and>
                length (snd (update b f)) = nat steps + 1 \<and>
                lerpDab b lu (uv res) steps 0 = PaintAtUV (fst lu) (snd lu) (brushRadiusPx b) (brushColor b) \<and>
                lerpDab b lu (uv res) steps (nat steps) =
                  PaintAtUV (fst (uv res)) (snd (uv res)) (brushRadiusPx b) (brushColor b))"
  proof
    assume a: "sharesVertex cur lt"
    have e: "snd (update b f) = map (lerpDab b lu (uv res) ?steps) [0 ..< nat ?steps + 1]"
      unfolding u ps(1) using a interpolatedDabs_lerp [OF s1, of b lu "uv res"]
      by (simp add: strokeSteps_eq)
    have l: "length (snd (update b f)) = nat ?steps + 1" unfolding e by simp
    show "let steps = ?steps
             in snd (update b f) = map (lerpDab b lu (uv res) steps) [0 ..< nat steps + 1] \<and>
                length (snd (update b f)) = nat steps + 1 \<and>
                lerpDab b lu (uv res) steps 0 = PaintAtUV (fst lu) (snd lu) (brushRadiusPx b) (brushColor b) \<and>
                lerpDab b lu (uv res) steps (nat steps) =
                  PaintAtUV (fst (uv res)) (snd (uv res)) (brushRadiusPx b) (brushColor b)"
      unfolding Let_def using e l lerpDab_ends [OF s1, of b lu "uv res"] by (intro conjI)
  qed
  have nadj: "\<not> sharesVertex cur lt \<longrightarrow>
            snd (update b f) = [PaintAtUV (fst (uv res)) (snd (uv res)) (brushRadiusPx b) (brushColor b)]"
    unfolding u ps(1) by simp
  show "\<exists>cur. getTriangleVertexIndices p (triIndex res) = Some cur \<and>
         (sharesVertex cur lt \<longleftrightarrow>
            (case (cur, lt) of ((c0, c1, c2), (l0, l1, l2)) \<Rightarrow> {c0, c1, c2} \<inter> {l0, l1, l2} \<noteq> {})) \<and>
         (sharesVertex cur lt \<longrightarrow>
            (let steps = ?steps
             in snd (update b f) = map (lerpDab b lu (uv res) steps) [0 ..< nat steps + 1] \<and>
                length (snd (update b f)) = nat steps + 1 \<and>
                lerpDab b lu (uv res) steps 0 = PaintAtUV (fst lu) (snd lu) (brushRadiusPx b) (brushColor b) \<and>
                lerpDab b lu (uv res) steps (nat steps) =
                  PaintAtUV (fst (uv res)) (snd (uv res)) (brushRadiusPx b) (brushColor b))) \<and>
         (\<not> sharesVertex cur lt \<longrightarrow>
            snd (update b f) = [PaintAtUV (fst (uv res)) (snd (uv res)) (brushRadiusPx b) (brushColor b)]) \<and>
         lastUVPerObject (fst (update b f)) (stableObjectId obj) = Some (uv res) \<and>
         lastTriPerObject (fst (update b f)) (stableObjectId obj) = Some cur"
    by (intro exI [of _ cur] conjI cur sh adj nadj ps(2,3) [folded u])
qed

lemma pixelDistance_horizontal:
  "snd a = snd c \<Longrightarrow> pixelDistance p a c = \<bar>fst c - fst a\<bar> * real (canvasWidth p)"
  by (simp add: pixelDistance_def abs_mult)

theorem stroke_continuation_witness:
  "paintableHit (midStroke (Some 0, Some 1, Some 2)) (frameOn (quadObject ''wall'') (1 / 4, 1 / 20, 0) (1 / 4, 0, 0))
      (hitOn (quadObject ''wall'') (1 / 4, 0, 0)) (quadObject ''wall'')
      (buildMeshCaches quadMesh (newPaintable True 16 16))
      \<lparr>uv = (3 / 4, 1 / 2), triIndex = 0, localHit = (1 / 4, 0, 0)\<rparr> \<and>
   withinProximity (midStroke (Some 0, Some 1, Some 2)) (frameOn (quadObject ''wall'') (1 / 4, 1 / 20, 0) (1 / 4, 0, 0))
      (hitOn (quadObject ''wall'') (1 / 4, 0, 0)) \<and>
   \<not> hasHexToken (name (quadObject ''wall'')) \<and>
   contactLostPerObject (midStroke (Some 0, Some 1, Some 2)) 7 \<noteq> Some True \<and>
   lastUVPerObject (midStroke (Some 0, Some 1, Some 2)) 7 = Some (1 / 2, 1 / 2) \<and>
   sharesVertex (Some 0, Some 1, Some 2) (Some 0, Some 1, Some 2) \<and>
   length (snd (update (midStroke (Some 0, Some 1, Some 2)) (frameOn (quadObject ''wall'') (1 / 4, 1 / 20, 0) (1 / 4, 0, 0)))) = 5 \<and>
   lastUVPerObject (fst (update (midStroke (Some 0, Some 1, Some 2)) (frameOn (quadObject ''wall'') (1 / 4, 1 / 20, 0) (1 / 4, 0, 0)))) 7
     = Some (3 / 4, 1 / 2) \<and>
   \<not> sharesVertex (Some 0, Some 1, Some 2) (Some 7, Some 8, Some 9) \<and>
   snd (update (midStroke (Some 7, Some 8, Some 9)) (frameOn (quadObject ''wall'') (1 / 4, 1 / 20, 0) (1 / 4, 0, 0)))
     = [PaintAtUV (3 / 4) (1 / 2) 2 (0, 0, 0, 1)]"
proof -
  let ?b = "midStroke (Some 0, Some 1, Some 2)"
  let ?b' = "midStroke (Some 7, Some 8, Some 9)"
  let ?obj = "quadObject ''wall''"
  let ?rh = "hitOn ?obj (1 / 4, 0, 0)"
  let ?f = "frameOn ?obj (1 / 4, 1 / 20, 0) (1 / 4, 0, 0)"
  let ?p = "buildMeshCaches quadMesh (newPaintable True 16 16)"
  let ?res = "\<lparr>uv = (3 / 4, 1 / 2), triIndex = 0, localHit = (1 / 4, 0, 0)\<rparr> :: uvResult"
  have ph: "paintableHit ?b ?f ?rh ?obj ?p ?res"
    by (rule paintableHit_quadObject [OF midStroke_maxDistance quad16_right])
  have ph': "paintableHit ?b' ?f ?rh ?obj ?p ?res"
    by (rule paintableHit_quadObject [OF midStroke_maxDistance quad16_right])
  have wd: "worldDist ?f ?rh = 1 / 20" unfolding worldDist_frameOn by simp
  have wp: "withinProximity ?b ?f ?rh" "withinProximity ?b' ?f ?rh"
    unfolding withinProximity_def wd by (simp_all add: midStroke_def newBrush_def)
  have nt: "\<not> hasHexToken (name ?obj)" using no_token_wall by (simp add: quadObject_def)
  have id: "stableObjectId ?obj = 7" by (simp add: stableObjectId_def quadObject_def)
  have cl: "contactLostPerObject ?b (stableObjectId ?obj) \<noteq> Some True"
           "contactLostPerObject ?b' (stableObjectId ?obj) \<noteq> Some True"
    unfolding id by (simp_all add: midStroke_def)
  have lu: "lastUVPerObject ?b (stableObjectId ?obj) = Some (1 / 2, 1 / 2)"
           "lastUVPerObject ?b' (stableObjectId ?obj) = Some (1 / 2, 1 / 2)"
    unfolding id by (simp_all add: midStroke_def)
  have lt: "lastTriPerObject ?b (stableObjectId ?obj) = Some (Some 0, Some 1, Some 2)"
           "lastTriPerObject ?b' (stableObjectId ?obj) = Some (Some 7, Some 8, Some 9)"
    unfolding id by (simp_all add: midStroke_def)
  have cur: "getTriangleVertexIndices ?p (triIndex ?res) = Some (Some 0, Some 1, Some 2)"
    using quad16_triangle0 by simp
  have sh: "sharesVertex (Some 0, Some 1, Some 2) (Some 0, Some 1, Some 2)"
    by (simp add: sharesVertex_def)
  have nsh: "\<not> sharesVertex (Some 0, Some 1, Some 2) (Some 7, Some 8, Some 9)"
    by (simp add: sharesVertex_def)
  have pd: "pixelDistance ?p (1 / 2, 1 / 2) (uv ?res) = 4"
    by (simp add: pixelDistance_horizontal quad16_canvas)
  have st: "max 1 \<lceil>pixelDistance ?p (1 / 2, 1 / 2) (uv ?res) / max 1 (real_of_int \<lfloor>brushRadiusPx ?b * (1 / 2)\<rfloor>)\<rceil> = 4"
    unfolding pd by (simp add: midStroke_def newBrush_def)
  from stroke_continuation [of ?b ?f ?rh ?obj ?p ?res "(1 / 2, 1 / 2)" "(Some 0, Some 1, Some 2)",
      THEN conjunct1, rule_format, OF conjI [OF ph conjI [OF wp(1) conjI [OF nt conjI [OF cl(1) conjI [OF lu(1) lt(1)]]]]]]
  obtain c where c: "getTriangleVertexIndices ?p (triIndex ?res) = Some c"
    and adj: "sharesVertex c (Some 0, Some 1, Some 2) \<longrightarrow>
            (let steps = max 1 \<lceil>pixelDistance ?p (1 / 2, 1 / 2) (uv ?res) / max 1 (real_of_int \<lfloor>brushRadiusPx ?b * (1 / 2)\<rfloor>)\<rceil>
             in snd (update ?b ?f) = map (lerpDab ?b (1 / 2, 1 / 2) (uv ?res) steps) [0 ..< nat steps + 1] \<and>
                length (snd (update ?b ?f)) = nat steps + 1 \<and>
                lerpDab ?b (1 / 2, 1 / 2) (uv ?res) steps 0 =
                  PaintAtUV (fst (1 / 2 :: real, 1 / 2 :: real)) (snd (1 / 2 :: real, 1 / 2 :: real)) (brushRadiusPx ?b) (brushColor ?b) \<and>
                lerpDab ?b (1 / 2, 1 / 2) (uv ?res) steps (nat steps) =
                  PaintAtUV (fst (uv ?res)) (snd (uv ?res)) (brushRadiusPx ?b) (brushColor ?b))"
    and last: "lastUVPerObject (fst (update ?b ?f)) (stableObjectId ?obj) = Some (uv ?res)"
    by blast
  have ceq: "c = (Some 0, Some 1, Some 2)" using c cur by simp
  from adj [unfolded ceq, rule_format, OF sh, unfolded Let_def st]
  have len: "length (snd (update ?b ?f)) = 5" by simp
  have last': "lastUVPerObject (fst (update ?b ?f)) 7 = Some (3 / 4, 1 / 2)"
    using last unfolding id by simp
  from stroke_continuation [of ?b' ?f ?rh ?obj ?p ?res "(1 / 2, 1 / 2)" "(Some 7, Some 8, Some 9)",
      THEN conjunct1, rule_format, OF conjI [OF ph' conjI [OF wp(2) conjI [OF nt conjI [OF cl(2) conjI [OF lu(2) lt(2)]]]]]]
  obtain c' where c': "getTriangleVertexIndices ?p (triIndex ?res) = Some c'"
    and nadj: "\<not> sharesVertex c' (Some 7, Some 8, Some 9) \<longrightarrow>
            snd (update ?b' ?f) = [PaintAtUV (fst (uv ?res)) (snd (uv ?res)) (brushRadiusPx ?b') (brushColor ?b')]"
    by blast
  have ceq': "c' = (Some 0, Some 1, Some 2)" using c' cur by simp
  from nadj [unfolded ceq', rule_format, OF nsh]
  have one: "snd (update ?b' ?f) = [PaintAtUV (3 / 4) (1 / 2) 2 (0, 0, 0, 1)]"
    by (simp add: midStroke_def newBrush_def)
  show ?thesis
    by (intro conjI ph wp(1) nt cl(1) [unfolded id] lu(1) [unfolded id] sh len last' nsh one)
qed

text \<open>
  C2, as stated, fails in a colour-pick frame: all that the claim asks of the frame
  holds (a resolved hit within proximity, the flag clear, a previous coordinate and an
  adjacent previous triangle stored), the name of the surface holds a colour token, and
  no dab is painted.
\<close>

theorem pick_frame_paints_nothing_counterexample:
  "paintableHit (midStroke (Some 0, Some 1, Some 2)) (frameOn (quadObject ''#fff'') (1 / 4, 1 / 20, 0) (1 / 4, 0, 0))
      (hitOn (quadObject ''#fff'') (1 / 4, 0, 0)) (quadObject ''#fff'')
      (buildMeshCaches quadMesh (newPaintable True 16 16))
      \<lparr>uv = (3 / 4, 1 / 2), triIndex = 0, localHit = (1 / 4, 0, 0)\<rparr> \<and>
   withinProximity (midStroke (Some 0, Some 1, Some 2)) (frameOn (quadObject ''#fff'') (1 / 4, 1 / 20, 0) (1 / 4, 0, 0))
      (hitOn (quadObject ''#fff'') (1 / 4, 0, 0)) \<and>
   contactLostPerObject (midStroke (Some 0, Some 1, Some 2)) (stableObjectId (quadObject ''#fff'')) = Some False \<and>
   lastUVPerObject (midStroke (Some 0, Some 1, Some 2)) (stableObjectId (quadObject ''#fff'')) = Some (1 / 2, 1 / 2) \<and>
   lastTriPerObject (midStroke (Some 0, Some 1, Some 2)) (stableObjectId (quadObject ''#fff''))
     = Some (Some 0, Some 1, Some 2) \<and>
   getTriangleVertexIndices (buildMeshCaches quadMesh (newPaintable True 16 16)) 0 = Some (Some 0, Some 1, Some 2) \<and>
   sharesVertex (Some 0, Some 1, Some 2) (Some 0, Some 1, Some 2) \<and>
   dabsOf (snd (update (midStroke (Some 0, Some 1, Some 2)) (frameOn (quadObject ''#fff'') (1 / 4, 1 / 20, 0) (1 / 4, 0, 0)))) = []"
proof -
  let ?b = "midStroke (Some 0, Some 1, Some 2)"
  let ?obj = "quadObject ''#fff''"
  let ?rh = "hitOn ?obj (1 / 4, 0, 0)"
  let ?f = "frameOn ?obj (1 / 4, 1 / 20, 0) (1 / 4, 0, 0)"
  have ph: "paintableHit ?b ?f ?rh ?obj (buildMeshCaches quadMesh (newPaintable True 16 16))
              \<lparr>uv = (3 / 4, 1 / 2), triIndex = 0, localHit = (1 / 4, 0, 0)\<rparr>"
    by (rule paintableHit_quadObject [OF midStroke_maxDistance quad16_right])
  have wd: "worldDist ?f ?rh = 1 / 20" unfolding worldDist_frameOn by simp
  have wp: "withinProximity ?b ?f ?rh"
    unfolding withinProximity_def wd by (simp add: midStroke_def newBrush_def)
  have id: "stableObjectId ?obj = 7" by (simp add: stableObjectId_def quadObject_def)
  have st: "contactLostPerObject ?b (stableObjectId ?obj) = Some False"
    "lastUVPerObject ?b (stableObjectId ?obj) = Some (1 / 2, 1 / 2)"
    "lastTriPerObject ?b (stableObjectId ?obj) = Some (Some 0, Some 1, Some 2)"
    unfolding id by (simp_all add: midStroke_def)
  have sh: "sharesVertex (Some 0, Some 1, Some 2) (Some 0, Some 1, Some 2)"
    by (simp add: sharesVertex_def)
  have tk: "hasHexToken (name ?obj)" using token_fff by (simp add: quadObject_def)
  from hasHexToken_pick [OF tk, of ?b] obtain hex b1 where
    "tryPickColorFromName ?b (name ?obj) = (Some hex, b1)" by blast
  from update_pick [OF _ _ _ this, of ?f ?rh]
  have "update ?b ?f = (clearContinuity (stableObjectId ?obj) b1, [OnPickedColor hex (brushColor b1)])"
    by (simp add: frameOn_def hitOn_def)
  then have nd: "dabsOf (snd (update ?b ?f)) = []" by simp
  show ?thesis by (intro conjI ph wp st quad16_triangle0 sh nd)
qed

lemma planarUV_corner:
  assumes "Min (set (meshXs m)) = - 1" "Max (set (meshXs m)) = 1"
    and "Min (set (meshZs m)) = - 1" "Max (set (meshZs m)) = 1"
  shows "fst hp = - 1 \<and> snd (snd hp) = - 1 \<longrightarrow> planarUV m hp = (0, 0)"
    and "fst hp = 1 \<and> snd (snd hp) = 1 \<longrightarrow> planarUV m hp = (1, 1)"
  using assms by (simp_all add: planarUV_def Let_def clamp01_def)

section \<open>The claim about the planar fallback\<close>

text \<open>
  C6. On the cache built from a mesh that lacks texture coordinates, with the planar
  fallback enabled, the coordinate of every hit that \<open>getUVFromLocalRay\<close> returns is
  \<open>u = (x - minX) / (maxX - minX)\<close>, \<open>v = (z - minZ) / (maxZ - minZ)\<close> of the local hit
  point \<open>(x, y, z)\<close>, over the extents of the whole mesh along X and Z, a denominator
  of zero replaced by one, and then clamped to \<open>[0,1]\<close>. In particular on a mesh that
  spans X and Z from \<open>-1\<close> to \<open>1\<close>, a hit at \<open>x = -1\<close>, \<open>z = -1\<close> resolves to \<open>(0,0)\<close>
  and a hit at \<open>x = 1\<close>, \<open>z = 1\<close> to \<open>(1,1)\<close>. With no texture coordinates and the
  fallback disabled, \<open>getUVFromLocalRay\<close> returns none for every ray, and a frame of
  the brush whose ray cast hits an object with that paintable paints no dab.
\<close>

theorem planar_fallback_resolution:
  "let g = buildMeshCaches m (newPaintable fb w h) in
     (\<not> hasTextureCoordinate m \<and> fb \<and> getUVFromLocalRay g orig dir md = Some r \<longrightarrow>
        uv r = planarUV m (localHit r) \<and>
        (Min (set (meshXs m)) = - 1 \<and> Max (set (meshXs m)) = 1 \<and>
         Min (set (meshZs m)) = - 1 \<and> Max (set (meshZs m)) = 1 \<longrightarrow>
           (fst (localHit r) = - 1 \<and> snd (snd (localHit r)) = - 1 \<longrightarrow> uv r = (0, 0)) \<and>
           (fst (localHit r) = 1 \<and> snd (snd (localHit r)) = 1 \<longrightarrow> uv r = (1, 1)))) \<and>
     (\<not> hasTextureCoordinate m \<and> \<not> fb \<longrightarrow>
        getUVFromLocalRay g orig dir md = None \<and>
        (rayCast f = Some rh \<and> hitCount rh \<noteq> 0 \<and> hitObj rh = Some obj \<and> meshPaintable obj = Some g \<longrightarrow>
           dabsOf (snd (update b f)) = []))"
proof -
  define g where "g = buildMeshCaches m (newPaintable fb w h)"
  have p1: "\<not> hasTextureCoordinate m \<and> fb \<and> getUVFromLocalRay g orig dir md = Some r \<longrightarrow>
        uv r = planarUV m (localHit r) \<and>
        (Min (set (meshXs m)) = - 1 \<and> Max (set (meshXs m)) = 1 \<and>
         Min (set (meshZs m)) = - 1 \<and> Max (set (meshZs m)) = 1 \<longrightarrow>
           (fst (localHit r) = - 1 \<and> snd (snd (localHit r)) = - 1 \<longrightarrow> uv r = (0, 0)) \<and>
           (fst (localHit r) = 1 \<and> snd (snd (localHit r)) = 1 \<longrightarrow> uv r = (1, 1)))"
  proof
    assume a: "\<not> hasTextureCoordinate m \<and> fb \<and> getUVFromLocalRay g orig dir md = Some r"
    have "\<exists>t0. validHit g orig dir md t0"
    proof (rule ccontr)
      assume "\<not> (\<exists>t0. validHit g orig dir md t0)"
      then have "getUVFromLocalRay g orig dir md = None"
        using built_query_none [OF g_def] by blast
      then show False using a by simp
    qed
    then obtain t0 where "validHit g orig dir md t0" by blast
    from built_query_hit [OF g_def this] a obtain bt where
      "getUVFromLocalRay g orig dir md =
                  Some \<lparr>uv = planarUV m (rayPoint orig dir (hitT g orig dir bt)),
                         triIndex = bt, localHit = rayPoint orig dir (hitT g orig dir bt)\<rparr>"
      by (auto split: if_splits)
    with a have e: "uv r = planarUV m (localHit r)" by auto
    show "uv r = planarUV m (localHit r) \<and>
        (Min (set (meshXs m)) = - 1 \<and> Max (set (meshXs m)) = 1 \<and>
         Min (set (meshZs m)) = - 1 \<and> Max (set (meshZs m)) = 1 \<longrightarrow>
           (fst (localHit r) = - 1 \<and> snd (snd (localHit r)) = - 1 \<longrightarrow> uv r = (0, 0)) \<and>
           (fst (localHit r) = 1 \<and> snd (snd (localHit r)) = 1 \<longrightarrow> uv r = (1, 1)))"
      unfolding e using planarUV_corner [of m "localHit r"] by blast
  qed
  have none: "\<not> hasTextureCoordinate m \<and> \<not> fb \<Longrightarrow> getUVFromLocalRay g o' d' md' = None" for o' d' md'
  proof (cases "\<exists>t. validHit g o' d' md' t")
    case True
    assume c: "\<not> hasTextureCoordinate m \<and> \<not> fb"
    from True obtain t0 where "validHit g o' d' md' t0" by blast
    from built_query_hit [OF g_def this] c show ?thesis by auto
  next
    case False
    then show ?thesis using built_query_none [OF g_def] by blast
  qed
  have p2: "\<not> hasTextureCoordinate m \<and> \<not> fb \<longrightarrow>
        getUVFromLocalRay g orig dir md = None \<and>
        (rayCast f = Some rh \<and> hitCount rh \<noteq> 0 \<and> hitObj rh = Some obj \<and> meshPaintable obj = Some g \<longrightarrow>
           dabsOf (snd (update b f)) = [])"
  proof (intro impI conjI)
    assume c: "\<not> hasTextureCoordinate m \<and> \<not> fb"
    show "getUVFromLocalRay g orig dir md = None" by (rule none [OF c])
    assume h: "rayCast f = Some rh \<and> hitCount rh \<noteq> 0 \<and> hitObj rh = Some obj \<and> meshPaintable obj = Some g"
    then have a: "rayCast f = Some rh" "hitCount rh \<noteq> 0" "hitObj rh = Some obj" "meshPaintable obj = Some g"
      by blast+
    have "\<exists>p. meshPaintable obj = Some p \<and>
              getUVFromLocalRay p (fst (localRay b f obj)) (snd (localRay b f obj)) (Fin (maxDistance b)) = None"
      using a(4) none [OF c] by blast
    then show "dabsOf (snd (update b f)) = []"
      by (intro update_unresolved_no_dab [OF a(1,2,3)] disjI2)
  qed
  show ?thesis unfolding Let_def g_def [symmetric] using p1 p2 by blast
qed

theorem planar_fallback_resolution_witness:
  "\<not> hasTextureCoordinate wideQuadMesh \<and>
   Min (set (meshXs wideQuadMesh)) = - 1 \<and> Max (set (meshXs wideQuadMesh)) = 1 \<and>
   Min (set (meshZs wideQuadMesh)) = - 1 \<and> Max (set (meshZs wideQuadMesh)) = 1 \<and>
   getUVFromLocalRay (buildMeshCaches wideQuadMesh (newPaintable True 1024 1024)) (- 1, 1, - 1) (0, - 1, 0) PInf
     = Some \<lparr>uv = (0, 0), triIndex = 0, localHit = (- 1, 0, - 1)\<rparr> \<and>
   getUVFromLocalRay (buildMeshCaches wideQuadMesh (newPaintable True 1024 1024)) (1, 1, 1) (0, - 1, 0) PInf
     = Some \<lparr>uv = (1, 1), triIndex = 0, localHit = (1, 0, 1)\<rparr> \<and>
   uv \<lparr>uv = (0, 0), triIndex = 0, localHit = (- 1, 0, - 1)\<rparr>
     = planarUV wideQuadMesh (localHit \<lparr>uv = (0, 0), triIndex = 0, localHit = (- 1, 0, - 1)\<rparr>) \<and>
   uv \<lparr>uv = (1, 1), triIndex = 0, localHit = (1, 0, 1)\<rparr>
     = planarUV wideQuadMesh (localHit \<lparr>uv = (1, 1), triIndex = 0, localHit = (1, 0, 1)\<rparr>) \<and>
   getUVFromLocalRay (buildMeshCaches wideQuadMesh (newPaintable False 1024 1024)) (1, 1, 1) (0, - 1, 0) PInf = None"
proof -
  let ?g = "buildMeshCaches wideQuadMesh (newPaintable True 1024 1024)"
  let ?r0 = "\<lparr>uv = (0, 0), triIndex = 0, localHit = (- 1, 0, - 1)\<rparr> :: uvResult"
  let ?r1 = "\<lparr>uv = (1, 1), triIndex = 0, localHit = (1, 0, 1)\<rparr> :: uvResult"
  have nu: "\<not> hasTextureCoordinate wideQuadMesh" by (simp add: wideQuadMesh_def)
  have ext: "Min (set (meshXs wideQuadMesh)) = - 1" "Max (set (meshXs wideQuadMesh)) = 1"
    "Min (set (meshZs wideQuadMesh)) = - 1" "Max (set (meshZs wideQuadMesh)) = 1"
    by (simp_all add: wideQuadMesh_def meshXs_def meshZs_def)
  have q0: "getUVFromLocalRay ?g (- 1, 1, - 1) (0, - 1, 0) PInf = Some ?r0" by code_simp
  have q1: "getUVFromLocalRay ?g (1, 1, 1) (0, - 1, 0) PInf = Some ?r1" by code_simp
  note A = planar_fallback_resolution [of wideQuadMesh True 1024 1024 "(- 1, 1, - 1)" "(0, - 1, 0)" PInf ?r0,
      unfolded Let_def, THEN conjunct1, rule_format, OF conjI [OF nu conjI [OF TrueI q0]], THEN conjunct1]
  note B = planar_fallback_resolution [of wideQuadMesh True 1024 1024 "(1, 1, 1)" "(0, - 1, 0)" PInf ?r1,
      unfolded Let_def, THEN conjunct1, rule_format, OF conjI [OF nu conjI [OF TrueI q1]], THEN conjunct1]
  note C = planar_fallback_resolution [of wideQuadMesh False 1024 1024 "(1, 1, 1)" "(0, - 1, 0)" PInf,
      unfolded Let_def, THEN conjunct2, rule_format, OF conjI [OF nu], THEN conjunct1]
  have off: "getUVFromLocalRay (buildMeshCaches wideQuadMesh (newPaintable False 1024 1024)) (1, 1, 1) (0, - 1, 0) PInf = None"
    by (rule C) simp
  show ?thesis by (intro conjI nu ext q0 q1 A B off)
qed

end
